(* ===== verification/Prelude.thy ===== *)
theory Prelude
  imports Main "HOL-Library.Word"
begin

text \<open>
  Shared vocabulary of the development: the machine integers of the Rust sources, the
  outcome of a fallible computation (a value, a \<open>SyncError\<close>, a panic), checked slicing,
  iterator combinators whose closures may panic, decimal printing, and the generic lemmas
  on lists, words and pages that the component theories use.

  Conventions. \<open>u8\<close>, \<open>u32\<close>, \<open>u64\<close> and \<open>usize\<close> are words of their width, and \<open>+\<close>, \<open>-\<close>,
  \<open>*\<close> wrap as in a release build (the Cargo profile does not enable overflow checks);
  \<open>as usize\<close> is \<open>ucast\<close>. A Rust \<open>String\<close> is its UTF-8 byte sequence, a HOL \<open>string\<close>.
  A panic (an index out of range) is \<open>None\<close> in a pure helper and \<open>Panicked\<close> in an outcome.
\<close>

section \<open>Machine integers\<close>

type_synonym u8 = "8 word"
type_synonym u16 = "16 word"
type_synonym u32 = "32 word"
type_synonym u64 = "64 word"
type_synonym usize = "64 word"
type_synonym bytes = "u8 list"

named_theorems nat_of_word \<open>equations that move word expressions to natural numbers\<close>

lemma unat_u32_bound: "unat (x :: u32) < 4294967296"
  using unsigned_less [of x] by simp

lemma unat_u64_bound: "unat (x :: u64) < 18446744073709551616"
  using unsigned_less [of x] by simp

lemma unat_u32_of_nat [nat_of_word]: "n < 4294967296 \<Longrightarrow> unat (of_nat n :: u32) = n"
  by (simp add: unat_of_nat take_bit_eq_mod)

lemma unat_u64_of_nat [nat_of_word]:
  "n < 18446744073709551616 \<Longrightarrow> unat (of_nat n :: u64) = n"
  by (simp add: unat_of_nat take_bit_eq_mod)

lemma unat_ucast_u32_u64 [simp]: "unat (ucast (x :: u32) :: u64) = unat x"
proof -
  have "unat x < 18446744073709551616" using unat_u32_bound [of x] by simp
  then show ?thesis by (simp add: unsigned_ucast_eq take_bit_eq_mod)
qed

lemma unat_u32_add [nat_of_word]:
  "unat (a :: u32) + unat b < 4294967296 \<Longrightarrow> unat (a + b) = unat a + unat b"
  by (simp add: unat_word_ariths)

lemma unat_u32_mult [nat_of_word]:
  "unat (a :: u32) * unat b < 4294967296 \<Longrightarrow> unat (a * b) = unat a * unat b"
  by (simp add: unat_word_ariths)

lemma unat_u64_add [nat_of_word]:
  "unat (a :: u64) + unat b < 18446744073709551616 \<Longrightarrow> unat (a + b) = unat a + unat b"
  by (simp add: unat_word_ariths)

lemma unat_u64_mult [nat_of_word]:
  "unat (a :: u64) * unat b < 18446744073709551616 \<Longrightarrow> unat (a * b) = unat a * unat b"
  by (simp add: unat_word_ariths)

lemma unat_word_sub [nat_of_word]:
  "b \<le> a \<Longrightarrow> unat (a - b :: 'a::len word) = unat a - unat b"
  by (rule unat_sub)

lemma unat_min_word [simp]: "unat (min a b :: 'a::len word) = min (unat a) (unat b)"
  by (simp add: min_def word_le_nat_alt)

subsection \<open>Saturating arithmetic\<close>

definition saturating_add :: "'a::len word \<Rightarrow> 'a word \<Rightarrow> 'a word" where
  "saturating_add a b = (if unat a + unat b < 2 ^ LENGTH('a) then a + b else - 1)"

definition saturating_sub :: "'a::len word \<Rightarrow> 'a word \<Rightarrow> 'a word" where
  "saturating_sub a b = (if b \<le> a then a - b else 0)"

definition saturating_mul :: "'a::len word \<Rightarrow> 'a word \<Rightarrow> 'a word" where
  "saturating_mul a b = (if unat a * unat b < 2 ^ LENGTH('a) then a * b else - 1)"

lemma unat_max_word: "unat (- 1 :: 'a::len word) = 2 ^ LENGTH('a) - 1"
  by (simp add: unsigned_minus_1_eq_mask mask_eq_exp_minus_1)

lemma unat_saturating_add:
  "unat (saturating_add a b :: 'a::len word) = min (unat a + unat b) (2 ^ LENGTH('a) - 1)"
  by (auto simp: saturating_add_def unat_word_ariths unat_max_word)

lemma unat_saturating_sub: "unat (saturating_sub a b :: 'a::len word) = unat a - unat b"
  by (auto simp: saturating_sub_def nat_of_word word_le_nat_alt)

lemma unat_saturating_mul:
  "unat (saturating_mul a b :: 'a::len word) = min (unat a * unat b) (2 ^ LENGTH('a) - 1)"
  by (auto simp: saturating_mul_def unat_word_ariths unat_max_word)

section \<open>Errors and outcomes\<close>

text \<open>
  \<open>SyncError\<close> of \<open>src/src/error.rs\<close>. An \<open>std::io::Error\<close> is carried by its display text.
\<close>

datatype sync_error =
    Sqlite int string
  | Io string
  | Protocol string
  | RemoteLaunch string
  | Network string
  | PageSizeMismatch u32 u32
  | Busy string
  | Codec string

type_synonym 'a res = "sync_error + 'a"

text \<open>How a Rust call ends: it returns \<open>Ok\<close>, it returns \<open>Err\<close>, or it panics.\<close>

datatype 'a outcome = Returned 'a | Failed sync_error | Panicked

section \<open>Slices and iterators that may panic\<close>

definition slice :: "'a list \<Rightarrow> usize \<Rightarrow> usize \<Rightarrow> 'a list option" where
  "slice xs a b =
     (if a \<le> b \<and> unat b \<le> length xs
      then Some (take (unat b - unat a) (drop (unat a) xs)) else None)"

definition filter_map_p :: "('a \<Rightarrow> 'b option option) \<Rightarrow> 'a list \<Rightarrow> 'b list option" where
  "filter_map_p f xs = map_option (List.map_filter id) (those (map f xs))"

lemma those_map_Some:
  "(\<And>x. x \<in> set xs \<Longrightarrow> f x = Some (g x)) \<Longrightarrow> those (map f xs) = Some (map g xs)"
  by (induction xs) auto

lemma those_append:
  "those (xs @ ys) = Option.bind (those xs) (\<lambda>a. map_option (\<lambda>b. a @ b) (those ys))"
proof (induction xs)
  case Nil
  then show ?case by (cases "those ys") auto
next
  case (Cons x xs)
  then show ?case by (cases x; cases "those xs"; cases "those ys") auto
qed

lemma those_None: "None \<in> set xs \<Longrightarrow> those xs = None"
proof (induction xs)
  case (Cons x xs)
  then show ?case by (cases x) auto
qed simp

lemma those_defined: "(\<And>x. x \<in> set xs \<Longrightarrow> f x \<noteq> None) \<Longrightarrow> those (map f xs) \<noteq> None"
  by (induction xs) (auto split: option.splits)

lemma filter_map_p_Some:
  "(\<And>x. x \<in> set xs \<Longrightarrow> f x = Some (g x)) \<Longrightarrow>
   filter_map_p f xs = Some (List.map_filter g xs)"
  by (simp add: filter_map_p_def those_map_Some map_filter_def comp_def filter_map)

lemma filter_map_p_None: "x \<in> set xs \<Longrightarrow> f x = None \<Longrightarrow> filter_map_p f xs = None"
  by (auto simp: filter_map_p_def intro!: those_None rev_image_eqI [of x])

lemma filter_map_p_append:
  "filter_map_p f (xs @ ys) =
     Option.bind (filter_map_p f xs) (\<lambda>a. map_option (\<lambda>b. a @ b) (filter_map_p f ys))"
  by (cases "those (map f xs)"; cases "those (map f ys)")
     (simp_all add: filter_map_p_def those_append map_filter_def)

lemma filter_map_p_Nil [simp]: "filter_map_p f [] = Some []"
  by (simp add: filter_map_p_def map_filter_def)

section \<open>Pages of a byte image\<close>

text \<open>\<open>page_at ps bs i\<close> is the \<open>i\<close>-th page (from 0) of the image \<open>bs\<close> with pages of \<open>ps\<close> bytes.\<close>

definition page_at :: "nat \<Rightarrow> 'a list \<Rightarrow> nat \<Rightarrow> 'a list" where
  "page_at ps bs i = take ps (drop (i * ps) bs)"

lemma page_index_bound: "i < n \<Longrightarrow> i * ps + ps \<le> n * (ps :: nat)"
proof -
  assume "i < n"
  then have "Suc i * ps \<le> n * ps" by (intro mult_le_mono1) simp
  then show ?thesis by simp
qed

lemma length_page_at: "i < n \<Longrightarrow> length bs = n * ps \<Longrightarrow> length (page_at ps bs i) = ps"
  using page_index_bound [of i n ps] by (simp add: page_at_def)

lemma nth_by_page:
  assumes "ps > 0" and "k < length bs"
  shows "bs ! k = page_at ps bs (k div ps) ! (k mod ps)"
proof -
  have "k div ps * ps + k mod ps = k" by simp
  moreover have "k div ps * ps \<le> length bs"
    using assms(2) by (meson div_times_less_eq_dividend le_less_trans less_imp_le_nat)
  ultimately show ?thesis using assms by (simp add: page_at_def)
qed

lemma pages_eqI:
  assumes ps: "ps > 0" and len: "length as = n * ps" "length bs = n * ps"
    and eq: "\<And>i. i < n \<Longrightarrow> page_at ps as i = page_at ps bs i"
  shows "as = bs"
proof (rule nth_equalityI)
  show "length as = length bs" by (simp add: len)
  fix k assume k: "k < length as"
  then have "k div ps < n" using ps len(1) by (simp add: less_mult_imp_div_less)
  then show "as ! k = bs ! k"
    using nth_by_page [OF ps, of k as] nth_by_page [OF ps, of k bs] k len eq by simp
qed

section \<open>Decimal printing\<close>

text \<open>\<open>Display\<close> of an unsigned integer.\<close>

definition digit_char :: "nat \<Rightarrow> char" where
  "digit_char d = char_of (48 + d)"

fun show_nat :: "nat \<Rightarrow> string" where
  "show_nat n = (if n < 10 then [digit_char n] else show_nat (n div 10) @ [digit_char (n mod 10)])"

declare show_nat.simps [simp del]

definition show_word :: "'a::len word \<Rightarrow> string" where
  "show_word w = show_nat (unat w)"

definition show_i32 :: "int \<Rightarrow> string" where
  "show_i32 i = (if i < 0 then ''-'' else []) @ show_nat (nat \<bar>i\<bar>)"

text \<open>\<open>Display\<close> of \<open>SyncError\<close>.\<close>

fun display_error :: "sync_error \<Rightarrow> string" where
  "display_error (Sqlite code msg) = ''SQLite error (code '' @ show_i32 code @ ''): '' @ msg"
| "display_error (Io e) = ''I/O error: '' @ e"
| "display_error (Protocol m) = ''Protocol error: '' @ m"
| "display_error (RemoteLaunch m) = ''Failed to launch remote endpoint: '' @ m"
| "display_error (Network m) = ''Network error: '' @ m"
| "display_error (PageSizeMismatch a b) =
     ''Page-size mismatch: origin='' @ show_word a @ '', replica='' @ show_word b"
| "display_error (Busy m) = ''Database busy / locked: '' @ m"
| "display_error (Codec m) = ''Codec error: '' @ m"

end
