(* ===== verification/Rust_Text.thy ===== *)
theory Rust_Text
  imports Prelude
begin

text \<open>
  The operations of Rust's \<open>str\<close> and \<open>FromStr\<close> that the sources use, on UTF-8 byte strings:
  \<open>trim\<close>, \<open>split_once\<close>, \<open>strip_prefix\<close>, \<open>lines\<close>, ASCII case folding, and \<open>parse\<close> for unsigned
  integers. White space is \<open>char::is_whitespace\<close>, as the UTF-8 encodings of the 25 code points
  with the Unicode property \<open>White_Space\<close>.
\<close>

section \<open>Operations\<close>

definition WHITE_SPACE :: "string list" where
  "WHITE_SPACE =
     [[CHR 0x09], [CHR 0x0A], [CHR 0x0B], [CHR 0x0C], [CHR 0x0D], [CHR 0x20],
      [CHR 0xC2, CHR 0x85], [CHR 0xC2, CHR 0xA0], [CHR 0xE1, CHR 0x9A, CHR 0x80],
      [CHR 0xE2, CHR 0x80, CHR 0x80], [CHR 0xE2, CHR 0x80, CHR 0x81],
      [CHR 0xE2, CHR 0x80, CHR 0x82], [CHR 0xE2, CHR 0x80, CHR 0x83],
      [CHR 0xE2, CHR 0x80, CHR 0x84], [CHR 0xE2, CHR 0x80, CHR 0x85],
      [CHR 0xE2, CHR 0x80, CHR 0x86], [CHR 0xE2, CHR 0x80, CHR 0x87],
      [CHR 0xE2, CHR 0x80, CHR 0x88], [CHR 0xE2, CHR 0x80, CHR 0x89],
      [CHR 0xE2, CHR 0x80, CHR 0x8A], [CHR 0xE2, CHR 0x80, CHR 0xA8],
      [CHR 0xE2, CHR 0x80, CHR 0xA9], [CHR 0xE2, CHR 0x80, CHR 0xAF],
      [CHR 0xE2, CHR 0x81, CHR 0x9F], [CHR 0xE3, CHR 0x80, CHR 0x80]]"

definition starts_with :: "string \<Rightarrow> string \<Rightarrow> bool" where
  "starts_with p s \<longleftrightarrow> take (length p) s = p"

text \<open>The encoding at the head of a string, if it is one of the list.\<close>

definition leading :: "string list \<Rightarrow> string \<Rightarrow> string option" where
  "leading ps s = find (\<lambda>p. p \<noteq> [] \<and> starts_with p s) ps"

lemma leading_Some: "leading ps s = Some p \<Longrightarrow> p \<in> set ps \<and> p \<noteq> [] \<and> s = p @ drop (length p) s"
  by (auto simp: leading_def starts_with_def find_Some_iff) (metis append_take_drop_id)

lemma leading_None: "leading ps s = None \<longleftrightarrow> (\<forall>p \<in> set ps. p \<noteq> [] \<longrightarrow> \<not> starts_with p s)"
  by (auto simp: leading_def find_None_iff)

function trim_start_by :: "string list \<Rightarrow> string \<Rightarrow> string" where
  "trim_start_by ps s =
     (case leading ps s of None \<Rightarrow> s | Some p \<Rightarrow> trim_start_by ps (drop (length p) s))"
  by auto
termination
proof (relation "measure (length \<circ> snd)")
  fix ps s p
  assume "leading ps s = Some p"
  then have "p \<noteq> []" and "s = p @ drop (length p) s" by (auto dest: leading_Some)
  then have "length s - length p < length s" by (metis diff_less length_append length_greater_0_conv trans_less_add1)
  then show "((ps, drop (length p) s), ps, s) \<in> measure (length \<circ> snd)" by simp
qed simp

declare trim_start_by.simps [simp del]

definition trim :: "string \<Rightarrow> string" where
  "trim s = rev (trim_start_by (map rev WHITE_SPACE) (rev (trim_start_by WHITE_SPACE s)))"

text \<open>\<open>split_whitespace\<close>: the pieces between white space, empty ones dropped.\<close>

function split_ws :: "string \<Rightarrow> string \<Rightarrow> string list" where
  "split_ws acc [] = (if acc = [] then [] else [rev acc])"
| "split_ws acc (c # s) =
     (case leading WHITE_SPACE (c # s) of
        None \<Rightarrow> split_ws (c # acc) s
      | Some p \<Rightarrow>
          (if acc = [] then [] else [rev acc]) @ split_ws [] (drop (length p) (c # s)))"
  by pat_completeness auto
termination
  by (relation "measure (length \<circ> snd)") (auto dest!: leading_Some)

definition split_whitespace :: "string \<Rightarrow> string list" where
  "split_whitespace s = split_ws [] s"

fun split_once :: "char \<Rightarrow> string \<Rightarrow> (string \<times> string) option" where
  "split_once d [] = None"
| "split_once d (c # s) =
     (if c = d then Some ([], s)
      else map_option (\<lambda>(a, b). (c # a, b)) (split_once d s))"

definition strip_prefix :: "string \<Rightarrow> string \<Rightarrow> string option" where
  "strip_prefix p s = (if take (length p) s = p then Some (drop (length p) s) else None)"

definition ends_with :: "string \<Rightarrow> string \<Rightarrow> bool" where
  "ends_with p s \<longleftrightarrow> length p \<le> length s \<and> drop (length s - length p) s = p"

text \<open>\<open>str::lines\<close>: pieces between line feeds, a final empty piece dropped, one \<open>\r\<close> stripped.\<close>

definition strip_cr :: "string \<Rightarrow> string" where
  "strip_cr r = (if r \<noteq> [] \<and> hd r = CHR 0x0D then tl r else r)"

fun split_lines :: "string \<Rightarrow> string \<Rightarrow> string list" where
  "split_lines acc [] = (if acc = [] then [] else [rev acc])"
| "split_lines acc (c # s) =
     (if c = CHR 0x0A
      then rev (strip_cr acc) # split_lines [] s
      else split_lines (c # acc) s)"

definition lines :: "string \<Rightarrow> string list" where
  "lines s = split_lines [] s"

definition ascii_lower :: "char \<Rightarrow> char" where
  "ascii_lower c = (let n = of_char c :: nat in if 65 \<le> n \<and> n \<le> 90 then char_of (n + 32) else c)"

definition to_ascii_lowercase :: "string \<Rightarrow> string" where
  "to_ascii_lowercase s = map ascii_lower s"

definition digit_of :: "char \<Rightarrow> nat option" where
  "digit_of c = (let n = of_char c :: nat in if 48 \<le> n \<and> n \<le> 57 then Some (n - 48) else None)"

fun digits_value :: "nat \<Rightarrow> string \<Rightarrow> nat option" where
  "digits_value acc [] = Some acc"
| "digits_value acc (c # s) =
     (case digit_of c of None \<Rightarrow> None | Some d \<Rightarrow> digits_value (acc * 10 + d) s)"

text \<open>\<open>parse\<close> of an unsigned type whose largest value is \<open>m\<close>: an optional plus sign, then digits.\<close>

definition parse_uint :: "nat \<Rightarrow> string \<Rightarrow> nat option" where
  "parse_uint m s =
     (let ds = (case s of c # r \<Rightarrow> if c = CHR ''+'' then r else s | [] \<Rightarrow> s) in
      if ds = [] then None
      else
        (case digits_value 0 ds of
           None \<Rightarrow> None
         | Some n \<Rightarrow> if n \<le> m then Some n else None))"

definition parse_u32 :: "string \<Rightarrow> u32 option" where
  "parse_u32 s = map_option of_nat (parse_uint 4294967295 s)"

definition parse_u64 :: "string \<Rightarrow> u64 option" where
  "parse_u64 s = map_option of_nat (parse_uint 18446744073709551615 s)"

text \<open>
  \<open>Debug\<close> of a string. Escapes are those of \<open>str::escape_debug\<close> on ASCII; bytes of other code
  points are copied.
\<close>

definition debug_char :: "char \<Rightarrow> string" where
  "debug_char c =
     (let n = of_char c :: nat; hex = (\<lambda>d. if d < 10 then char_of (48 + d) else char_of (87 + d)) in
      if c = CHR 0x5C then [CHR 0x5C, CHR 0x5C]
      else if c = CHR 0x22 then [CHR 0x5C, CHR 0x22]
      else if n = 10 then [CHR 0x5C, CHR ''n'']
      else if n = 13 then [CHR 0x5C, CHR ''r'']
      else if n = 9 then [CHR 0x5C, CHR ''t'']
      else if n = 0 then [CHR 0x5C, CHR ''0'']
      else if n < 32 \<or> n = 127 then
        [CHR 0x5C, CHR ''u'', CHR 0x7B] @
        (if n < 16 then [hex n] else [hex (n div 16), hex (n mod 16)]) @ [CHR 0x7D]
      else [c])"

definition debug_str :: "string \<Rightarrow> string" where
  "debug_str s = [CHR 0x22] @ concat (map debug_char s) @ [CHR 0x22]"

text \<open>
  \<open>String::from_utf8_lossy\<close>: a malformed sequence, up to the longest prefix of a character it
  can be, becomes U+FFFD. The second byte of a character is restricted after \<open>E0\<close>, \<open>ED\<close>, \<open>F0\<close>
  and \<open>F4\<close>.
\<close>

definition cont :: "char \<Rightarrow> bool" where
  "cont c \<longleftrightarrow> (let n = of_char c :: nat in 128 \<le> n \<and> n \<le> 191)"

definition second_ok :: "nat \<Rightarrow> char \<Rightarrow> bool" where
  "second_ok b c =
     (let n = of_char c :: nat in
      if b = 224 then 160 \<le> n \<and> n \<le> 191
      else if b = 237 then 128 \<le> n \<and> n \<le> 159
      else if b = 240 then 144 \<le> n \<and> n \<le> 191
      else if b = 244 then 128 \<le> n \<and> n \<le> 143
      else 128 \<le> n \<and> n \<le> 191)"

definition utf8_width :: "nat \<Rightarrow> nat" where
  "utf8_width b =
     (if b < 128 then 1 else if 194 \<le> b \<and> b \<le> 223 then 2 else if 224 \<le> b \<and> b \<le> 239 then 3
      else if 240 \<le> b \<and> b \<le> 244 then 4 else 0)"

text \<open>How many bytes of the head belong together, and whether they are a character.\<close>

definition utf8_head :: "string \<Rightarrow> nat \<times> bool" where
  "utf8_head s =
     (case s of
        [] \<Rightarrow> (0, False)
      | c # r \<Rightarrow>
          (let b = of_char c; w = utf8_width b in
           if w = 0 then (1, False)
           else if w = 1 then (1, True)
           else if r = [] \<or> \<not> second_ok b (hd r) then (1, False)
           else
             (let k = length (takeWhile cont (take (w - 2) (tl r)))
              in (2 + k, 2 + k = w))))"

lemma utf8_head_progress: "s \<noteq> [] \<Longrightarrow> 0 < fst (utf8_head s)"
  by (cases s) (auto simp: utf8_head_def Let_def)

function utf8_lossy :: "string \<Rightarrow> string" where
  "utf8_lossy s =
     (if s = [] then []
      else
        (let (n, ok) = utf8_head s
         in (if ok then take n s else [CHR 0xEF, CHR 0xBF, CHR 0xBD]) @ utf8_lossy (drop n s)))"
  by auto
termination
proof (relation "measure length")
  fix s :: string and x n ok
  assume "s \<noteq> []" "x = utf8_head s" "(n, ok) = x"
  then have "0 < n" using utf8_head_progress [of s] by (metis fst_conv)
  with \<open>s \<noteq> []\<close> show "(drop n s, s) \<in> measure length" by simp
qed simp

declare utf8_lossy.simps [simp del]

section \<open>Printing and parsing\<close>

lemma digit_of_digit_char: "d < 10 \<Longrightarrow> digit_of (digit_char d) = Some d"
  by (simp add: digit_of_def digit_char_def Let_def)

lemma digits_value_append:
  "digits_value acc (xs @ ys) = Option.bind (digits_value acc xs) (\<lambda>a. digits_value a ys)"
  by (induction xs arbitrary: acc) (auto split: option.splits)

lemma digits_value_show: "digits_value 0 (show_nat n) = Some n"
proof (induction n rule: show_nat.induct)
  case (1 n)
  show ?case
  proof (cases "n < 10")
    case True
    then show ?thesis by (subst show_nat.simps) (simp add: digit_of_digit_char)
  next
    case False
    with 1 show ?thesis
      by (subst show_nat.simps) (simp add: digits_value_append digit_of_digit_char)
  qed
qed

lemma show_nat_digits: "\<forall>c \<in> set (show_nat n). \<exists>d < 10. c = digit_char d"
proof (induction n rule: show_nat.induct)
  case (1 n)
  then show ?case by (subst show_nat.simps) (auto intro!: exI [of _ "n mod 10"])
qed

lemma digit_char_code: "d < 10 \<Longrightarrow> of_char (digit_char d) = 48 + d"
  by (simp add: digit_char_def)

lemma digit_char_not:
  assumes "d < 10" and "of_char c < (48 :: nat) \<or> of_char c > (57 :: nat)"
  shows "digit_char d \<noteq> c"
proof
  assume "digit_char d = c"
  with digit_char_code [OF assms(1)] have "of_char c = 48 + d" by simp
  with assms show False by auto
qed

lemma show_nat_not_in:
  "of_char c < (48 :: nat) \<or> of_char c > (57 :: nat) \<Longrightarrow> c \<notin> set (show_nat n)"
  using show_nat_digits [of n] digit_char_not [of _ c] by metis

lemma show_nat_not_Nil [simp]: "show_nat n \<noteq> []"
  by (subst show_nat.simps) simp

lemma parse_uint_show: "n \<le> m \<Longrightarrow> parse_uint m (show_nat n) = Some n"
proof -
  assume "n \<le> m"
  have "CHR ''+'' \<notin> set (show_nat n)" by (rule show_nat_not_in) simp
  then have "(case show_nat n of c # r \<Rightarrow> if c = CHR ''+'' then r else show_nat n
      | [] \<Rightarrow> show_nat n) = show_nat n"
    by (auto split: list.splits)
  with \<open>n \<le> m\<close> show ?thesis by (simp add: parse_uint_def digits_value_show)
qed

lemma parse_u64_show: "parse_u64 (show_word (w :: u64)) = Some w"
proof -
  have "unat w \<le> 18446744073709551615" using unat_u64_bound [of w] by simp
  then show ?thesis by (simp add: parse_u64_def show_word_def parse_uint_show)
qed

lemma parse_u32_show: "parse_u32 (show_word (w :: u32)) = Some w"
proof -
  have "unat w \<le> 4294967295" using unat_u32_bound [of w] by simp
  then show ?thesis by (simp add: parse_u32_def show_word_def parse_uint_show)
qed

section \<open>Trimming and splitting\<close>

lemma starts_with_Cons [simp]:
  "starts_with (c # p) s \<longleftrightarrow> (\<exists>t. s = c # t \<and> starts_with p t)"
  by (cases s) (auto simp: starts_with_def)

lemma starts_with_Nil [simp]: "starts_with [] s"
  by (simp add: starts_with_def)

lemma starts_with_prefix: "starts_with p s \<Longrightarrow> starts_with p (s @ t)"
  by (induction p arbitrary: s) auto

lemma starts_with_before: "starts_with p (s @ c # t) \<Longrightarrow> c \<notin> set p \<Longrightarrow> starts_with p s"
proof (induction p arbitrary: s)
  case (Cons a p)
  then show ?case by (cases s) auto
qed simp

lemma trim_start_fixed: "leading ps s = None \<Longrightarrow> trim_start_by ps s = s"
  by (subst trim_start_by.simps) simp

lemma leading_trim_start: "leading ps (trim_start_by ps s) = None"
proof (induction ps s rule: trim_start_by.induct)
  case (1 ps s)
  then show ?case by (subst trim_start_by.simps) (simp split: option.split)
qed

lemma trim_start_suffix: "\<exists>t. s = t @ trim_start_by ps s"
proof (induction ps s rule: trim_start_by.induct)
  case (1 ps s)
  show ?case
  proof (cases "leading ps s")
    case None
    then show ?thesis by (simp add: trim_start_fixed)
  next
    case (Some p)
    from 1 [OF Some] obtain t where "drop (length p) s = t @ trim_start_by ps (drop (length p) s)" ..
    then have "s = (take (length p) s @ t) @ trim_start_by ps (drop (length p) s)"
      by (metis append_take_drop_id append_assoc)
    moreover from Some have "trim_start_by ps s = trim_start_by ps (drop (length p) s)"
      by (subst trim_start_by.simps) simp
    ultimately show ?thesis by metis
  qed
qed

text \<open>A string is trimmed when no white space stands at either end.\<close>

definition trimmed :: "string \<Rightarrow> bool" where
  "trimmed s \<longleftrightarrow> leading WHITE_SPACE s = None \<and> leading (map rev WHITE_SPACE) (rev s) = None"

lemma trim_trimmed: "trimmed s \<Longrightarrow> trim s = s"
  by (simp add: trimmed_def trim_def trim_start_fixed)

lemma trimmed_trim: "trimmed (trim s)"
proof -
  define t where "t = trim_start_by WHITE_SPACE s"
  obtain u where "rev t = u @ trim_start_by (map rev WHITE_SPACE) (rev t)"
    using trim_start_suffix by blast
  then have "t = trim s @ rev u"
    by (metis rev_append rev_rev_ident trim_def t_def)
  moreover have "leading WHITE_SPACE t = None" by (simp add: t_def leading_trim_start)
  ultimately have "leading WHITE_SPACE (trim s) = None"
    using starts_with_prefix [of _ "trim s" "rev u"] by (auto simp: leading_None)
  then show ?thesis by (simp add: trimmed_def) (simp add: trim_def leading_trim_start)
qed

lemma trim_fixed_iff: "trim s = s \<longleftrightarrow> trimmed s"
  using trim_trimmed trimmed_trim [of s] by auto

lemma trim_trim [simp]: "trim (trim s) = trim s"
  by (simp add: trim_trimmed trimmed_trim)

definition white_byte :: "char \<Rightarrow> bool" where
  "white_byte c \<longleftrightarrow> (\<exists>p \<in> set WHITE_SPACE. c \<in> set p)"

lemma white_byte_not_digit: "white_byte c \<Longrightarrow> of_char c < (48 :: nat) \<or> of_char c > (57 :: nat)"
proof -
  have "\<forall>p \<in> set WHITE_SPACE. \<forall>c \<in> set p. of_char c < (48 :: nat) \<or> of_char c > (57 :: nat)"
    by (simp add: WHITE_SPACE_def)
  then show "white_byte c \<Longrightarrow> ?thesis" by (auto simp: white_byte_def)
qed

lemma leading_at:
  assumes "s = [] \<or> \<not> white_byte (hd s)"
  shows "leading WHITE_SPACE s = None" and "leading (map rev WHITE_SPACE) s = None"
proof -
  have no: "\<not> starts_with p s" if "p \<noteq> []" and "q \<in> set WHITE_SPACE" and "set p = set q" for p q
  proof
    assume "starts_with p s"
    with that(1) obtain c r t where "p = c # r" "s = c # t" by (cases p) auto
    with assms that(2,3) show False by (auto simp: white_byte_def)
  qed
  show "leading WHITE_SPACE s = None" using no [OF _ _ refl] by (simp add: leading_None)
  show "leading (map rev WHITE_SPACE) s = None"
    unfolding leading_None using no [OF _ _ set_rev] by (auto simp del: rev_is_Nil_conv)
qed

lemma trim_id: "\<forall>c \<in> set s. \<not> white_byte c \<Longrightarrow> trim s = s"
proof (rule trim_trimmed)
  assume *: "\<forall>c \<in> set s. \<not> white_byte c"
  have "s = [] \<or> \<not> white_byte (hd s)" using * hd_in_set by blast
  moreover have "rev s = [] \<or> \<not> white_byte (hd (rev s))" using * hd_in_set [of "rev s"] by auto
  ultimately show "trimmed s" unfolding trimmed_def by (intro conjI leading_at)
qed

lemma trimmed_ends:
  assumes "s \<noteq> []" and "\<not> white_byte (hd s)" and "\<not> white_byte (last s)"
  shows "trimmed s"
  unfolding trimmed_def using assms by (intro conjI leading_at) (simp_all add: hd_rev)

lemma trim_newline:
  assumes "s \<noteq> []" and "\<not> white_byte (hd s)" and "\<not> white_byte (last s)"
  shows "trim (s @ [CHR 0x0A]) = s"
proof -
  let ?R = "map rev WHITE_SPACE"
  have "leading WHITE_SPACE (s @ [CHR 0x0A]) = None" using assms by (intro leading_at) simp
  moreover have "leading ?R (CHR 0x0A # rev s) = Some [CHR 0x0A]"
    by (simp add: leading_def WHITE_SPACE_def)
  then have "trim_start_by ?R (CHR 0x0A # rev s) = trim_start_by ?R (rev s)"
    by (subst trim_start_by.simps) simp
  moreover have "trim_start_by ?R (rev s) = rev s"
    using trimmed_ends [OF assms] by (simp add: trimmed_def trim_start_fixed)
  ultimately show ?thesis by (simp add: trim_def trim_start_fixed)
qed

lemma split_once_at: "d \<notin> set a \<Longrightarrow> split_once d (a @ d # b) = Some (a, b)"
  by (induction a) auto

lemma split_lines_line:
  assumes "CHR 0x0A \<notin> set l"
  shows "split_lines acc (l @ CHR 0x0A # s) =
    rev (strip_cr (rev l @ acc)) # split_lines [] s"
  using assms by (induction l arbitrary: acc) auto

lemma lines_line:
  assumes "CHR 0x0A \<notin> set l" and "last l \<noteq> CHR 0x0D"
  shows "lines (l @ CHR 0x0A # s) = l # lines s"
proof -
  have "strip_cr (rev l) = rev l"
    using assms(2) by (simp add: strip_cr_def hd_rev)
  then show ?thesis by (simp add: lines_def split_lines_line assms(1))
qed

lemma lines_end:
  assumes "CHR 0x0A \<notin> set l" and "l \<noteq> []"
  shows "lines l = [l]"
proof -
  have "split_lines acc l = (if rev l @ acc = [] then [] else [rev (rev l @ acc)])" for acc
    using assms(1) by (induction l arbitrary: acc) auto
  with assms(2) show ?thesis by (simp add: lines_def)
qed

end
