(* ===== verification/Kv_Text.thy ===== *)
theory Kv_Text
  imports Rust_Text
begin

text \<open>
  The \<open>key=value\<close> text format of the lease and freshness files (\<open>src/src/kv_text.rs\<close>). Errors
  are their texts. A record is the map from keys to trimmed values, the last line of a key
  counting. Shown: what one well-formed line adds to the record, from which the round trips
  of the record formats follow.
\<close>

type_synonym 'a kv_result = "string + 'a"

fun kv_loop ::
  "string \<Rightarrow> string list \<Rightarrow> (string \<rightharpoonup> string) \<Rightarrow> string list \<Rightarrow> (string \<rightharpoonup> string) kv_result" where
  "kv_loop subject allowed m [] = Inr m"
| "kv_loop subject allowed m (raw # rest) =
     (let line = trim raw in
      if line = [] then kv_loop subject allowed m rest
      else
        (case split_once (CHR ''='') line of
           None \<Rightarrow> Inl (''invalid '' @ subject @ '' line (expected key=value): '' @ line)
         | Some (k, v) \<Rightarrow>
             (let key = trim k in
              if key \<notin> set allowed then Inl (''unknown '' @ subject @ '' key: '' @ key)
              else kv_loop subject allowed (m(key \<mapsto> trim v)) rest)))"

definition parse_kv_lines ::
  "string \<Rightarrow> string \<Rightarrow> string list \<Rightarrow> (string \<rightharpoonup> string) kv_result" where
  "parse_kv_lines subject input allowed = kv_loop subject allowed Map.empty (lines input)"

definition require_u64 :: "(string \<rightharpoonup> string) \<Rightarrow> string \<Rightarrow> u64 kv_result" where
  "require_u64 m key =
     (case m key of
        None \<Rightarrow> Inl (''missing '' @ key)
      | Some raw \<Rightarrow>
          (case parse_u64 raw of
             None \<Rightarrow> Inl (''invalid '' @ key @ '': '' @ raw)
           | Some v \<Rightarrow> Inr v))"

definition require_non_empty :: "(string \<rightharpoonup> string) \<Rightarrow> string \<Rightarrow> string kv_result" where
  "require_non_empty m key =
     (case m key of
        None \<Rightarrow> Inl (''missing '' @ key)
      | Some raw \<Rightarrow> if raw = [] then Inl (key @ '' must not be empty'') else Inr raw)"

text \<open>What reading a file gives: its text, that it does not exist, or another error's text.\<close>

datatype file_read = File_Text string | File_Not_Found | File_Error string

definition eq_ignore_ascii_case :: "string \<Rightarrow> string \<Rightarrow> bool" where
  "eq_ignore_ascii_case a b \<longleftrightarrow> to_ascii_lowercase a = to_ascii_lowercase b"

definition read_optional_kv_text :: "file_read \<Rightarrow> string option kv_result" where
  "read_optional_kv_text f =
     (case f of
        File_Not_Found \<Rightarrow> Inr None
      | File_Error e \<Rightarrow> Inl e
      | File_Text text \<Rightarrow>
          (let trimmed = trim text in
           if trimmed = [] \<or> eq_ignore_ascii_case trimmed ''none'' then Inr None
           else Inr (Some trimmed)))"

section \<open>Well-formed lines\<close>

lemma trimmed_after:
  assumes "k \<noteq> []" and "\<not> white_byte (hd k)" and "\<not> white_byte c" and "trimmed v"
  shows "trimmed (k @ c # v)"
proof -
  have "leading WHITE_SPACE (k @ c # v) = None" using assms(1,2) by (intro leading_at) simp
  moreover have "\<not> starts_with p (rev v @ c # rev k)"
    if "p \<in> set (map rev WHITE_SPACE)" "p \<noteq> []" for p
  proof
    assume "starts_with p (rev v @ c # rev k)"
    moreover have "c \<notin> set p" using assms(3) that(1) by (auto simp: white_byte_def)
    ultimately have "starts_with p (rev v)" by (rule starts_with_before)
    with assms(4) that show False by (auto simp: trimmed_def leading_None)
  qed
  then have "leading (map rev WHITE_SPACE) (rev (k @ c # v)) = None" by (simp add: leading_None)
  ultimately show ?thesis by (simp only: trimmed_def)
qed

lemma trimmed_last: "trimmed v \<Longrightarrow> v \<noteq> [] \<Longrightarrow> last v \<noteq> CHR 0x0D"
  by (cases v rule: rev_cases) (auto simp: trimmed_def leading_None WHITE_SPACE_def)

text \<open>A value as the records print it: trimmed and on one line. It may be empty.\<close>

definition printable :: "string \<Rightarrow> bool" where
  "printable v \<longleftrightarrow> trim v = v \<and> CHR 0x0A \<notin> set v"

definition plain_key :: "string \<Rightarrow> bool" where
  "plain_key k \<longleftrightarrow> k \<noteq> [] \<and> (\<forall>c \<in> set k. \<not> white_byte c \<and> c \<noteq> CHR ''='')"

lemma trimmed_kv_line:
  assumes "plain_key k" and "printable v"
  shows "trimmed (k @ CHR ''='' # v)"
proof (rule trimmed_after)
  show "\<not> white_byte (CHR ''='')" by (simp add: white_byte_def WHITE_SPACE_def)
  show "\<not> white_byte (hd k)" using assms(1) by (cases k) (auto simp: plain_key_def)
qed (use assms in \<open>auto simp: plain_key_def printable_def trim_fixed_iff\<close>)

lemma kv_loop_line:
  assumes "plain_key k" and "printable v" and "k \<in> set allowed"
  shows "kv_loop subject allowed m ((k @ CHR ''='' # v) # rest) =
    kv_loop subject allowed (m(k \<mapsto> v)) rest"
proof -
  have "CHR ''='' \<notin> set k" and "\<forall>c \<in> set k. \<not> white_byte c" using assms(1) by (auto simp: plain_key_def)
  moreover have "trim v = v" using assms(2) by (simp add: printable_def)
  ultimately show ?thesis
    using assms(3) by (simp add: trim_trimmed [OF trimmed_kv_line [OF assms(1,2)]] split_once_at trim_id)
qed

lemma lines_kv:
  assumes "plain_key k" and "printable v"
  shows "lines ((k @ CHR ''='' # v) @ CHR 0x0A # s) = (k @ CHR ''='' # v) # lines s"
proof (rule lines_line)
  have "\<forall>c \<in> set k. \<not> white_byte c" using assms(1) by (simp add: plain_key_def)
  moreover have "white_byte (CHR 0x0A)" by (simp add: white_byte_def WHITE_SPACE_def)
  ultimately show "CHR 0x0A \<notin> set (k @ CHR ''='' # v)"
    using assms(2) by (auto simp: printable_def)
  show "last (k @ CHR ''='' # v) \<noteq> CHR 0x0D"
    using trimmed_last [OF trimmed_kv_line [OF assms]] by simp
qed

lemma show_word_printable: "printable (show_word w)"
proof -
  have "c \<notin> set (show_nat n)" if "white_byte c" for c n
    by (intro show_nat_not_in white_byte_not_digit that)
  moreover have "white_byte (CHR 0x0A)" by (simp add: white_byte_def WHITE_SPACE_def)
  ultimately show ?thesis unfolding printable_def show_word_def by (blast intro: trim_id)
qed

end
