(* ===== verification/Endpoint.thy ===== *)
theory Endpoint
  imports Kv_Text
begin

text \<open>
  Endpoints (\<open>src/src/endpoint.rs\<close>): a local path, an SSH location or a gRPC database, parsed
  from one string. \<open>str::parse::<IpAddr>\<close> of the standard library is modelled by its parser: a
  read takes a prefix of the input or fails and takes nothing.

  Shown: what a parsed endpoint looks like, that a gRPC endpoint written as a URL parses back,
  and that a string that is not remote is the local path itself.
\<close>

section \<open>IP addresses\<close>

definition hex_digit_of :: "char \<Rightarrow> nat option" where
  "hex_digit_of c =
     (let n = of_char (ascii_lower c) :: nat in
      if 48 \<le> n \<and> n \<le> 57 then Some (n - 48)
      else if 97 \<le> n \<and> n \<le> 102 then Some (n - 87) else None)"

text \<open>
  \<open>read_number\<close>: all digits at the head, at most \<open>max_digits\<close> of them, the value at most \<open>m\<close>, no
  zero in front of others unless allowed. The value is the rest of the input.
\<close>

definition read_number ::
  "(char \<Rightarrow> nat option) \<Rightarrow> nat \<Rightarrow> nat \<Rightarrow> nat \<Rightarrow> bool \<Rightarrow> string \<Rightarrow> string option" where
  "read_number digit radix m max_digits allow_zero_prefix s =
     (let ds = takeWhile (\<lambda>c. digit c \<noteq> None) s;
          v = foldl (\<lambda>acc c. acc * radix + the (digit c)) 0 ds
      in if ds = [] \<or> length ds > max_digits \<or> v > m then None
         else if \<not> allow_zero_prefix \<and> hd s = CHR ''0'' \<and> length ds > 1 then None
         else Some (drop (length ds) s))"

text \<open>A separator in front of every part but the first.\<close>

definition read_separator ::
  "char \<Rightarrow> nat \<Rightarrow> (string \<Rightarrow> string option) \<Rightarrow> string \<Rightarrow> string option" where
  "read_separator sep i p s =
     (if i = 0 then p s
      else (case s of c # r \<Rightarrow> if c = sep then p r else None | [] \<Rightarrow> None))"

definition read_octet :: "nat \<Rightarrow> string \<Rightarrow> string option" where
  "read_octet i = read_separator (CHR ''.'') i (read_number digit_of 10 255 3 False)"

definition read_ipv4_addr :: "string \<Rightarrow> string option" where
  "read_ipv4_addr s =
     (case read_octet 0 s of
        None \<Rightarrow> None
      | Some s1 \<Rightarrow>
          (case read_octet 1 s1 of
             None \<Rightarrow> None
           | Some s2 \<Rightarrow>
               (case read_octet 2 s2 of None \<Rightarrow> None | Some s3 \<Rightarrow> read_octet 3 s3)))"

text \<open>\<open>read_groups\<close>: how many groups were read, whether the last two are an IPv4 address, the rest.\<close>

function read_groups :: "nat \<Rightarrow> nat \<Rightarrow> string \<Rightarrow> nat \<times> bool \<times> string" where
  "read_groups limit i s =
     (if i \<ge> limit then (limit, False, s)
      else
        (case (if i + 1 < limit then read_separator (CHR '':'') i read_ipv4_addr s else None) of
           Some r \<Rightarrow> (i + 2, True, r)
         | None \<Rightarrow>
             (case read_separator (CHR '':'') i (read_number hex_digit_of 16 65535 4 True) s of
                None \<Rightarrow> (i, False, s)
              | Some r \<Rightarrow> read_groups limit (i + 1) r)))"
  by pat_completeness auto
termination by (relation "measure (\<lambda>(limit, i, _). limit - i)") auto

declare read_groups.simps [simp del]

definition read_ipv6_addr :: "string \<Rightarrow> string option" where
  "read_ipv6_addr s =
     (case read_groups 8 0 s of (head_size, head_ipv4, r) \<Rightarrow>
        if head_size = 8 then Some r
        else if head_ipv4 then None
        else if starts_with ''::'' r then
          (case read_groups (7 - head_size) 0 (drop 2 r) of (_, _, r') \<Rightarrow> Some r')
        else None)"

definition is_ip_addr :: "string \<Rightarrow> bool" where
  "is_ip_addr s \<longleftrightarrow>
     (case read_ipv4_addr s of
        Some r \<Rightarrow> r = []
      | None \<Rightarrow> read_ipv6_addr s = Some [])"

section \<open>Parsing\<close>

datatype endpoint = Local string | Remote string string | Grpc string string

fun any_white :: "string \<Rightarrow> bool" where
  "any_white [] = False"
| "any_white (c # s) = (leading WHITE_SPACE (c # s) \<noteq> None \<or> any_white s)"

definition looks_like_remote_host :: "string \<Rightarrow> bool" where
  "looks_like_remote_host host_part \<longleftrightarrow>
     (if host_part = [] \<or> starts_with ''.'' host_part \<or> CHR ''/'' \<in> set host_part \<or>
         CHR 0x5C \<in> set host_part \<or> any_white host_part
      then False
      else if CHR ''@'' \<in> set host_part then True
      else if eq_ignore_ascii_case host_part ''localhost'' then True
      else if is_ip_addr host_part then True
      else CHR ''.'' \<in> set host_part)"

definition is_ascii_alphabetic :: "char \<Rightarrow> bool" where
  "is_ascii_alphabetic c \<longleftrightarrow> (let n = of_char (ascii_lower c) :: nat in 97 \<le> n \<and> n \<le> 122)"

definition is_remote_candidate :: "string \<Rightarrow> string \<Rightarrow> bool" where
  "is_remote_candidate host_part path_part \<longleftrightarrow>
     \<not> (length host_part = 1 \<and> is_ascii_alphabetic (hd host_part)) \<and> path_part \<noteq> [] \<and>
     looks_like_remote_host host_part"

definition grpc_rest :: "string \<Rightarrow> (bool \<times> string) option" where
  "grpc_rest s =
     (case strip_prefix ''grpc://'' s of
        Some rest \<Rightarrow> Some (False, rest)
      | None \<Rightarrow>
          (case strip_prefix ''grpcs://'' s of
             Some rest \<Rightarrow> Some (True, rest)
           | None \<Rightarrow>
               (case strip_prefix ''http://'' s of
                  Some rest \<Rightarrow> Some (False, rest)
                | None \<Rightarrow> map_option (Pair True) (strip_prefix ''https://'' s))))"

definition parse_grpc_parts :: "string \<Rightarrow> (string \<times> string) option" where
  "parse_grpc_parts s =
     (case grpc_rest s of
        None \<Rightarrow> None
      | Some (is_tls, rest) \<Rightarrow>
          (let (host_port, db_path) =
             (case split_once (CHR ''/'') rest of Some (hp, path) \<Rightarrow> (hp, path) | None \<Rightarrow> (rest, []))
           in if host_port = [] then None
              else Some ((if is_tls then ''https'' else ''http'') @ ''://'' @ host_port,
                         dropWhile (\<lambda>c. c = CHR ''/'') db_path)))"

text \<open>\<open>find("]:")\<close>: the parts before and after the first occurrence.\<close>

fun split_bracket :: "string \<Rightarrow> (string \<times> string) option" where
  "split_bracket [] = None"
| "split_bracket (c # s) =
     (if c = CHR '']'' \<and> starts_with '':'' s then Some ([], tl s)
      else map_option (\<lambda>(a, b). (c # a, b)) (split_bracket s))"

text \<open>\<open>rfind(':')\<close>.\<close>

definition rsplit_colon :: "string \<Rightarrow> (string \<times> string) option" where
  "rsplit_colon s = map_option (\<lambda>(a, b). (rev b, rev a)) (split_once (CHR '':'') (rev s))"

definition bracketed :: "string \<Rightarrow> (string \<times> string) option" where
  "bracketed s =
     (case split_bracket s of
        Some (before, path) \<Rightarrow>
          if starts_with ''['' s \<and> tl before \<noteq> [] \<and> path \<noteq> [] then Some (tl before, path) else None
      | None \<Rightarrow> None)"

definition parse_remote_parts :: "string \<Rightarrow> (string \<times> string) option" where
  "parse_remote_parts s =
     (case bracketed s of
        Some r \<Rightarrow> Some r
      | None \<Rightarrow>
          (case (case rsplit_colon s of
                   Some (h, p) \<Rightarrow>
                     if is_ip_addr h \<and> is_remote_candidate h p then Some (h, p) else None
                 | None \<Rightarrow> None) of
             Some r \<Rightarrow> Some r
           | None \<Rightarrow>
               (case split_once (CHR '':'') s of
                  Some (h, p) \<Rightarrow> if is_remote_candidate h p then Some (h, p) else None
                | None \<Rightarrow> None)))"

definition parse_endpoint :: "string \<Rightarrow> endpoint" where
  "parse_endpoint s =
     (case parse_grpc_parts s of
        Some (url, database) \<Rightarrow> Grpc url database
      | None \<Rightarrow>
          (case parse_remote_parts s of
             Some (user_host, path) \<Rightarrow> Remote user_host path
           | None \<Rightarrow> Local s))"

fun is_remote :: "endpoint \<Rightarrow> bool" where
  "is_remote (Local _) = False"
| "is_remote (Remote _ _) = True"
| "is_remote (Grpc _ _) = True"

fun is_grpc :: "endpoint \<Rightarrow> bool" where
  "is_grpc (Grpc _ _) = True"
| "is_grpc _ = False"

section \<open>Facts\<close>

lemma split_once_Some:
  "split_once d s = Some (a, b) \<longleftrightarrow> s = a @ d # b \<and> d \<notin> set a"
proof (induction s arbitrary: a)
  case (Cons c s)
  show ?case
  proof (cases "c = d")
    case False
    then show ?thesis using Cons.IH by (cases a) auto
  qed (cases a; auto)
qed simp

lemma split_once_None: "split_once d s = None \<longleftrightarrow> d \<notin> set s"
  by (induction s) auto

lemma parsed_local: "parse_endpoint s = Local p \<Longrightarrow> p = s"
  by (auto simp: parse_endpoint_def split: option.splits)

lemma parsed_grpc:
  assumes "parse_endpoint s = Grpc url db"
  shows "\<exists>tls hp. url = (if tls then ''https://'' else ''http://'') @ hp \<and> hp \<noteq> [] \<and>
    CHR ''/'' \<notin> set hp \<and> \<not> starts_with ''/'' db"
proof -
  from assms have "parse_grpc_parts s = Some (url, db)"
    by (auto simp: parse_endpoint_def split: option.splits)
  then obtain tls rest where r: "grpc_rest s = Some (tls, rest)"
    by (auto simp: parse_grpc_parts_def split: option.splits)
  have d: "\<not> starts_with ''/'' (dropWhile (\<lambda>c. c = CHR ''/'') x)" for x
    by (induction x) (auto simp: starts_with_def)
  let ?scheme = "(if tls then ''https'' else ''http'') @ ''://''"
  show ?thesis
  proof (cases "split_once (CHR ''/'') rest")
    case None
    with \<open>parse_grpc_parts s = Some (url, db)\<close> r have "rest \<noteq> []" "url = ?scheme @ rest" "db = []"
      by (simp_all add: parse_grpc_parts_def split: if_splits)
    moreover have "CHR ''/'' \<notin> set rest" using None by (simp add: split_once_None)
    ultimately show ?thesis by (intro exI [of _ tls] exI [of _ rest]) (simp add: starts_with_def)
  next
    case (Some p)
    obtain hp path where p: "p = (hp, path)" by (cases p)
    with \<open>parse_grpc_parts s = Some (url, db)\<close> r Some
    have "hp \<noteq> []" "url = ?scheme @ hp" "db = dropWhile (\<lambda>c. c = CHR ''/'') path"
      by (simp_all add: parse_grpc_parts_def split: if_splits)
    moreover have "CHR ''/'' \<notin> set hp" using Some p by (simp add: split_once_Some)
    ultimately show ?thesis using d by (intro exI [of _ tls] exI [of _ hp]) simp
  qed
qed

lemma grpc_url_parses:
  assumes "hp \<noteq> []" and "CHR ''/'' \<notin> set hp" and "\<not> starts_with ''/'' db"
  shows "parse_endpoint ((if tls then ''https://'' else ''http://'') @ hp @ ''/'' @ db) =
    Grpc ((if tls then ''https://'' else ''http://'') @ hp) db"
proof -
  have "split_once (CHR ''/'') (hp @ CHR ''/'' # db) = Some (hp, db)"
    using assms(2) by (simp add: split_once_Some)
  moreover have "dropWhile (\<lambda>c. c = CHR ''/'') db = db" using assms(3) by (cases db) (auto simp: starts_with_def)
  ultimately show ?thesis
    using assms(1) by (simp add: parse_endpoint_def parse_grpc_parts_def grpc_rest_def strip_prefix_def)
qed

end
