(* ===== verification/Hash.thy ===== *)
theory Hash
  imports Prelude
begin

text \<open>
  Page and group hashing (\<open>src/src/hash.rs\<close>). The digest functions of the crates
  \<open>sha2\<close> and \<open>blake3\<close> are parameters, the record \<open>digests\<close>; an incremental hasher fed with
  several slices digests their concatenation, as both crates document. What the protocol
  relies on is collected in \<open>separates\<close>: on a given finite family of pages and on the
  hash lists computed from it, the digest has no collision.
\<close>

definition GROUP_SIZE :: u32 where
  "GROUP_SIZE = 64"

type_synonym page_hash = bytes

datatype hash_algorithm = Sha256V1 | Blake3V2

definition from_protocol_version :: "u32 \<Rightarrow> hash_algorithm option" where
  "from_protocol_version version =
     (if version = 1 then Some Sha256V1
      else if version = 2 then Some Blake3V2 else None)"

record digests =
  sha256 :: "bytes \<Rightarrow> bytes"
  blake3 :: "bytes \<Rightarrow> bytes"

definition hash_page_for :: "digests \<Rightarrow> bytes \<Rightarrow> hash_algorithm \<Rightarrow> page_hash" where
  "hash_page_for D data algorithm =
     (case algorithm of Sha256V1 \<Rightarrow> sha256 D data | Blake3V2 \<Rightarrow> blake3 D data)"

definition hash_page :: "digests \<Rightarrow> bytes \<Rightarrow> page_hash" where
  "hash_page D data = hash_page_for D data Blake3V2"

definition hash_group_for :: "digests \<Rightarrow> page_hash list \<Rightarrow> hash_algorithm \<Rightarrow> page_hash" where
  "hash_group_for D hashes algorithm =
     (case algorithm of
        Sha256V1 \<Rightarrow> sha256 D (concat hashes)
      | Blake3V2 \<Rightarrow> blake3 D (concat hashes))"

definition hash_group :: "digests \<Rightarrow> page_hash list \<Rightarrow> page_hash" where
  "hash_group D hashes = hash_group_for D hashes Blake3V2"

section \<open>Absence of collisions\<close>

text \<open>
  The named hypothesis on the digests, for the pairs of pages and the pairs of groups of pages
  that a synchronisation compares: equal page hashes come from equal pages, and equal group
  hashes from equal groups. It speaks of finitely many pairs, as a digest of 32 bytes can only
  be free of collisions on few inputs.
\<close>

definition separates ::
  "digests \<Rightarrow> hash_algorithm \<Rightarrow> (bytes \<times> bytes) set \<Rightarrow> (bytes list \<times> bytes list) set \<Rightarrow> bool" where
  "separates D algorithm pages groups \<longleftrightarrow>
     (\<forall>(p, q) \<in> pages. hash_page_for D p algorithm = hash_page_for D q algorithm \<longrightarrow> p = q) \<and>
     (\<forall>(ps, qs) \<in> groups.
        hash_group_for D (map (\<lambda>p. hash_page_for D p algorithm) ps) algorithm =
        hash_group_for D (map (\<lambda>p. hash_page_for D p algorithm) qs) algorithm \<longrightarrow> ps = qs)"

lemma separates_page:
  "separates D alg P G \<Longrightarrow> (p, q) \<in> P \<Longrightarrow>
   hash_page_for D p alg = hash_page_for D q alg \<longleftrightarrow> p = q"
  by (auto simp: separates_def)

lemma separates_group:
  "separates D alg P G \<Longrightarrow> (ps, qs) \<in> G \<Longrightarrow>
   hash_group_for D (map (\<lambda>p. hash_page_for D p alg) ps) alg =
   hash_group_for D (map (\<lambda>p. hash_page_for D p alg) qs) alg \<longleftrightarrow> ps = qs"
  by (auto simp: separates_def)

lemma negotiated_algorithm:
  "v \<noteq> 0 \<Longrightarrow> \<exists>alg. from_protocol_version (min v 2) = Some alg"
  by (auto simp: from_protocol_version_def min_def word_le_nat_alt unat_eq_0 [symmetric]
      word_unat_eq_iff)

end
