(* ===== verification/Messages.thy ===== *)
theory Messages
  imports Hash Rust_Text
begin

text \<open>
  Wire messages and their length-prefixed framing (\<open>src/src/protocol/messages.rs\<close>).
  The payload codec is the crate \<open>bincode\<close>, a parameter of \<open>encode\<close> and \<open>decode\<close>: the
  record \<open>bincode\<close> holds its two entry points, and \<open>bincode_roundtrip\<close> is what the code
  relies on (decoding an encoded payload gives the message back).
\<close>

definition PROTOCOL_VERSION :: u32 where
  "PROTOCOL_VERSION = 2"

definition MAX_MESSAGE_SIZE :: nat where
  "MAX_MESSAGE_SIZE = 256 * 1024 * 1024"

record page_data =
  pd_page_no :: u32
  pd_data :: bytes

datatype message =
    Hello u32 u32 u32
  | HelloAck u32 u32 u32
  | GroupHashes u32 "page_hash list"
  | GroupsNeedFine "u32 list"
  | PageHashes "u32 list" "page_hash list"
  | SendPages "page_data list"
  | PagesAck "u32 list"
  | Done
  | Error string

section \<open>Debug rendering\<close>

text \<open>The derived \<open>Debug\<close> text of a message, used in the explanations of protocol violations.\<close>

fun join_debug :: "string list \<Rightarrow> string" where
  "join_debug [] = ''''"
| "join_debug [x] = x"
| "join_debug (x # y # xs) = x @ '', '' @ join_debug (y # xs)"

definition debug_list :: "('a \<Rightarrow> string) \<Rightarrow> 'a list \<Rightarrow> string" where
  "debug_list f xs = ''['' @ join_debug (map f xs) @ '']''"

definition debug_page :: "page_data \<Rightarrow> string" where
  "debug_page p = ''PageData { page_no: '' @ show_word (pd_page_no p) @
     '', data: '' @ debug_list show_word (pd_data p) @ '' }''"

fun debug_message :: "message \<Rightarrow> string" where
  "debug_message (Hello v ps pc) = ''Hello { version: '' @ show_word v @
     '', page_size: '' @ show_word ps @ '', page_count: '' @ show_word pc @ '' }''"
| "debug_message (HelloAck v ps pc) = ''HelloAck { version: '' @ show_word v @
     '', page_size: '' @ show_word ps @ '', page_count: '' @ show_word pc @ '' }''"
| "debug_message (GroupHashes g hs) = ''GroupHashes { first_group: '' @ show_word g @
     '', hashes: '' @ debug_list (debug_list show_word) hs @ '' }''"
| "debug_message (GroupsNeedFine gs) =
     ''GroupsNeedFine { group_indices: '' @ debug_list show_word gs @ '' }''"
| "debug_message (PageHashes ns hs) = ''PageHashes { page_nos: '' @ debug_list show_word ns @
     '', hashes: '' @ debug_list (debug_list show_word) hs @ '' }''"
| "debug_message (SendPages ps) = ''SendPages { pages: '' @ debug_list debug_page ps @ '' }''"
| "debug_message (PagesAck ns) = ''PagesAck { page_nos: '' @ debug_list show_word ns @ '' }''"
| "debug_message Done = ''Done''"
| "debug_message (Error m) = ''Error { message: '' @ debug_str m @ '' }''"

section \<open>Framing\<close>

text \<open>\<open>u32::to_le_bytes\<close> and \<open>u32::from_le_bytes\<close>.\<close>

definition to_le_bytes :: "u32 \<Rightarrow> bytes" where
  "to_le_bytes w = map (\<lambda>i. ucast (drop_bit (8 * i) w)) [0, 1, 2, 3]"

definition from_le_bytes :: "bytes \<Rightarrow> nat" where
  "from_le_bytes bs = foldr (\<lambda>b acc. unat b + 256 * acc) bs 0"

record bincode =
  encode_to_vec :: "message \<Rightarrow> string + bytes"
  decode_from_slice :: "bytes \<Rightarrow> string + (message \<times> nat)"

definition encode :: "bincode \<Rightarrow> message \<Rightarrow> bytes res" where
  "encode B msg =
     (case encode_to_vec B msg of
        Inl e \<Rightarrow> Inl (Codec e)
      | Inr payload \<Rightarrow> Inr (to_le_bytes (of_nat (length payload)) @ payload))"

definition decode :: "bincode \<Rightarrow> bytes \<Rightarrow> (message \<times> nat) res" where
  "decode B buf =
     (if length buf < 4 then Inl (Codec ''buffer too short for length prefix'')
      else
        let len = from_le_bytes (take 4 buf) in
        if len > MAX_MESSAGE_SIZE then
          Inl (Codec (''message frame exceeds max size: '' @ show_nat len @ '' > '' @
            show_nat MAX_MESSAGE_SIZE))
        else if length buf < 4 + len then
          Inl (Codec (''buffer has '' @ show_nat (length buf - 4) @ '' bytes but expected '' @
            show_nat len @ '' payload bytes''))
        else
          (case decode_from_slice B (take len (drop 4 buf)) of
             Inl e \<Rightarrow> Inl (Codec e)
           | Inr (msg, _) \<Rightarrow> Inr (msg, 4 + len)))"

text \<open>What the framing relies on of \<open>bincode\<close>: an encoded payload decodes to its message.\<close>

definition bincode_roundtrip :: "bincode \<Rightarrow> bool" where
  "bincode_roundtrip B \<longleftrightarrow>
     (\<forall>msg payload. encode_to_vec B msg = Inr payload \<longrightarrow>
        (\<exists>n. decode_from_slice B payload = Inr (msg, n)))"

lemma length_to_le_bytes [simp]: "length (to_le_bytes w) = 4"
  by (simp add: to_le_bytes_def)

lemma from_to_le_bytes: "from_le_bytes (to_le_bytes w) = unat w"
proof -
  have b: "unat (ucast (drop_bit k w) :: u8) = unat w div 2 ^ k mod 256" for k
    by (simp add: unsigned_ucast_eq unsigned_drop_bit_eq take_bit_eq_mod)
       (simp add: drop_bit_eq_div unat_u32_bound)
  have digit: "n div k mod 256 + 256 * (n div (k * 256)) = n div k" for n k :: nat
    using mod_mult_div_eq [of "n div k" 256] by (simp add: div_mult2_eq)
  have d3: "unat w div 65536 mod 256 + 256 * (unat w div 16777216) = unat w div 65536"
    using digit [of "unat w" 65536] by simp
  have d2: "unat w div 256 mod 256 + 256 * (unat w div 65536) = unat w div 256"
    using digit [of "unat w" 256] by simp
  have d1: "unat w mod 256 + 256 * (unat w div 256) = unat w" by simp
  have top: "unat w div 16777216 mod 256 = unat w div 16777216"
    using unat_u32_bound [of w] by (simp add: less_mult_imp_div_less)
  have "from_le_bytes (to_le_bytes w) =
      unat w mod 256 + 256 * (unat w div 256 mod 256 + 256 *
        (unat w div 65536 mod 256 + 256 * (unat w div 16777216 mod 256)))"
    using b [of 0] b [of 8] b [of 16] b [of 24]
    by (simp add: from_le_bytes_def to_le_bytes_def)
  then show ?thesis by (simp only: top d3 d2 d1)
qed

lemma from_le_bytes_bound: "length bs = 4 \<Longrightarrow> from_le_bytes bs < 4294967296"
proof -
  assume "length bs = 4"
  then obtain a b c d where bs: "bs = [a, b, c, d]"
    by (auto simp: numeral_eq_Suc length_Suc_conv)
  have "unat x < 256" for x :: u8 using unsigned_less [of x] by simp
  from this [of a] this [of b] this [of c] this [of d] show ?thesis
    by (simp add: bs from_le_bytes_def)
qed

end
