(* ===== verification/Tuning.thy ===== *)
theory Tuning
  imports Messages Rust_Text
begin

text \<open>
  Runtime tuning (\<open>SyncTuning\<close> in \<open>src/src/lib.rs\<close>) and the choice between the parallel and
  the serial form of a computation (\<open>src/src/protocol/mod.rs\<close>). The thread pool is the crate
  \<open>rayon\<close>: the record \<open>rayon\<close> holds whether a pool can be built and the parallel iterator
  chains at the element types the sources use them with. What the code relies on is
  \<open>rayon_ordered\<close>: \<open>collect\<close> yields the items in the order of the serial iterator, as the
  crate documents. A closure that panics is \<open>None\<close>, and so is the whole computation.
\<close>

section \<open>SyncTuning\<close>

record sync_tuning =
  max_hash_threads :: "nat option"
  parallel_min_pages :: u32
  hash_chunk_groups :: u32

definition default_tuning :: sync_tuning where
  "default_tuning =
     \<lparr>max_hash_threads = None, parallel_min_pages = 4096, hash_chunk_groups = 16\<rparr>"

definition positive :: "'a::zero option \<Rightarrow> 'a option" where
  "positive v = (case v of Some x \<Rightarrow> if x \<noteq> 0 then Some x else None | None \<Rightarrow> None)"

text \<open>\<open>env\<close> gives the value of an environment variable, \<open>None\<close> when it is absent or not UTF-8.\<close>

definition from_env :: "(string \<Rightarrow> string option) \<Rightarrow> sync_tuning" where
  "from_env env =
     \<lparr>max_hash_threads =
        (case positive (Option.bind (env ''RSQLITE_RSYNC_MAX_HASH_THREADS'')
                (parse_uint 18446744073709551615)) of
           Some v \<Rightarrow> Some v | None \<Rightarrow> max_hash_threads default_tuning),
      parallel_min_pages =
        (case positive (Option.bind (env ''RSQLITE_RSYNC_PARALLEL_MIN_PAGES'') parse_u32) of
           Some v \<Rightarrow> v | None \<Rightarrow> parallel_min_pages default_tuning),
      hash_chunk_groups =
        (case positive (Option.bind (env ''RSQLITE_RSYNC_HASH_CHUNK_GROUPS'') parse_u32) of
           Some v \<Rightarrow> v | None \<Rightarrow> hash_chunk_groups default_tuning)\<rparr>"

definition should_parallelize :: "sync_tuning \<Rightarrow> u32 \<Rightarrow> bool" where
  "should_parallelize t pages \<longleftrightarrow> pages \<ge> parallel_min_pages t"

section \<open>Parallel or serial\<close>

record rayon =
  build_pool :: "nat \<Rightarrow> bool"
  par_groups :: "(nat \<times> page_hash \<Rightarrow> u32 option option) \<Rightarrow> (nat \<times> page_hash) list \<Rightarrow>
    u32 list option"
  par_pages :: "(nat \<Rightarrow> page_data option option) \<Rightarrow> nat list \<Rightarrow> page_data list option"
  par_hashes :: "(nat \<Rightarrow> page_hash option) \<Rightarrow> nat list \<Rightarrow> page_hash list option"

definition rayon_ordered :: "rayon \<Rightarrow> bool" where
  "rayon_ordered R \<longleftrightarrow>
     (\<forall>f xs. par_groups R f xs = filter_map_p f xs) \<and>
     (\<forall>f xs. par_pages R f xs = filter_map_p f xs) \<and>
     (\<forall>f xs. par_hashes R f xs = those (map f xs))"

text \<open>In a pool of its own the closure runs on a blocking task; a panic there is passed on.\<close>

definition with_configured_pool ::
  "rayon \<Rightarrow> sync_tuning \<Rightarrow> (unit \<Rightarrow> 'a option) \<Rightarrow> 'a option" where
  "with_configured_pool R t f =
     (case max_hash_threads t of
        Some threads \<Rightarrow>
          if threads > 0 \<and> build_pool R threads
          then (case f () of Some v \<Rightarrow> Some v | None \<Rightarrow> None)
          else f ()
      | None \<Rightarrow> f ())"

definition compute_with_parallelism ::
  "rayon \<Rightarrow> sync_tuning \<Rightarrow> u32 \<Rightarrow> (unit \<Rightarrow> 'a list option) \<Rightarrow> (unit \<Rightarrow> 'a list option) \<Rightarrow>
     'a list option" where
  "compute_with_parallelism R t item_count parallel_fn serial_fn =
     (if should_parallelize t item_count then with_configured_pool R t parallel_fn
      else serial_fn ())"

text \<open>\<open>(0..n).step_by(k)\<close> for a positive step.\<close>

definition step_by :: "nat \<Rightarrow> nat \<Rightarrow> nat list" where
  "step_by n k = map (\<lambda>i. i * k) [0 ..< (n + k - 1) div k]"

definition div_ceil :: "u32 \<Rightarrow> u32 \<Rightarrow> u32" where
  "div_ceil a b = (if a mod b = 0 then a div b else a div b + 1)"

text \<open>The ranges \<open>a..b\<close> and \<open>a..=b\<close>.\<close>

definition range_excl :: "u32 \<Rightarrow> u32 \<Rightarrow> u32 list" where
  "range_excl a b = map of_nat [unat a ..< unat b]"

definition range_incl :: "u32 \<Rightarrow> u32 \<Rightarrow> u32 list" where
  "range_incl a b = map of_nat [unat a ..< Suc (unat b)]"

section \<open>The choice does not matter\<close>

lemma with_configured_pool_value [simp]: "with_configured_pool R t f = f ()"
  by (simp add: with_configured_pool_def split: option.splits)

lemma compute_same:
  "parallel_fn () = v \<Longrightarrow> serial_fn () = v \<Longrightarrow>
   compute_with_parallelism R t n parallel_fn serial_fn = v"
  by (simp add: compute_with_parallelism_def)

lemma from_env_bounds:
  "hash_chunk_groups (from_env env) \<noteq> 0" "parallel_min_pages (from_env env) \<noteq> 0"
  by (auto simp: from_env_def positive_def default_tuning_def split: option.splits if_splits)

section \<open>Chunked processing\<close>

text \<open>Cutting a list into chunks of \<open>k\<close> and concatenating gives the list back.\<close>

lemma concat_chunks_prefix:
  assumes "k > 0"
  shows "concat (map (\<lambda>i. take (min (i * k + k) n - i * k) (drop (i * k) xs)) [0 ..< m]) =
    take (min (m * k) n) xs"
proof (induction m)
  case (Suc m)
  have "take (min (m * k) n) xs @ take (min (m * k + k) n - m * k) (drop (m * k) xs) =
      take (min (Suc m * k) n) xs"
  proof (cases "m * k \<le> n")
    case True
    then have "min (Suc m * k) n = m * k + (min (m * k + k) n - m * k)" by simp
    then show ?thesis using True by (simp only: take_add) simp
  qed simp
  with Suc show ?case by simp
qed simp

lemma step_by_covers:
  fixes k n :: nat
  assumes "k > 0"
  shows "n \<le> (n + k - 1) div k * k"
  using assms dividend_less_div_times [of k "n + k - 1"] by simp

lemma concat_chunks:
  assumes "k > 0"
  shows "concat (map (\<lambda>s. take (min (s + k) n - s) (drop s xs)) (step_by n k)) = take n xs"
  using concat_chunks_prefix [OF assms, of n xs "(n + k - 1) div k"]
    step_by_covers [OF assms, of n]
  by (simp add: step_by_def comp_def)

lemma map_concat_chunks:
  "concat (map (\<lambda>s. map f (g s)) ss) = map f (concat (map g ss))"
  by (simp add: map_concat comp_def)

lemma filter_map_p_chunks:
  "map_option concat (those (map (\<lambda>s. filter_map_p f (g s)) ss)) =
   filter_map_p f (concat (map g ss))"
proof (induction ss)
  case (Cons s ss)
  from Cons.IH [symmetric] show ?case
    by (cases "filter_map_p f (g s)"; cases "those (map (\<lambda>s. filter_map_p f (g s)) ss)")
       (auto simp: filter_map_p_append)
qed simp

lemma those_map_chunks:
  "map_option concat (those (map (\<lambda>s. those (map f (g s))) ss)) =
   those (map f (concat (map g ss)))"
proof (induction ss)
  case (Cons s ss)
  from Cons.IH [symmetric] show ?case
    by (cases "those (map f (g s))"; cases "those (map (\<lambda>s. those (map f (g s))) ss)")
       (auto simp: those_append)
qed simp

section \<open>Ranges and groups in natural numbers\<close>

lemma map_unat_range_incl: "map unat (range_incl a b) = [unat a ..< Suc (unat b)]"
proof -
  have "unat (of_nat i :: u32) = i" if "i \<le> unat b" for i
    using that unat_u32_bound [of b] by (simp add: unat_u32_of_nat)
  then show ?thesis unfolding range_incl_def map_map by (intro map_idI) auto
qed

lemma set_range_incl: "p \<in> set (range_incl a b) \<longleftrightarrow> unat a \<le> unat p \<and> unat p \<le> unat b"
proof -
  have "p \<in> set (range_incl a b) \<longleftrightarrow> unat p \<in> set (map unat (range_incl a b))"
    by (auto dest: word_unat_eq_iff [THEN iffD2])
  also have "\<dots> \<longleftrightarrow> unat a \<le> unat p \<and> unat p \<le> unat b"
    by (simp only: map_unat_range_incl) auto
  finally show ?thesis .
qed

lemma unat_max_word2 [simp]: "unat (max a b :: 'a::len word) = max (unat a) (unat b)"
  by (simp add: max_def word_le_nat_alt)

lemma div_64_up:
  assumes "(m :: nat) mod 64 \<noteq> 0"
  shows "(m + 63) div 64 = m div 64 + 1"
proof -
  define q r where qr: "q = m div 64" "r = m mod 64"
  have m: "m = 64 * q + r" and r: "0 < r" "r < 64" using assms by (simp_all add: qr)
  have "(m + 63) div 64 = Suc q" by (rule div_nat_eqI) (use m r in auto)
  then show ?thesis by (simp add: qr)
qed

lemma unat_div_ceil_group:
  "unat (div_ceil n GROUP_SIZE) = (unat n + 63) div 64"
proof -
  have m: "unat (n mod 64) = unat n mod 64" and d: "unat (n div 64) = unat n div 64"
    by (simp_all add: unat_mod unat_div)
  have "unat n div 64 + 1 < 4294967296" using unat_u32_bound [of n] by simp
  then have d1: "unat (n div 64 + 1) = unat n div 64 + 1"
    by (simp add: unat_u32_add d)
  show ?thesis
  proof (cases "unat n mod 64 = 0")
    case True
    then have "n mod 64 = 0" using m by (simp add: word_unat_eq_iff)
    then show ?thesis using True by (auto simp: div_ceil_def GROUP_SIZE_def d)
  next
    case False
    then have "unat (n mod 64) \<noteq> 0" unfolding m .
    then have "n mod 64 \<noteq> 0" by (rule contrapos_nn) simp
    moreover have "(unat n + 63) div 64 = unat n div 64 + 1" using False by (rule div_64_up)
    ultimately show ?thesis by (simp add: div_ceil_def GROUP_SIZE_def d1)
  qed
qed

text \<open>Group \<open>g\<close> holds the pages \<open>64 g + 1\<close> to \<open>64 g + 64\<close>; no wrap-around below \<open>2^26 - 1\<close> groups.\<close>

lemma group_first_page:
  "unat g < 67108863 \<Longrightarrow> unat (g * GROUP_SIZE + 1) = 64 * unat g + 1"
  by (simp add: GROUP_SIZE_def unat_u32_mult unat_u32_add)

lemma group_last_page:
  "unat g < 67108863 \<Longrightarrow> unat ((g + 1) * GROUP_SIZE) = 64 * unat g + 64"
  by (simp add: GROUP_SIZE_def unat_u32_mult unat_u32_add)

lemmas group_bounds = group_first_page group_last_page

lemma enumerate_drop_take:
  "List.enumerate s (take k (drop s xs)) = take k (drop s (List.enumerate 0 xs))"
  by (cases "s \<le> length xs"; cases "k \<le> length xs - s")
     (simp_all add: enumerate_eq_zip take_zip drop_zip)

end
