(* ===== verification/Process.thy ===== *)
theory Process
  imports Main
begin

text \<open>
  The \<open>Transport\<close> interface seen from a protocol handler. A handler is an \<open>async fn\<close> whose
  only interaction with its peer is \<open>transport.send(..).await\<close> and \<open>transport.recv().await\<close>;
  its model is the tree of what it does: it returns, it sends a message and goes on with the
  result of the send, or it receives and goes on with what arrived (a message, or the
  transport's error). Two handlers joined by two FIFO channels form a system with
  interleaving steps, as under \<open>tokio::join!\<close>. The system is shown to have the diamond
  property, so that every schedule ends in the same state (\<open>random_descent\<close>).
\<close>

datatype ('m, 'e, 'r) proc =
    Ret 'r
  | Send 'm "'e option \<Rightarrow> ('m, 'e, 'r) proc"
  | Recv "'e + 'm \<Rightarrow> ('m, 'e, 'r) proc"

text \<open>The calls \<open>transport.send(m).await?\<close> and \<open>transport.recv().await?\<close>: an error ends the handler.\<close>

definition send_or :: "('e \<Rightarrow> 'r) \<Rightarrow> 'm \<Rightarrow> ('m, 'e, 'r) proc \<Rightarrow> ('m, 'e, 'r) proc" where
  "send_or fail m k = Send m (\<lambda>r. case r of Some e \<Rightarrow> Ret (fail e) | None \<Rightarrow> k)"

definition recv_or :: "('e \<Rightarrow> 'r) \<Rightarrow> ('m \<Rightarrow> ('m, 'e, 'r) proc) \<Rightarrow> ('m, 'e, 'r) proc" where
  "recv_or fail k = Recv (\<lambda>r. case r of Inl e \<Rightarrow> Ret (fail e) | Inr m \<Rightarrow> k m)"

section \<open>A handler against a scripted peer\<close>

text \<open>
  \<open>drive_io p outs ins\<close> runs \<open>p\<close> on a transport whose sends answer \<open>outs\<close> and whose receives yield
  \<open>ins\<close>, each in order: the messages sent, and the result (\<open>None\<close> while \<open>p\<close> still waits where
  a script has ended).
\<close>

primrec drive_io ::
  "('m, 'e, 'r) proc \<Rightarrow> 'e option list \<Rightarrow> ('e + 'm) list \<Rightarrow> 'm list \<times> 'r option" where
  "drive_io (Ret r) = (\<lambda>outs ins. ([], Some r))"
| "drive_io (Send m k) = (\<lambda>outs ins. case outs of
     [] \<Rightarrow> ([], None)
   | x # xs \<Rightarrow> (case drive_io (k x) xs ins of (sent, r) \<Rightarrow> (m # sent, r)))"
| "drive_io (Recv k) = (\<lambda>outs ins. case ins of
     [] \<Rightarrow> ([], None) | i # is \<Rightarrow> drive_io (k i) outs is)"

text \<open>Every result a handler can have, whatever the transport and the peer do.\<close>

primrec results :: "('m, 'e, 'r) proc \<Rightarrow> 'r set" where
  "results (Ret r) = {r}"
| "results (Send m k) = (\<Union>x. results (k x))"
| "results (Recv k) = (\<Union>x. results (k x))"

lemma results_send_or [simp]: "results (send_or f m k) = range f \<union> results k"
proof -
  have "results (send_or f m k) = (\<Union>x. results (case x of Some e \<Rightarrow> Ret (f e) | None \<Rightarrow> k))"
    by (simp add: send_or_def)
  also have "\<dots> = range f \<union> results k"
    by (simp only: UNIV_option_conv) auto
  finally show ?thesis .
qed

lemma results_recv_or [simp]: "results (recv_or f h) = range f \<union> (\<Union>m. results (h m))"
proof -
  have "results (recv_or f h) = (\<Union>x. results (case x of Inl e \<Rightarrow> Ret (f e) | Inr m \<Rightarrow> h m))"
    by (simp add: recv_or_def)
  also have "\<dots> = range f \<union> (\<Union>m. results (h m))"
    by (simp only: UNIV_sum) auto
  finally show ?thesis .
qed

lemma drive_io_result: "drive_io p outs ins = (sent, Some r) \<Longrightarrow> r \<in> results p"
  by (induction p arbitrary: outs ins sent) (fastforce split: list.splits prod.splits)+

section \<open>Two handlers and two channels\<close>

record ('m, 'e, 'a, 'b) system =
  left :: "('m, 'e, 'a) proc"
  right :: "('m, 'e, 'b) proc"
  l2r :: "'m list"
  r2l :: "'m list"

definition left_move :: "('m, 'e, 'a, 'b) system \<Rightarrow> ('m, 'e, 'a, 'b) system option" where
  "left_move s =
     (case left s of
        Ret _ \<Rightarrow> None
      | Send m k \<Rightarrow> Some (s\<lparr>left := k None, l2r := l2r s @ [m]\<rparr>)
      | Recv k \<Rightarrow>
          (case r2l s of [] \<Rightarrow> None | m # q \<Rightarrow> Some (s\<lparr>left := k (Inr m), r2l := q\<rparr>)))"

definition right_move :: "('m, 'e, 'a, 'b) system \<Rightarrow> ('m, 'e, 'a, 'b) system option" where
  "right_move s =
     (case right s of
        Ret _ \<Rightarrow> None
      | Send m k \<Rightarrow> Some (s\<lparr>right := k None, r2l := r2l s @ [m]\<rparr>)
      | Recv k \<Rightarrow>
          (case l2r s of [] \<Rightarrow> None | m # q \<Rightarrow> Some (s\<lparr>right := k (Inr m), l2r := q\<rparr>)))"

inductive sys_step :: "('m, 'e, 'a, 'b) system \<Rightarrow> ('m, 'e, 'a, 'b) system \<Rightarrow> bool" where
  left_step: "left_move s = Some t \<Longrightarrow> sys_step s t"
| right_step: "right_move s = Some t \<Longrightarrow> sys_step s t"

inductive_simps sys_step_iff: "sys_step s t"

lemma moves_commute:
  assumes "left_move s = Some a" and "right_move s = Some b"
  shows "\<exists>c. right_move a = Some c \<and> left_move b = Some c"
  using assms by (auto simp: left_move_def right_move_def split: proc.splits list.splits)

lemma sys_step_diamond:
  assumes "sys_step s a" and "sys_step s b"
  shows "a = b \<or> (\<exists>c. sys_step a c \<and> sys_step b c)"
proof -
  consider "left_move s = Some a" "right_move s = Some b"
    | "left_move s = Some b" "right_move s = Some a" | "a = b"
    using assms by (auto simp: sys_step_iff)
  then show ?thesis
    by cases (use moves_commute sys_step.intros in blast)+
qed

section \<open>Every run ends\<close>

definition proc_sub :: "(('m, 'e, 'r) proc \<times> ('m, 'e, 'r) proc) set" where
  "proc_sub = {(p, q). (\<exists>m k x. q = Send m k \<and> p = k x) \<or> (\<exists>k x. q = Recv k \<and> p = k x)}"

lemma wf_proc_sub: "wf proc_sub"
proof (rule wfUNIVI)
  fix P :: "('m, 'e, 'r) proc \<Rightarrow> bool" and p
  assume step: "\<forall>q. (\<forall>p. (p, q) \<in> proc_sub \<longrightarrow> P p) \<longrightarrow> P q"
  show "P p"
    by (induction p) (rule step [rule_format], auto simp: proc_sub_def)+
qed

abbreviation sys_order :: "(('m, 'e, 'a, 'b) system \<times> ('m, 'e, 'a, 'b) system) set" where
  "sys_order \<equiv> inv_image (proc_sub <*lex*> proc_sub) (\<lambda>s. (left s, right s))"

lemma wf_sys_order: "wf sys_order"
  by (intro wf_inv_image wf_lex_prod wf_proc_sub)

lemma left_move_order: "left_move s = Some t \<Longrightarrow> (t, s) \<in> sys_order"
  by (auto simp: left_move_def proc_sub_def split: proc.splits list.splits)

lemma right_move_order: "right_move s = Some t \<Longrightarrow> (t, s) \<in> sys_order"
  by (auto simp: right_move_def proc_sub_def split: proc.splits list.splits)

lemma sys_step_order: "sys_step s t \<Longrightarrow> (t, s) \<in> sys_order"
  unfolding sys_step_iff by (elim disjE) (rule left_move_order right_move_order, assumption)+

lemma no_infinite_run: "\<not> (\<forall>n. sys_step (run n) (run (Suc n)))"
proof
  assume "\<forall>n. sys_step (run n) (run (Suc n))"
  then have "\<And>n. (run (Suc n), run n) \<in> sys_order" by (intro sys_step_order) blast
  with wf_sys_order show False unfolding wf_iff_no_infinite_down_chain by blast
qed

text \<open>One schedule, as a total function: the left handler runs until it waits or returns.\<close>

function run_sys :: "('m, 'e, 'a, 'b) system \<Rightarrow> ('m, 'e, 'a, 'b) system" where
  "run_sys s =
     (case left_move s of
        Some t \<Rightarrow> run_sys t
      | None \<Rightarrow> (case right_move s of Some t \<Rightarrow> run_sys t | None \<Rightarrow> s))"
  by pat_completeness auto
termination
  by (relation sys_order)
     (simp_all add: wf_sys_order left_move_order right_move_order del: in_inv_image)

declare run_sys.simps [simp del]

lemma run_sys_left: "left_move s = Some t \<Longrightarrow> run_sys s = run_sys t"
  by (subst run_sys.simps) simp

lemma run_sys_right:
  "left_move s = None \<Longrightarrow> right_move s = Some t \<Longrightarrow> run_sys s = run_sys t"
  by (subst run_sys.simps) simp

lemma run_sys_end: "left_move s = None \<Longrightarrow> right_move s = None \<Longrightarrow> run_sys s = s"
  by (subst run_sys.simps) simp

lemma run_sys_ends: "sys_step\<^sup>*\<^sup>* s (run_sys s) \<and> \<not> sys_step (run_sys s) t"
proof (induction s rule: run_sys.induct)
  case (1 s)
  consider (l) u where "left_move s = Some u"
    | (r) u where "left_move s = None" "right_move s = Some u"
    | (n) "left_move s = None" "right_move s = None"
    by (meson not_Some_eq)
  then show ?case
  proof cases
    case l
    with 1(2) [OF l] have "sys_step s u" and "sys_step\<^sup>*\<^sup>* u (run_sys u)"
      by (auto intro: left_step)
    then have "sys_step\<^sup>*\<^sup>* s (run_sys u)" by (rule converse_rtranclp_into_rtranclp)
    with 1(2) [OF l] show ?thesis by (simp add: run_sys_left [OF l])
  next
    case r
    with 1(1) [OF r] have "sys_step s u" and "sys_step\<^sup>*\<^sup>* u (run_sys u)"
      by (auto intro: right_step)
    then have "sys_step\<^sup>*\<^sup>* s (run_sys u)" by (rule converse_rtranclp_into_rtranclp)
    with 1(1) [OF r] show ?thesis by (simp add: run_sys_right [OF r])
  next
    case n
    then show ?thesis by (simp add: run_sys_end sys_step_iff)
  qed
qed

lemmas run_sys_reached = run_sys_ends [THEN conjunct1]
  and run_sys_stops = run_sys_ends [THEN conjunct2]

section \<open>Relations in which every run to a normal form has the same end\<close>

locale random_descent =
  fixes step :: "'s \<Rightarrow> 's \<Rightarrow> bool"
  assumes diamond: "step s a \<Longrightarrow> step s b \<Longrightarrow> a = b \<or> (\<exists>c. step a c \<and> step b c)"
begin

lemma descend:
  assumes "(step ^^ n) s t" and "\<And>u. \<not> step t u" and "step s a"
  shows "\<exists>m. n = Suc m \<and> (step ^^ m) a t"
  using assms
proof (induction n arbitrary: s a)
  case 0
  then show ?case by auto
next
  case (Suc n)
  from Suc.prems(1) obtain b where b: "step s b" "(step ^^ n) b t"
    by (meson relpowp_Suc_E2)
  from diamond [OF Suc.prems(3) b(1)] show ?case
  proof
    assume "a = b"
    with b show ?thesis by blast
  next
    assume "\<exists>c. step a c \<and> step b c"
    then obtain c where c: "step a c" "step b c" by blast
    from Suc.IH [OF b(2) Suc.prems(2) c(2)] obtain m where "n = Suc m" "(step ^^ m) c t"
      by blast
    with c(1) have "(step ^^ n) a t" by (metis relpowp_Suc_I2)
    then show ?thesis by blast
  qed
qed

lemma all_runs_end:
  assumes "(step ^^ n) s t" and "\<And>u. \<not> step t u" and "(step ^^ k) s a"
  shows "k \<le> n \<and> (step ^^ (n - k)) a t"
  using assms(3)
proof (induction k arbitrary: a)
  case 0
  then show ?case using assms(1) by simp
next
  case (Suc k)
  then obtain b where "(step ^^ k) s b" "step b a" by (meson relpowp_Suc_E)
  with Suc.IH descend [OF _ assms(2), of "n - k" b a]
  obtain m where "k \<le> n" "n - k = Suc m" "(step ^^ m) a t" by blast
  moreover from this have "n - Suc k = m" and "Suc k \<le> n" by simp_all
  ultimately show ?case by simp
qed

lemma normal_form_unique:
  assumes "step\<^sup>*\<^sup>* s t" and "\<And>u. \<not> step t u" and "step\<^sup>*\<^sup>* s a"
  shows "step\<^sup>*\<^sup>* a t"
proof -
  obtain n k where "(step ^^ n) s t" "(step ^^ k) s a"
    using assms(1,3) by (meson rtranclp_imp_relpowp)
  with assms(2) have "(step ^^ (n - k)) a t" using all_runs_end by blast
  then show ?thesis by (rule relpowp_imp_rtranclp)
qed

end

interpretation sched: random_descent sys_step
  by unfold_locales (rule sys_step_diamond)

text \<open>Whatever the schedule, a run that cannot go on has ended where \<open>run_sys\<close> ends.\<close>

lemma every_schedule:
  assumes "sys_step\<^sup>*\<^sup>* s t" and "\<And>u. \<not> sys_step t u"
  shows "t = run_sys s"
proof -
  have "sys_step\<^sup>*\<^sup>* t (run_sys s)"
    by (rule sched.normal_form_unique [OF run_sys_reached run_sys_stops assms(1)])
  with assms(2) show ?thesis by (auto elim: converse_rtranclpE)
qed

lemma run_sys_after:
  assumes "sys_step\<^sup>*\<^sup>* s t"
  shows "run_sys t = run_sys s"
  by (rule every_schedule [OF rtranclp_trans [OF assms run_sys_reached] run_sys_stops])

section \<open>Exchanging one message over empty channels\<close>

abbreviation pair_of :: "('m, 'e, 'a) proc \<Rightarrow> ('m, 'e, 'b) proc \<Rightarrow> ('m, 'e, 'a, 'b) system" where
  "pair_of p q \<equiv> \<lparr>left = p, right = q, l2r = [], r2l = []\<rparr>"

named_theorems exchange \<open>one message passed between two handlers with empty channels\<close>

lemma left_to_right [exchange]:
  "run_sys (pair_of (send_or f m k) (recv_or g h)) = run_sys (pair_of k (h m))"
proof -
  let ?s = "pair_of (send_or f m k) (recv_or g h)"
  have "sys_step ?s (?s\<lparr>left := k, l2r := [m]\<rparr>)"
    by (rule left_step) (simp add: left_move_def send_or_def)
  moreover have "sys_step (?s\<lparr>left := k, l2r := [m]\<rparr>) (pair_of k (h m))"
    by (rule right_step) (simp add: right_move_def recv_or_def)
  ultimately have "sys_step\<^sup>*\<^sup>* ?s (pair_of k (h m))"
    by (meson converse_rtranclp_into_rtranclp r_into_rtranclp)
  then show ?thesis by (rule run_sys_after [symmetric])
qed

lemma right_to_left [exchange]:
  "run_sys (pair_of (recv_or f h) (send_or g m k)) = run_sys (pair_of (h m) k)"
proof -
  let ?s = "pair_of (recv_or f h) (send_or g m k)"
  have "sys_step ?s (?s\<lparr>right := k, r2l := [m]\<rparr>)"
    by (rule right_step) (simp add: right_move_def send_or_def)
  moreover have "sys_step (?s\<lparr>right := k, r2l := [m]\<rparr>) (pair_of (h m) k)"
    by (rule left_step) (simp add: left_move_def recv_or_def)
  ultimately have "sys_step\<^sup>*\<^sup>* ?s (pair_of (h m) k)"
    by (meson converse_rtranclp_into_rtranclp r_into_rtranclp)
  then show ?thesis by (rule run_sys_after [symmetric])
qed

lemma both_returned: "run_sys (pair_of (Ret a) (Ret b)) = pair_of (Ret a) (Ret b)"
  by (rule run_sys_end) (simp_all add: left_move_def right_move_def)

lemma waiting_end:
  "run_sys (pair_of (Ret a) (recv_or f h)) = pair_of (Ret a) (recv_or f h)"
  by (rule run_sys_end) (simp_all add: left_move_def right_move_def recv_or_def)

section \<open>Counting the steps\<close>

text \<open>All runs to the end are equally long; \<open>steps_left\<close> is their length.\<close>

function steps_left :: "('m, 'e, 'a, 'b) system \<Rightarrow> nat" where
  "steps_left s =
     (case left_move s of
        Some t \<Rightarrow> Suc (steps_left t)
      | None \<Rightarrow> (case right_move s of Some t \<Rightarrow> Suc (steps_left t) | None \<Rightarrow> 0))"
  by pat_completeness auto
termination
  by (relation sys_order)
     (simp_all add: wf_sys_order left_move_order right_move_order del: in_inv_image)

declare steps_left.simps [simp del]

lemma steps_left_reach: "(sys_step ^^ steps_left s) s (run_sys s)"
proof (induction s rule: steps_left.induct)
  case (1 s)
  consider (l) u where "left_move s = Some u"
    | (r) u where "left_move s = None" "right_move s = Some u"
    | (n) "left_move s = None" "right_move s = None"
    by (meson not_Some_eq)
  then show ?case
  proof cases
    case l
    then have "steps_left s = Suc (steps_left u)" by (subst steps_left.simps) simp
    with 1(2) [OF l] left_step [OF l] show ?thesis
      unfolding run_sys_left [OF l] by (metis relpowp_Suc_I2)
  next
    case r
    then have "steps_left s = Suc (steps_left u)" by (subst steps_left.simps) simp
    with 1(1) [OF r] right_step [OF r(2)] show ?thesis
      unfolding run_sys_right [OF r] by (metis relpowp_Suc_I2)
  next
    case n
    then have "steps_left s = 0" by (subst steps_left.simps) simp
    then show ?thesis using n by (simp add: run_sys_end)
  qed
qed

lemma steps_left_bound: "(sys_step ^^ n) s t \<Longrightarrow> n \<le> steps_left s"
  using sched.all_runs_end [OF steps_left_reach run_sys_stops] by blast

lemma steps_left_after:
  assumes "(sys_step ^^ n) s t"
  shows "steps_left s = n + steps_left t"
proof (rule antisym)
  have eq: "run_sys t = run_sys s" by (rule run_sys_after) (rule relpowp_imp_rtranclp [OF assms])
  from assms steps_left_reach [of t] have "(sys_step ^^ (n + steps_left t)) s (run_sys s)"
    unfolding relpowp_add eq by blast
  then show "n + steps_left t \<le> steps_left s" by (rule steps_left_bound)
  from \<open>(sys_step ^^ (n + steps_left t)) s (run_sys s)\<close> show "steps_left s \<le> n + steps_left t"
    using sched.all_runs_end [OF _ run_sys_stops steps_left_reach] by blast
qed

lemma steps_left_zero: "steps_left s = 0 \<longleftrightarrow> (\<forall>u. \<not> sys_step s u)"
  by (subst steps_left.simps) (auto simp: sys_step_iff split: option.split)

text \<open>A run with its length.\<close>

definition counted :: "('m, 'e, 'a, 'b) system \<Rightarrow> nat \<times> ('m, 'e, 'a, 'b) system" where
  "counted s = (steps_left s, run_sys s)"

definition later :: "nat \<Rightarrow> nat \<times> 's \<Rightarrow> nat \<times> 's" where
  "later n r = (n + fst r, snd r)"

lemma counted_after: "(sys_step ^^ n) s t \<Longrightarrow> counted s = later n (counted t)"
  by (simp add: counted_def later_def steps_left_after run_sys_after [OF relpowp_imp_rtranclp])

lemma snd_counted: "snd (counted s) = run_sys s" "snd (later n r) = snd r"
  by (simp_all add: counted_def later_def)

lemma counted_run: "counted s = later n (counted t) \<Longrightarrow> run_sys s = run_sys t"
  by (metis snd_counted)

lemma later_later [exchange]: "later n (later m r) = later (n + m) r"
  by (simp add: later_def)

lemma counted_left_to_right [exchange]:
  "counted (pair_of (send_or f m k) (recv_or g h)) = later 2 (counted (pair_of k (h m)))"
proof (rule counted_after)
  let ?s = "pair_of (send_or f m k) (recv_or g h)"
  have "sys_step ?s (?s\<lparr>left := k, l2r := [m]\<rparr>)" "sys_step (?s\<lparr>left := k, l2r := [m]\<rparr>) (pair_of k (h m))"
    by (auto simp: sys_step_iff left_move_def right_move_def send_or_def recv_or_def)
  then show "(sys_step ^^ 2) ?s (pair_of k (h m))" by (auto simp: numeral_2_eq_2)
qed

lemma counted_right_to_left [exchange]:
  "counted (pair_of (recv_or f h) (send_or g m k)) = later 2 (counted (pair_of (h m) k))"
proof (rule counted_after)
  let ?s = "pair_of (recv_or f h) (send_or g m k)"
  have "sys_step ?s (?s\<lparr>right := k, r2l := [m]\<rparr>)" "sys_step (?s\<lparr>right := k, r2l := [m]\<rparr>) (pair_of (h m) k)"
    by (auto simp: sys_step_iff left_move_def right_move_def send_or_def recv_or_def)
  then show "(sys_step ^^ 2) ?s (pair_of (h m) k)" by (auto simp: numeral_2_eq_2)
qed

lemma counted_returned: "counted (pair_of (Ret a) (Ret b)) = (0, pair_of (Ret a) (Ret b))"
  unfolding counted_def both_returned
  by (subst steps_left.simps) (simp add: left_move_def right_move_def)

end
