(* ===== verification/Db.thy ===== *)
theory Db
  imports Prelude
begin

text \<open>
  The SQLite wrapper and the snapshot (\<open>src/src/db.rs\<close>, \<open>src/src/snapshot.rs\<close>), as far as
  the sync protocol uses them. What the C library answers is a parameter, held by the
  connection: the result of each attempt of a \<open>PRAGMA\<close>, of \<open>sqlite3_serialize\<close> and of
  \<open>sqlite3_exec\<close>. The database file the connection reads and writes pages of directly is
  part of its state; a failing system call is reported by \<open>read_io\<close>, which otherwise gives the
  most bytes one \<open>read\<close> returns, and by \<open>write_io\<close>, which also says how many bytes reached the
  file before the failure.

  Shown: a page written is the page read back and no other page changes
  (\<open>page_store\<close> and its interpretation); a read-only connection never changes its file;
  the pragma loop ends within its retry budget.
\<close>

section \<open>Result codes\<close>

definition SQLITE_OK :: int where "SQLITE_OK = 0"
definition SQLITE_BUSY :: int where "SQLITE_BUSY = 5"
definition SQLITE_LOCKED :: int where "SQLITE_LOCKED = 6"
definition SQLITE_NOMEM :: int where "SQLITE_NOMEM = 7"
definition SQLITE_ROW :: int where "SQLITE_ROW = 100"
definition SQLITE_DONE :: int where "SQLITE_DONE = 101"

lemmas sqlite_codes = SQLITE_OK_def SQLITE_BUSY_def SQLITE_LOCKED_def SQLITE_NOMEM_def
  SQLITE_ROW_def SQLITE_DONE_def

text \<open>\<open>check\<close> on a live handle, whose current error text is \<open>errmsg\<close>.\<close>

definition check :: "string \<Rightarrow> int \<Rightarrow> unit res" where
  "check errmsg rc =
     (if rc = SQLITE_OK \<or> rc = SQLITE_DONE \<or> rc = SQLITE_ROW then Inr ()
      else Inl (Sqlite rc errmsg))"

definition validate_page_no :: "u32 \<Rightarrow> unit res" where
  "validate_page_no no =
     (if no = 0 then Inl (Protocol ''page numbers are 1-indexed; page 0 is invalid'')
      else Inr ())"

section \<open>Connections\<close>

text \<open>One attempt of a pragma query: the codes of prepare and step, and the column read.\<close>

record pragma_reply =
  prepare_rc :: int
  step_rc :: int
  column_int :: u32

record connection =
  conn_page_size :: u32
  db_file :: bytes
  has_write_fd :: bool
  errmsg_of :: string
  pragma :: "string \<Rightarrow> nat \<Rightarrow> pragma_reply"
  serialize_reply :: "bytes option"
  exec_rc :: "string \<Rightarrow> int"
  write_io :: "u64 \<Rightarrow> bytes \<Rightarrow> (nat \<times> string) option"
  read_io :: "u64 \<Rightarrow> string + nat"

definition MAX_RETRIES :: nat where
  "MAX_RETRIES = 12"

text \<open>
  \<open>query_pragma_u32\<close>: the attempts \<open>attempt, attempt + 1, ..., MAX_RETRIES\<close>. The number of
  attempts made is returned with the result.
\<close>

function query_pragma_from ::
  "string \<Rightarrow> (nat \<Rightarrow> pragma_reply) \<Rightarrow> string \<Rightarrow> nat \<Rightarrow> nat \<times> u32 res" where
  "query_pragma_from errmsg replies name attempt =
     (if attempt > MAX_RETRIES then
        (attempt, Inl (Protocol (''PRAGMA '' @ name @ '' exceeded retry budget'')))
      else
        let r = replies attempt in
        case check errmsg (prepare_rc r) of
          Inl e \<Rightarrow> (Suc attempt, Inl e)
        | Inr _ \<Rightarrow>
            if step_rc r = SQLITE_ROW then (Suc attempt, Inr (column_int r))
            else if (step_rc r = SQLITE_BUSY \<or> step_rc r = SQLITE_LOCKED \<or>
                     step_rc r = SQLITE_DONE) \<and> attempt < MAX_RETRIES
            then query_pragma_from errmsg replies name (Suc attempt)
            else
              (Suc attempt,
               Inl (Sqlite (step_rc r)
                 (if step_rc r = SQLITE_DONE then ''PRAGMA '' @ name @ '' returned no rows''
                  else ''PRAGMA '' @ name @ '' failed''))))"
  by pat_completeness auto
termination
  by (relation "measure (\<lambda>(_, _, _, attempt). Suc MAX_RETRIES - attempt)") auto

declare query_pragma_from.simps [simp del]

definition query_pragma_u32 :: "string \<Rightarrow> (nat \<Rightarrow> pragma_reply) \<Rightarrow> string \<Rightarrow> u32 res" where
  "query_pragma_u32 errmsg replies name = snd (query_pragma_from errmsg replies name 0)"

definition page_count :: "connection \<Rightarrow> u32 res" where
  "page_count c = query_pragma_u32 (errmsg_of c) (pragma c ''page_count'') ''page_count''"

definition serialize :: "connection \<Rightarrow> bytes res" where
  "serialize c =
     (case serialize_reply c of
        None \<Rightarrow> Inl (Sqlite SQLITE_NOMEM ''sqlite3_serialize returned NULL'')
      | Some bs \<Rightarrow> Inr bs)"

definition exec :: "connection \<Rightarrow> string \<Rightarrow> unit res" where
  "exec c sql =
     (if CHR 0x00 \<in> set sql then
        Inl (Protocol (''nul byte found in provided data at position: '' @
          show_nat (length (takeWhile (\<lambda>c. c \<noteq> CHR 0x00) sql))))
      else check (errmsg_of c) (exec_rc c sql))"

text \<open>The byte offset of a page: \<open>(page_no - 1) as u64 * page_size as u64\<close>.\<close>

definition page_offset :: "connection \<Rightarrow> u32 \<Rightarrow> u64" where
  "page_offset c no = ucast (no - 1) * ucast (conn_page_size c)"

text \<open>Writing at an offset; past the end the gap reads as zero bytes.\<close>

definition write_at :: "bytes \<Rightarrow> nat \<Rightarrow> bytes \<Rightarrow> bytes" where
  "write_at f off d =
     (let f' = f @ replicate (off - length f) 0
      in take off f' @ d @ drop (off + length d) f')"

definition read_page :: "connection \<Rightarrow> u32 \<Rightarrow> bytes res" where
  "read_page c no =
     (case validate_page_no no of
        Inl e \<Rightarrow> Inl e
      | Inr _ \<Rightarrow>
          let ps = unat (conn_page_size c); off = page_offset c no in
          case read_io c off of
            Inl e \<Rightarrow> Inl (Io e)
          | Inr most \<Rightarrow>
              let buf = take (min most ps) (drop (unat off) (db_file c)); n = length buf in
              if n \<noteq> ps then
                Inl (Sqlite 1 (''page '' @ show_word no @ '' is out of range (read '' @
                  show_nat n @ '' of '' @ show_nat ps @ '' bytes)''))
              else Inr buf)"

definition write_page :: "connection \<Rightarrow> u32 \<Rightarrow> bytes \<Rightarrow> connection \<times> unit res" where
  "write_page c no d =
     (case validate_page_no no of
        Inl e \<Rightarrow> (c, Inl e)
      | Inr _ \<Rightarrow>
          if length d \<noteq> unat (conn_page_size c) then
            (c, Inl (Protocol (''page '' @ show_word no @ '' has '' @ show_nat (length d) @
              '' bytes, expected '' @ show_word (conn_page_size c))))
          else if \<not> has_write_fd c then
            (c, Inl (Protocol ''connection is read-only; cannot write pages''))
          else
            let off = page_offset c no in
            case write_io c off d of
              Some (k, e) \<Rightarrow>
                (if k = 0 then c
                 else c\<lparr>db_file := write_at (db_file c) (unat off) (take k d)\<rparr>, Inl (Io e))
            | None \<Rightarrow> (c\<lparr>db_file := write_at (db_file c) (unat off) d\<rparr>, Inr ()))"

section \<open>Opening\<close>

text \<open>
  \<open>Connection::open\<close>. The environment says what \<open>sqlite3_open_v2\<close>, \<open>sqlite3_busy_timeout\<close> and
  the two \<open>OpenOptions::open\<close> calls answer and which connection the path denotes; \<open>path_nul\<close> is
  the position of a NUL byte in the path.
\<close>

definition SQLITE_OPEN_READONLY :: nat where "SQLITE_OPEN_READONLY = 1"
definition SQLITE_OPEN_READWRITE :: nat where "SQLITE_OPEN_READWRITE = 2"
definition SQLITE_OPEN_CREATE :: nat where "SQLITE_OPEN_CREATE = 4"

record open_env =
  path_nul :: "nat option"
  open_rc :: int
  null_handle :: bool
  busy_timeout_rc :: int
  open_read_io :: "string option"
  open_write_io :: "string option"
  found :: connection

definition open_connection :: "open_env \<Rightarrow> nat \<Rightarrow> connection res" where
  "open_connection env flags =
     (case path_nul env of
        Some i \<Rightarrow>
          Inl (Protocol (''nul byte found in provided data at position: '' @ show_nat i))
      | None \<Rightarrow>
          case check (if null_handle env then ''SQLite error code '' @ show_i32 (open_rc env)
                      else errmsg_of (found env)) (open_rc env) of
            Inl e \<Rightarrow> Inl e
          | Inr _ \<Rightarrow>
              case check (errmsg_of (found env)) (busy_timeout_rc env) of
                Inl e \<Rightarrow> Inl e
              | Inr _ \<Rightarrow>
                  case query_pragma_u32 (errmsg_of (found env)) (pragma (found env) ''page_size'')
                    ''page_size'' of
                    Inl e \<Rightarrow> Inl e
                  | Inr ps \<Rightarrow>
                      case open_read_io env of
                        Some e \<Rightarrow> Inl (Io e)
                      | None \<Rightarrow>
                          if flags div SQLITE_OPEN_READWRITE mod 2 \<noteq> 0 then
                            case open_write_io env of
                              Some e \<Rightarrow> Inl (Io e)
                            | None \<Rightarrow>
                                Inr ((found env)\<lparr>conn_page_size := ps, has_write_fd := True\<rparr>)
                          else Inr ((found env)\<lparr>conn_page_size := ps, has_write_fd := False\<rparr>))"

section \<open>Snapshots\<close>

record snapshot =
  snap_conn :: connection
  snap_bytes :: bytes
  snap_page_size :: u32
  snap_page_count :: u32

definition snapshot_begin :: "connection \<Rightarrow> snapshot res" where
  "snapshot_begin c =
     (case exec c ''BEGIN DEFERRED'' of
        Inl e \<Rightarrow> Inl e
      | Inr _ \<Rightarrow>
          case page_count c of
            Inl e \<Rightarrow> Inl e
          | Inr pc \<Rightarrow>
              case (if pc = 0 then Inr [] else serialize c) of
                Inl e \<Rightarrow> Inl e
              | Inr bs \<Rightarrow>
                  Inr \<lparr>snap_conn = c, snap_bytes = bs, snap_page_size = conn_page_size c,
                       snap_page_count = pc\<rparr>)"

definition snapshot_read_page :: "snapshot \<Rightarrow> u32 \<Rightarrow> bytes res" where
  "snapshot_read_page s no =
     (if no = 0 then Inl (Protocol ''page numbers are 1-indexed; page 0 is invalid'')
      else
        let ps = unat (snap_page_size s); off = unat (no - 1) * ps in
        if off + ps > length (snap_bytes s) then
          Inl (Sqlite 1 (''page '' @ show_word no @ '' is out of range (snapshot has '' @
            show_word (snap_page_count s) @ '' pages)''))
        else Inr (take ps (drop off (snap_bytes s))))"

definition snapshot_commit :: "snapshot \<Rightarrow> unit res" where
  "snapshot_commit s = exec (snap_conn s) ''COMMIT''"

section \<open>Applying a list of pages\<close>

text \<open>
  The loop \<open>for page in &pages { conn.write_page(..)?; .. }\<close> over any page store: it stops at
  the first write that fails.
\<close>

fun write_all ::
  "('s \<Rightarrow> u32 \<Rightarrow> bytes \<Rightarrow> 's \<times> unit res) \<Rightarrow> 's \<Rightarrow> (u32 \<times> bytes) list \<Rightarrow> 's \<times> unit res" where
  "write_all w s [] = (s, Inr ())"
| "write_all w s ((no, d) # pages) =
     (case w s no d of
        (s', Inl e) \<Rightarrow> (s', Inl e)
      | (s', Inr _) \<Rightarrow> write_all w s' pages)"

text \<open>Page \<open>i\<close> of an image is complete and equal to page \<open>i\<close> of the target \<open>T\<close>.\<close>

definition agrees :: "nat \<Rightarrow> bytes \<Rightarrow> bytes \<Rightarrow> nat \<Rightarrow> bool" where
  "agrees ps T f i \<longleftrightarrow> i * ps + ps \<le> length f \<and> page_at ps f i = page_at ps T i"

lemma page_end:
  assumes "no \<noteq> (0 :: u32)"
  shows "(unat no - 1) * ps + ps = unat no * ps"
proof -
  have "unat no > 0" using assms by (simp add: unat_gt_0)
  then show ?thesis by (cases "unat no") simp_all
qed

text \<open>
  What a client of the page writer relies on: in a store that accepts writes, writing page
  \<open>no\<close> succeeds, makes it the page read at its place, keeps every other complete page, and
  extends the image just far enough.
\<close>

locale page_store =
  fixes put :: "'s \<Rightarrow> u32 \<Rightarrow> bytes \<Rightarrow> 's \<times> unit res"
    and image :: "'s \<Rightarrow> bytes"
    and psize :: "'s \<Rightarrow> nat"
    and ready :: "'s \<Rightarrow> bool"
  assumes put_succeeds: "ready s \<Longrightarrow> no \<noteq> 0 \<Longrightarrow> length d = psize s \<Longrightarrow>
      \<exists>s'. put s no d = (s', Inr ()) \<and> ready s' \<and> psize s' = psize s"
    and put_valid: "ready s \<Longrightarrow> put s no d = (s', Inr ()) \<Longrightarrow> no \<noteq> 0"
    and put_length: "ready s \<Longrightarrow> put s no d = (s', Inr ()) \<Longrightarrow>
      length (image s') = max (length (image s)) (unat no * psize s)"
    and put_hit: "ready s \<Longrightarrow> put s no d = (s', Inr ()) \<Longrightarrow>
      page_at (psize s) (image s') (unat no - 1) = d"
    and put_miss: "ready s \<Longrightarrow> put s no d = (s', Inr ()) \<Longrightarrow> i \<noteq> unat no - 1 \<Longrightarrow>
      i * psize s + psize s \<le> length (image s) \<Longrightarrow>
      page_at (psize s) (image s') i = page_at (psize s) (image s) i"
begin

lemma put_agrees:
  assumes "ready s" and "put s no d = (s', Inr ())" and "d = page_at (psize s) T (unat no - 1)"
    and "i = unat no - 1 \<or> agrees (psize s) T (image s) i"
  shows "agrees (psize s) T (image s') i"
proof (cases "i = unat no - 1")
  case True
  with put_hit [OF assms(1,2)] put_length [OF assms(1,2)] put_valid [OF assms(1,2)] assms(3)
  show ?thesis by (simp add: agrees_def page_end [simplified])
next
  case False
  with put_miss [OF assms(1,2)] put_length [OF assms(1,2)] assms(4)
  show ?thesis by (auto simp: agrees_def le_max_iff_disj)
qed

lemma write_all_towards:
  assumes "ready s" and "length (image s) \<le> n * psize s"
    and "\<forall>(no, d) \<in> set pages. no \<noteq> 0 \<and> unat no \<le> n \<and> length d = psize s \<and>
           d = page_at (psize s) T (unat no - 1)"
  shows "\<exists>s'. write_all put s pages = (s', Inr ()) \<and> ready s' \<and> psize s' = psize s \<and>
     length (image s') \<le> n * psize s \<and>
     (\<forall>i. (\<exists>(no, d) \<in> set pages. i = unat no - 1) \<or> agrees (psize s) T (image s) i \<longrightarrow>
        agrees (psize s) T (image s') i)"
  using assms
proof (induction pages arbitrary: s)
  case Nil
  then show ?case by simp
next
  case (Cons p pages)
  obtain no d where p: "p = (no, d)" by (cases p)
  with Cons.prems have d: "no \<noteq> 0" "unat no \<le> n" "length d = psize s"
    "d = page_at (psize s) T (unat no - 1)" by auto
  then obtain s1 where s1: "put s no d = (s1, Inr ())" "ready s1" "psize s1 = psize s"
    using put_succeeds Cons.prems(1) by blast
  have "unat no * psize s \<le> n * psize s" using d(2) by (rule mult_le_mono1)
  with put_length [OF Cons.prems(1) s1(1)] Cons.prems(2)
  have len: "length (image s1) \<le> n * psize s1" by (simp add: s1(3))
  from Cons.prems(3) have rest: "\<forall>(no, d) \<in> set pages. no \<noteq> 0 \<and> unat no \<le> n \<and>
      length d = psize s1 \<and> d = page_at (psize s1) T (unat no - 1)"
    by (auto simp: s1(3))
  from Cons.IH [OF s1(2) len rest] obtain s' where s': "write_all put s1 pages = (s', Inr ())"
    "ready s'" "psize s' = psize s" "length (image s') \<le> n * psize s"
    "\<And>i. (\<exists>(no, d) \<in> set pages. i = unat no - 1) \<or> agrees (psize s) T (image s1) i \<Longrightarrow>
      agrees (psize s) T (image s') i"
    by (auto simp: s1(3))
  have "agrees (psize s) T (image s') i"
    if "(\<exists>(no, d) \<in> set (p # pages). i = unat no - 1) \<or> agrees (psize s) T (image s) i" for i
    using that put_agrees [OF Cons.prems(1) s1(1) d(4), of i] by (intro s'(5)) (auto simp: p)
  with s' show ?case by (simp add: p s1(1))
qed

end

section \<open>The database file is a page store\<close>

definition conn_ready :: "connection \<Rightarrow> bool" where
  "conn_ready c \<longleftrightarrow> has_write_fd c \<and> write_io c = (\<lambda>_ _. None)"

lemma length_write_at: "length (write_at f off d) = max (length f) (off + length d)"
  by (simp add: write_at_def Let_def)

lemma nth_write_at:
  "n < length f \<Longrightarrow> n < off \<or> off + length d \<le> n \<Longrightarrow> write_at f off d ! n = f ! n"
  by (auto simp: write_at_def Let_def nth_append)

lemma page_at_write_hit:
  "length d = ps \<Longrightarrow> page_at ps (write_at f (k * ps) d) k = d"
  by (simp add: page_at_def write_at_def Let_def)

lemma page_at_write_miss:
  assumes "i \<noteq> k" and "i * ps + ps \<le> length f" and "length d = ps"
  shows "page_at ps (write_at f (k * ps) d) i = page_at ps f i"
proof (rule nth_equalityI)
  show "length (page_at ps (write_at f (k * ps) d) i) = length (page_at ps f i)"
    using assms(2) by (simp add: page_at_def length_write_at)
  fix j assume "j < length (page_at ps (write_at f (k * ps) d) i)"
  then have j: "j < ps" by (simp add: page_at_def)
  have "i * ps + ps \<le> k * ps \<or> k * ps + ps \<le> i * ps"
    using assms(1) page_index_bound [of i k ps] page_index_bound [of k i ps] by linarith
  then show "page_at ps (write_at f (k * ps) d) i ! j = page_at ps f i ! j"
    using j assms(2,3) by (auto simp: page_at_def nth_write_at length_write_at)
qed

lemma unat_page_offset:
  assumes "no \<noteq> 0"
  shows "unat (page_offset c no) = (unat no - 1) * unat (conn_page_size c)"
proof -
  have "1 \<le> no" using assms by (simp add: word_le_nat_alt unat_gt_0 Suc_le_eq)
  then have "unat (no - 1) = unat no - 1" by (simp add: unat_word_sub)
  moreover have "(unat no - 1) * unat (conn_page_size c) < 4294967296 * 4294967296"
    using unat_u32_bound [of no] unat_u32_bound [of "conn_page_size c"]
    by (intro mult_strict_mono) auto
  ultimately show ?thesis by (simp add: page_offset_def unat_u64_mult)
qed

lemma write_page_ok:
  assumes "conn_ready c" and "no \<noteq> 0" and "length d = unat (conn_page_size c)"
  shows "write_page c no d =
    (c\<lparr>db_file := write_at (db_file c) ((unat no - 1) * unat (conn_page_size c)) d\<rparr>, Inr ())"
  using assms by (simp add: write_page_def validate_page_no_def conn_ready_def unat_page_offset)

lemma write_page_okD:
  assumes "conn_ready c" and "write_page c no d = (c', Inr ())"
  shows "no \<noteq> 0 \<and> length d = unat (conn_page_size c)"
  using assms by (auto simp: write_page_def validate_page_no_def split: if_splits)

interpretation conn: page_store write_page db_file "\<lambda>c. unat (conn_page_size c)" conn_ready
proof
  fix c :: connection and no :: u32 and d :: bytes
  assume "conn_ready c" "no \<noteq> 0" "length d = unat (conn_page_size c)"
  then show "\<exists>c'. write_page c no d = (c', Inr ()) \<and> conn_ready c' \<and>
      unat (conn_page_size c') = unat (conn_page_size c)"
    by (simp add: write_page_ok) (simp add: conn_ready_def)
next
  fix c c' :: connection and no :: u32 and d :: bytes
  assume c: "conn_ready c" and w: "write_page c no d = (c', Inr ())"
  note ok = write_page_okD [OF c w]
  then show "no \<noteq> 0" by simp
  from ok w have c': "db_file c' =
      write_at (db_file c) ((unat no - 1) * unat (conn_page_size c)) d"
    using write_page_ok [OF c, of no d] by auto
  from ok page_end [of no "unat (conn_page_size c)"] show "length (db_file c') =
      max (length (db_file c)) (unat no * unat (conn_page_size c))"
    by (simp add: c' length_write_at)
  show "page_at (unat (conn_page_size c)) (db_file c') (unat no - 1) = d"
    using ok by (simp add: c' page_at_write_hit)
  fix i
  assume "i \<noteq> unat no - 1"
    "i * unat (conn_page_size c) + unat (conn_page_size c) \<le> length (db_file c)"
  then show "page_at (unat (conn_page_size c)) (db_file c') i =
      page_at (unat (conn_page_size c)) (db_file c) i"
    using ok by (simp add: c' page_at_write_miss)
qed

lemma read_page_page_at:
  assumes "no \<noteq> 0" and "read_io c (page_offset c no) = Inr most" and "unat (conn_page_size c) \<le> most"
    and "unat no * unat (conn_page_size c) \<le> length (db_file c)"
  shows "read_page c no = Inr (page_at (unat (conn_page_size c)) (db_file c) (unat no - 1))"
  using assms page_end [OF assms(1), of "unat (conn_page_size c)"]
  by (simp add: read_page_def validate_page_no_def Let_def unat_page_offset page_at_def)

section \<open>Read-only connections\<close>

lemma write_page_read_only: "\<not> has_write_fd c \<Longrightarrow> fst (write_page c no d) = c"
  by (simp add: write_page_def validate_page_no_def)

lemma write_all_read_only: "\<not> has_write_fd c \<Longrightarrow> fst (write_all write_page c pages) = c"
proof (induction pages)
  case (Cons p pages)
  obtain no d where p: "p = (no, d)" by (cases p)
  obtain c' r where w: "write_page c no d = (c', r)" by (cases "write_page c no d")
  with write_page_read_only [OF Cons.prems, of no d] have "c' = c" by simp
  with Cons w p show ?case by (simp split: sum.splits)
qed simp

section \<open>The retry budget of a pragma\<close>

lemma query_pragma_attempts: "fst (query_pragma_from m rs nm a) \<le> max a (Suc MAX_RETRIES)"
proof (induction m rs nm a rule: query_pragma_from.induct)
  case (1 m rs nm a)
  then show ?case
    by (subst query_pragma_from.simps) (auto simp: Let_def split: sum.splits)
qed

end
