(* ===== verification/Origin.thy ===== *)
theory Origin
  imports Tuning Process Db
begin

text \<open>
  The origin's protocol handler (\<open>src/src/protocol/origin.rs\<close>): the handshake, the coarse pass
  over group hashes, and the fine pass that sends the differing pages. The handler is a
  process tree over \<open>message\<close>; its result is an outcome of \<open>()\<close>.

  Code outside the repository enters through the record \<open>extern\<close>: the digest functions, the
  thread pool, and the text Rust prints for a \<open>HashSet\<close>, whose order the standard library
  leaves unspecified.
\<close>

record extern =
  digests_of :: digests
  rayon_of :: rayon
  hashset_debug :: "u32 set \<Rightarrow> string"

type_synonym origin_proc = "(message, sync_error, unit outcome) proc"

definition protocol_violation :: "string \<Rightarrow> origin_proc" where
  "protocol_violation m = Send (Error m) (\<lambda>_. Ret (Failed (Protocol m)))"

section \<open>Validation of the replica's messages\<close>

fun check_page_nos ::
  "u32 \<Rightarrow> u32 \<Rightarrow> u32 \<Rightarrow> u32 set \<Rightarrow> u32 option \<Rightarrow> u32 list \<Rightarrow> unit res" where
  "check_page_nos group_idx first_page group_last_page seen prev [] = Inr ()"
| "check_page_nos group_idx first_page group_last_page seen prev (page_no # rest) =
     (if page_no = 0 then Inl (Protocol ''PageHashes includes invalid page number 0'')
      else if page_no < first_page \<or> page_no > group_last_page then
        Inl (Protocol (''PageHashes page '' @ show_word page_no @ '' is outside group '' @
          show_word group_idx @ '' range ['' @ show_word first_page @ '', '' @
          show_word group_last_page @ '']''))
      else if page_no \<in> seen then
        Inl (Protocol (''PageHashes contains duplicate page number '' @ show_word page_no))
      else
        (case prev of
           Some prev_page \<Rightarrow>
             if page_no \<le> prev_page then
               Inl (Protocol (''PageHashes page numbers must be strictly increasing (got '' @
                 show_word prev_page @ '' then '' @ show_word page_no @ '')''))
             else check_page_nos group_idx first_page group_last_page (insert page_no seen)
               (Some page_no) rest
         | None \<Rightarrow>
             check_page_nos group_idx first_page group_last_page (insert page_no seen)
               (Some page_no) rest))"

fun check_contiguous :: "u32 \<Rightarrow> u32 \<Rightarrow> nat \<Rightarrow> u32 list \<Rightarrow> unit res" where
  "check_contiguous group_idx first_page idx [] = Inr ()"
| "check_contiguous group_idx first_page idx (page_no # rest) =
     (let expected_page = first_page + of_nat idx in
      if page_no \<noteq> expected_page then
        Inl (Protocol (''PageHashes page numbers must be a contiguous prefix for group '' @
          show_word group_idx @ '' (expected page '' @ show_word expected_page @ '', got '' @
          show_word page_no @ '')''))
      else check_contiguous group_idx first_page (Suc idx) rest)"

definition validate_page_hashes_for_group ::
  "u32 list \<Rightarrow> page_hash list \<Rightarrow> u32 \<Rightarrow> unit res" where
  "validate_page_hashes_for_group page_nos page_hashes group_idx =
     (if length page_nos \<noteq> length page_hashes then
        Inl (Protocol (''PageHashes has mismatched lengths: page_nos='' @
          show_nat (length page_nos) @ '', hashes='' @ show_nat (length page_hashes)))
      else
        let first_page = group_idx * GROUP_SIZE + 1;
            group_last_page = (group_idx + 1) * GROUP_SIZE
        in case check_page_nos group_idx first_page group_last_page {} None page_nos of
             Inl e \<Rightarrow> Inl e
           | Inr _ \<Rightarrow> check_contiguous group_idx first_page 0 page_nos)"

definition validate_pages_ack :: "(u32 set \<Rightarrow> string) \<Rightarrow> u32 list \<Rightarrow> u32 list \<Rightarrow> unit res" where
  "validate_pages_ack dbg expected_page_nos ack_page_nos =
     (let expected = set expected_page_nos; actual = set ack_page_nos in
      if length ack_page_nos \<noteq> card actual then
        Inl (Protocol ''PagesAck contains duplicate page numbers'')
      else if expected \<noteq> actual then
        Inl (Protocol (''PagesAck does not match sent pages: expected '' @ dbg expected @
          '', got '' @ dbg actual))
      else Inr ())"

section \<open>Comparing pages\<close>

text \<open>\<open>&snap_bytes[offset..offset + page_size]\<close> with \<open>offset = (p as usize - 1) * page_size\<close>.\<close>

definition page_slice :: "bytes \<Rightarrow> usize \<Rightarrow> u32 \<Rightarrow> bytes option" where
  "page_slice bs psz p =
     (let offset = (ucast p - 1) * psz
      in slice bs offset (offset + psz))"

definition origin_group_hash_for_pages ::
  "digests \<Rightarrow> bytes \<Rightarrow> usize \<Rightarrow> u32 list \<Rightarrow> hash_algorithm \<Rightarrow> page_hash option" where
  "origin_group_hash_for_pages D bs psz page_range alg =
     map_option (\<lambda>hs. hash_group_for D hs alg)
       (those (map (\<lambda>p. map_option (\<lambda>d. hash_page_for D d alg)
          (page_slice bs psz p)) page_range))"

definition changed_page_for ::
  "digests \<Rightarrow> u32 \<Rightarrow> page_hash \<Rightarrow> bytes \<Rightarrow> usize \<Rightarrow> hash_algorithm \<Rightarrow>
     page_data option option" where
  "changed_page_for D page_no replica_hash bs psz alg =
     (case page_slice bs psz page_no of
        None \<Rightarrow> None
      | Some data_slice \<Rightarrow>
          Some (if hash_page_for D data_slice alg \<noteq> replica_hash
                then Some \<lparr>pd_page_no = page_no, pd_data = data_slice\<rparr> else None))"

section \<open>Coarse pass\<close>

text \<open>The closure over a group; its text is the same on the parallel and the serial path.\<close>

definition group_differs ::
  "digests \<Rightarrow> bytes \<Rightarrow> usize \<Rightarrow> u32 \<Rightarrow> hash_algorithm \<Rightarrow> u32 \<Rightarrow> nat \<Rightarrow> nat \<times> page_hash \<Rightarrow>
     u32 option option" where
  "group_differs D bs psz pc alg first_group chunk_start =
     (\<lambda>(i, replica_group_hash).
        let group_idx = first_group + of_nat (chunk_start + i);
            first_page = group_idx * GROUP_SIZE + 1;
            last_page = min ((group_idx + 1) * GROUP_SIZE) pc
        in if first_page > pc then Some (Some group_idx)
           else
             (case origin_group_hash_for_pages D bs psz
                     (range_incl first_page last_page) alg of
                None \<Rightarrow> None
              | Some h \<Rightarrow> Some (if h \<noteq> replica_group_hash then Some group_idx else None)))"

definition coarse_chunk ::
  "extern \<Rightarrow> sync_tuning \<Rightarrow> bytes \<Rightarrow> usize \<Rightarrow> u32 \<Rightarrow> hash_algorithm \<Rightarrow> u32 \<Rightarrow> page_hash list \<Rightarrow>
     nat \<Rightarrow> nat \<Rightarrow> u32 list option" where
  "coarse_chunk X t bs psz pc alg first_group replica_group_hashes
       groups_per_chunk chunk_start =
     (let chunk_end = min (chunk_start + groups_per_chunk) (length replica_group_hashes);
          replica_hashes_chunk = take (chunk_end - chunk_start) (drop chunk_start replica_group_hashes);
          pages_in_chunk = of_nat (chunk_end - chunk_start) * GROUP_SIZE;
          f = group_differs (digests_of X) bs psz pc alg first_group
                chunk_start
      in compute_with_parallelism (rayon_of X) t pages_in_chunk
           (\<lambda>_. par_groups (rayon_of X) f (List.enumerate 0 replica_hashes_chunk))
           (\<lambda>_. filter_map_p f (List.enumerate 0 replica_hashes_chunk)))"

definition coarse_need_fine ::
  "extern \<Rightarrow> sync_tuning \<Rightarrow> bytes \<Rightarrow> usize \<Rightarrow> u32 \<Rightarrow> hash_algorithm \<Rightarrow> u32 \<Rightarrow> page_hash list \<Rightarrow>
     u32 list option" where
  "coarse_need_fine X t bs psz pc alg first_group replica_group_hashes =
     (let groups_per_chunk = unat (max (hash_chunk_groups t) 1);
          max_replica_group = first_group + of_nat (length replica_group_hashes);
          max_origin_group = div_ceil pc GROUP_SIZE
      in map_option (\<lambda>chunks. concat chunks @ range_excl max_replica_group max_origin_group)
           (those (map (coarse_chunk X t bs psz pc alg first_group
                          replica_group_hashes groups_per_chunk)
                     (step_by (length replica_group_hashes) groups_per_chunk))))"

section \<open>Fine pass\<close>

definition changed_pages_of ::
  "extern \<Rightarrow> sync_tuning \<Rightarrow> bytes \<Rightarrow> usize \<Rightarrow> hash_algorithm \<Rightarrow> u32 list \<Rightarrow> page_hash list \<Rightarrow>
     page_data list option" where
  "changed_pages_of X t bs psz alg page_nos page_hashes =
     (let f = (\<lambda>i. changed_page_for (digests_of X) (page_nos ! i) (page_hashes ! i)
                 bs psz alg);
          n = length page_nos
      in compute_with_parallelism (rayon_of X) t (of_nat n)
           (\<lambda>_. par_pages (rayon_of X) f [0 ..< n]) (\<lambda>_. filter_map_p f [0 ..< n]))"

definition next_missing_page :: "u32 \<Rightarrow> u32 list \<Rightarrow> u32" where
  "next_missing_page first_page page_nos =
     (case page_nos of [] \<Rightarrow> first_page | p # ps \<Rightarrow> fold max ps p + 1)"

definition missing_pages :: "bytes \<Rightarrow> usize \<Rightarrow> u32 \<Rightarrow> u32 \<Rightarrow> page_data list option" where
  "missing_pages bs psz from last_page =
     those (map (\<lambda>p. map_option (\<lambda>d. \<lparr>pd_page_no = p, pd_data = d\<rparr>)
       (page_slice bs psz p)) (range_incl from last_page))"

text \<open>The pages sent for one group: changed ones, then those the replica does not have.\<close>

definition pages_to_send ::
  "extern \<Rightarrow> sync_tuning \<Rightarrow> bytes \<Rightarrow> usize \<Rightarrow> u32 \<Rightarrow> hash_algorithm \<Rightarrow> u32 \<Rightarrow> u32 list \<Rightarrow>
     page_hash list \<Rightarrow> page_data list option" where
  "pages_to_send X t bs psz pc alg group_idx page_nos page_hashes =
     (let first_page = group_idx * GROUP_SIZE + 1;
          last_page = min ((group_idx + 1) * GROUP_SIZE) pc
      in Option.bind
           (changed_pages_of X t bs psz alg page_nos page_hashes)
           (\<lambda>changed. map_option (\<lambda>missing. changed @ missing)
              (missing_pages bs psz
                 (next_missing_page first_page page_nos) last_page)))"

text \<open>The reaction to a validation result: a protocol error is reported to the peer.\<close>

definition reject :: "sync_error \<Rightarrow> origin_proc" where
  "reject err = (case err of Protocol m \<Rightarrow> protocol_violation m | _ \<Rightarrow> Ret (Failed err))"

definition origin_group ::
  "extern \<Rightarrow> sync_tuning \<Rightarrow> bytes \<Rightarrow> usize \<Rightarrow> u32 \<Rightarrow> hash_algorithm \<Rightarrow> u32 \<Rightarrow> origin_proc \<Rightarrow>
     origin_proc" where
  "origin_group X t bs psz pc alg group_idx k =
     recv_or Failed (\<lambda>msg. case msg of
         PageHashes page_nos page_hashes \<Rightarrow>
           (case validate_page_hashes_for_group page_nos page_hashes group_idx of
              Inl err \<Rightarrow> reject err
            | Inr _ \<Rightarrow>
                (case pages_to_send X t bs psz pc alg group_idx
                        page_nos page_hashes of
                   None \<Rightarrow> Ret Panicked
                 | Some changed_pages \<Rightarrow>
                     send_or Failed (SendPages changed_pages)
                       (recv_or Failed (\<lambda>ack. case ack of
                           PagesAck ack_nos \<Rightarrow>
                             (case validate_pages_ack (hashset_debug X)
                                     (map pd_page_no changed_pages) ack_nos of
                                Inl err \<Rightarrow> reject err
                              | Inr _ \<Rightarrow> k)
                         | Error m \<Rightarrow> Ret (Failed (Protocol m))
                         | _ \<Rightarrow> protocol_violation
                                 (''expected PagesAck, got '' @ debug_message ack)))))
       | Done \<Rightarrow> protocol_violation
           ''received Done before all requested fine-pass groups were processed''
       | Error m \<Rightarrow> Ret (Failed (Protocol m))
       | _ \<Rightarrow> protocol_violation (''expected PageHashes, got '' @ debug_message msg))"

primrec origin_fine ::
  "extern \<Rightarrow> sync_tuning \<Rightarrow> bytes \<Rightarrow> usize \<Rightarrow> u32 \<Rightarrow> hash_algorithm \<Rightarrow> u32 list \<Rightarrow> origin_proc" where
  "origin_fine X t bs psz pc alg [] =
     send_or Failed Done (Ret (Returned ()))"
| "origin_fine X t bs psz pc alg (g # gs) =
     origin_group X t bs psz pc alg g
       (origin_fine X t bs psz pc alg gs)"

section \<open>The handler\<close>

definition origin_coarse ::
  "extern \<Rightarrow> sync_tuning \<Rightarrow> snapshot \<Rightarrow> hash_algorithm \<Rightarrow> origin_proc" where
  "origin_coarse X t snap alg =
     recv_or Failed (\<lambda>msg. case msg of
         GroupHashes first_group hashes \<Rightarrow>
           if first_group \<noteq> 0 then
             protocol_violation (''unsupported GroupHashes.first_group='' @
               show_word first_group @ ''; this protocol version requires first_group=0'')
           else
             (case coarse_need_fine X t (snap_bytes snap) (ucast (snap_page_size snap))
                     (snap_page_count snap) alg first_group hashes of
                None \<Rightarrow> Ret Panicked
              | Some need_fine \<Rightarrow>
                  send_or Failed (GroupsNeedFine need_fine)
                    (origin_fine X t (snap_bytes snap) (ucast (snap_page_size snap))
                       (snap_page_count snap) alg need_fine))
       | Error m \<Rightarrow> Ret (Failed (Protocol m))
       | _ \<Rightarrow> protocol_violation (''expected GroupHashes, got '' @ debug_message msg))"

definition origin_run_with_tuning :: "extern \<Rightarrow> sync_tuning \<Rightarrow> snapshot \<Rightarrow> origin_proc" where
  "origin_run_with_tuning X t snap =
     recv_or Failed (\<lambda>hello. case hello of
         Hello replica_version replica_page_size _ \<Rightarrow>
           if replica_version = 0 then
             protocol_violation ''replica offered unsupported protocol version 0''
           else
             (let negotiated_version = min replica_version PROTOCOL_VERSION in
              case from_protocol_version negotiated_version of
                None \<Rightarrow> Ret (Failed (Protocol (''unsupported negotiated protocol version '' @
                          show_word negotiated_version)))
              | Some alg \<Rightarrow>
                  if snap_page_size snap \<noteq> replica_page_size \<and> replica_page_size \<noteq> 0 then
                    send_or Failed
                      (Error (''page size mismatch: origin='' @ show_word (snap_page_size snap) @
                         '', replica='' @ show_word replica_page_size))
                      (Ret (Failed (PageSizeMismatch (snap_page_size snap) replica_page_size)))
                  else
                    send_or Failed
                      (HelloAck negotiated_version (snap_page_size snap) (snap_page_count snap))
                      (origin_coarse X t snap alg))
       | Error m \<Rightarrow> Ret (Failed (Protocol m))
       | _ \<Rightarrow> protocol_violation (''expected Hello, got '' @ debug_message hello))"

definition origin_run ::
  "extern \<Rightarrow> (string \<Rightarrow> string option) \<Rightarrow> snapshot \<Rightarrow> origin_proc" where
  "origin_run X env snap = origin_run_with_tuning X (from_env env) snap"

section \<open>What the validations accept\<close>

lemma check_page_nos_iff:
  "check_page_nos g a b seen prev ps = Inr () \<longleftrightarrow>
     (\<forall>p \<in> set ps. p \<noteq> 0 \<and> a \<le> p \<and> p \<le> b \<and> p \<notin> seen) \<and> distinct ps \<and>
     sorted_wrt (<) (case prev of None \<Rightarrow> ps | Some q \<Rightarrow> q # ps)"
proof (induction ps arbitrary: seen prev)
  case Nil
  then show ?case by (simp split: option.split)
next
  case (Cons p ps)
  show ?case
    by (cases prev) (auto simp: Cons.IH not_le not_less)
qed

lemma check_contiguous_iff:
  "check_contiguous g a i ps = Inr () \<longleftrightarrow>
     ps = map (\<lambda>j. a + of_nat j) [i ..< i + length ps]"
proof (induction ps arbitrary: i)
  case (Cons p ps)
  have u: "[i ..< i + length (p # ps)] = i # [Suc i ..< Suc i + length ps]"
    by (subst upt_conv_Cons) (simp_all del: upt_Suc)
  show ?case
    unfolding u list.map list.inject Cons.IH [symmetric] by (simp add: Let_def)
qed simp

lemma consecutive_words:
  assumes "unat (a :: u32) + k \<le> 4294967296"
  shows "sorted_wrt (<) (map (\<lambda>j. a + of_nat j) [0 ..< k])"
    and "distinct (map (\<lambda>j. a + of_nat j) [0 ..< k])"
    and "j < k \<Longrightarrow> unat (a + of_nat j) = unat a + j"
proof -
  have u: "unat (a + of_nat j) = unat a + j" if "j < k" for j
    using that assms by (simp add: unat_u32_add unat_u32_of_nat)
  then show "j < k \<Longrightarrow> unat (a + of_nat j) = unat a + j" .
  show "sorted_wrt (<) (map (\<lambda>j. a + of_nat j) [0 ..< k])"
    by (auto simp: sorted_wrt_iff_nth_less word_less_nat_alt u)
  show "distinct (map (\<lambda>j. a + of_nat j) [0 ..< k])"
    by (auto simp: distinct_map word_unat_eq_iff u intro!: inj_onI)
qed

text \<open>\<open>nos\<close> is \<open>a\<close>, \<open>a + 1\<close>, and so on.\<close>

definition consecutive_from :: "u32 \<Rightarrow> u32 list \<Rightarrow> bool" where
  "consecutive_from a nos \<longleftrightarrow> nos = map (\<lambda>j. a + of_nat j) [0 ..< length nos]"

lemma check_contiguous_run: "check_contiguous g a 0 nos = Inr () \<longleftrightarrow> consecutive_from a nos"
  by (simp only: check_contiguous_iff consecutive_from_def add_0)

lemma validate_split:
  "validate_page_hashes_for_group nos hs g = Inr () \<longleftrightarrow>
     length nos = length hs \<and>
     check_page_nos g (g * GROUP_SIZE + 1) ((g + 1) * GROUP_SIZE) {} None nos = Inr () \<and>
     consecutive_from (g * GROUP_SIZE + 1) nos"
  by (auto simp: validate_page_hashes_for_group_def Let_def check_contiguous_run
      split: sum.splits)

lemma consecutive_bounds:
  assumes "consecutive_from a nos" and "unat a + length nos \<le> 4294967296"
  shows "sorted_wrt (<) nos" "distinct nos"
    and "p \<in> set nos \<Longrightarrow> unat a \<le> unat p \<and> unat p < unat a + length nos"
proof -
  have nos: "nos = map (\<lambda>j. a + of_nat j) [0 ..< length nos]"
    using assms(1) by (simp only: consecutive_from_def)
  show "sorted_wrt (<) nos" "distinct nos"
    by (subst nos, rule consecutive_words [OF assms(2)])+
  show "unat a \<le> unat p \<and> unat p < unat a + length nos" if "p \<in> set nos"
  proof -
    from that nos obtain j where "j < length nos" "p = a + of_nat j"
      by (metis (no_types, lifting) atLeastLessThan_iff image_iff set_map set_upt)
    then show ?thesis using consecutive_words(3) [OF assms(2)] by simp
  qed
qed

lemma validate_page_hashes_iff:
  assumes g: "unat g < 67108863"
  shows "validate_page_hashes_for_group nos hs g = Inr () \<longleftrightarrow>
    length nos = length hs \<and> length nos \<le> 64 \<and> consecutive_from (g * GROUP_SIZE + 1) nos"
    (is "?v \<longleftrightarrow> ?r")
proof
  let ?a = "g * GROUP_SIZE + 1" and ?b = "(g + 1) * GROUP_SIZE"
  assume v: ?v
  then have chk: "\<forall>p \<in> set nos. ?a \<le> p \<and> p \<le> ?b" "distinct nos"
    by (simp_all add: validate_split check_page_nos_iff)
  from chk(1) have "unat ` set nos \<subseteq> {unat ?a .. unat ?b}" by (auto simp: word_le_nat_alt)
  then have "card (unat ` set nos) \<le> card {unat ?a .. unat ?b}" by (intro card_mono) auto
  moreover have "card (unat ` set nos) = length nos"
    using chk(2) by (simp add: card_image inj_on_def word_unat_eq_iff distinct_card)
  ultimately have "length nos \<le> 64" by (simp add: group_bounds [OF g])
  with v show ?r by (simp add: validate_split)
next
  let ?a = "g * GROUP_SIZE + 1" and ?b = "(g + 1) * GROUP_SIZE"
  assume r: ?r
  then have len: "unat ?a + length nos \<le> 4294967296" using g by (simp add: group_bounds)
  from r have c: "consecutive_from ?a nos" by simp
  have "p \<noteq> 0 \<and> ?a \<le> p \<and> p \<le> ?b" if "p \<in> set nos" for p
    using consecutive_bounds(3) [OF c len that] r
    by (auto simp: word_le_nat_alt group_bounds [OF g] unat_eq_0 [symmetric])
  with consecutive_bounds(1,2) [OF c len] r show ?v
    by (simp add: validate_split check_page_nos_iff)
qed

lemma validate_pages_ack_iff:
  "validate_pages_ack dbg expected ack = Inr () \<longleftrightarrow> distinct ack \<and> set ack = set expected"
proof -
  have "length ack = card (set ack) \<longleftrightarrow> distinct ack" by (metis card_distinct distinct_card)
  then show ?thesis by (auto simp only: validate_pages_ack_def Let_def sum.simps split: if_splits)
qed

section \<open>Pages of the snapshot\<close>

lemma page_slice_index:
  assumes "p \<noteq> 0"
  shows "page_slice bs (ucast (w :: u32)) p =
    (if unat p * unat w \<le> length bs then Some (page_at (unat w) bs (unat p - 1)) else None)"
proof -
  have p: "0 < unat p" using assms by (simp add: unat_gt_0)
  have b: "unat p < 4294967296" "unat w < 4294967296" by (rule unat_u32_bound)+
  have "(1 :: usize) \<le> ucast p" using p by (simp add: word_le_nat_alt)
  then have pm: "unat (ucast p - 1 :: usize) = unat p - 1" by (simp add: unat_word_sub)
  have "(unat p - 1) * unat w \<le> 4294967295 * 4294967295"
    using b by (intro mult_le_mono) auto
  then have off: "unat ((ucast p - 1) * ucast w :: usize) = (unat p - 1) * unat w"
    by (simp add: unat_u64_mult pm)
  have stop: "unat ((ucast p - 1) * ucast w + ucast w :: usize) = unat p * unat w"
    using off page_end [OF assms, of "unat w"] \<open>(unat p - 1) * unat w \<le> _\<close> b
    by (simp add: unat_u64_add)
  have "(unat p - 1) * unat w \<le> unat p * unat w" by (rule mult_le_mono1) simp
  moreover have "unat p * unat w - (unat p - 1) * unat w = unat w"
    using page_end [OF assms, of "unat w"] by linarith
  ultimately show ?thesis
    by (simp add: page_slice_def Let_def slice_def word_le_nat_alt off stop page_at_def)
qed

lemma page_slice_ok:
  assumes "p \<noteq> 0" and "unat p \<le> n" and "length bs = n * unat w"
  shows "page_slice bs (ucast (w :: u32)) p = Some (page_at (unat w) bs (unat p - 1))"
  using assms mult_le_mono1 [OF assms(2), of "unat w"] by (simp add: page_slice_index)

lemma page_slice_beyond:
  assumes "n < unat p" and "length bs = n * unat w" and "w \<noteq> 0"
  shows "page_slice bs (ucast (w :: u32)) p = None"
proof -
  have "p \<noteq> 0" using assms(1) by auto
  moreover have "n * unat w < unat p * unat w" using assms(1,3) by (simp add: unat_gt_0)
  ultimately show ?thesis using assms(2) by (simp add: page_slice_index)
qed

section \<open>The coarse pass\<close>

text \<open>The pages of group \<open>g\<close> in an image of \<open>n\<close> pages, and their digest.\<close>

definition group_pages :: "nat \<Rightarrow> bytes \<Rightarrow> nat \<Rightarrow> nat \<Rightarrow> bytes list" where
  "group_pages ps bs n g = map (page_at ps bs) [64 * g ..< min (64 * g + 64) n]"

definition group_digest ::
  "digests \<Rightarrow> hash_algorithm \<Rightarrow> nat \<Rightarrow> bytes \<Rightarrow> nat \<Rightarrow> nat \<Rightarrow> page_hash" where
  "group_digest D alg ps bs n g =
     hash_group_for D (map (\<lambda>p. hash_page_for D p alg) (group_pages ps bs n g)) alg"

lemma map_range_incl:
  "map (\<lambda>p. f (unat p)) (range_incl a b) = map f [unat a ..< Suc (unat b)]"
  by (simp only: map_unat_range_incl [symmetric] map_map comp_def)

lemma map_pred_upt: "map (\<lambda>k. f (k - 1)) [Suc a ..< Suc b] = map f [a ..< b]"
  by (simp only: map_Suc_upt [symmetric] map_map comp_def) simp

text \<open>The word ranges of a group, read as page indices from 0.\<close>

lemma map_group_range:
  assumes "unat g < 67108863"
  shows "map (\<lambda>p. f (unat p - 1)) (range_incl (g * GROUP_SIZE + 1) (min ((g + 1) * GROUP_SIZE) pc)) =
    map f [64 * unat g ..< min (64 * unat g + 64) (unat pc)]"
proof -
  have "unat (g * GROUP_SIZE + 1) = Suc (64 * unat g)" by (simp add: group_bounds [OF assms])
  then show ?thesis
    by (simp only: map_range_incl [of "\<lambda>k. f (k - 1)"] map_pred_upt unat_min_word
        group_last_page [OF assms])
qed

lemma set_group_range:
  assumes "unat g < 67108863"
  shows "p \<in> set (range_incl (g * GROUP_SIZE + 1) (min ((g + 1) * GROUP_SIZE) pc)) \<longleftrightarrow>
    64 * unat g < unat p \<and> unat p \<le> 64 * unat g + 64 \<and> unat p \<le> unat pc"
  by (auto simp: set_range_incl group_bounds [OF assms])

lemma origin_group_hash:
  assumes g: "unat g < 67108863" and len: "length bs = unat pc * unat w"
  shows "origin_group_hash_for_pages D bs (ucast (w :: u32))
      (range_incl (g * GROUP_SIZE + 1) (min ((g + 1) * GROUP_SIZE) pc)) alg =
    Some (group_digest D alg (unat w) bs (unat pc) (unat g))"
proof -
  let ?r = "range_incl (g * GROUP_SIZE + 1) (min ((g + 1) * GROUP_SIZE) pc)"
  let ?h = "\<lambda>i. hash_page_for D (page_at (unat w) bs i) alg"
  have "map_option (\<lambda>d. hash_page_for D d alg) (page_slice bs (ucast w) p) = Some (?h (unat p - 1))"
    if "p \<in> set ?r" for p
  proof -
    have "p \<noteq> 0" "unat p \<le> unat pc" using that by (auto simp: set_group_range [OF g])
    then show ?thesis using page_slice_ok len by simp
  qed
  then have "those (map (\<lambda>p. map_option (\<lambda>d. hash_page_for D d alg) (page_slice bs (ucast w) p)) ?r) =
      Some (map (\<lambda>p. ?h (unat p - 1)) ?r)"
    by (rule those_map_Some)
  then show ?thesis
    by (simp add: origin_group_hash_for_pages_def group_digest_def group_pages_def comp_def
        map_group_range [OF g, of ?h, simplified])
qed

text \<open>
  Cutting the group hashes into chunks and hashing in parallel changes nothing: the result
  is that of one serial pass.
\<close>

lemma group_differs_shift:
  "group_differs D bs psz pc alg fg s (i, h) = group_differs D bs psz pc alg fg 0 (s + i, h)"
  by (simp add: group_differs_def)

lemma filter_map_p_map: "filter_map_p f (map g xs) = filter_map_p (\<lambda>x. f (g x)) xs"
  by (simp add: filter_map_p_def comp_def)

lemma enumerate_shift: "List.enumerate s xs = map (\<lambda>(i, x). (s + i, x)) (List.enumerate 0 xs)"
  by (rule nth_equalityI) (simp_all add: nth_enumerate_eq)

lemma coarse_chunk_serial:
  assumes "rayon_ordered (rayon_of X)"
  shows "coarse_chunk X t bs psz pc alg fg hs k s =
    filter_map_p (group_differs (digests_of X) bs psz pc alg fg 0)
      (take (min (s + k) (length hs) - s) (drop s (List.enumerate 0 hs)))"
proof -
  have "filter_map_p (group_differs (digests_of X) bs psz pc alg fg s) (List.enumerate 0 ch) =
      filter_map_p (group_differs (digests_of X) bs psz pc alg fg 0) (List.enumerate s ch)" for ch
    unfolding enumerate_shift [of s] filter_map_p_map
    by (rule arg_cong2 [where f = filter_map_p]) (auto simp: group_differs_shift [of _ _ _ _ _ _ s])
  then show ?thesis
    using assms
    by (simp add: coarse_chunk_def Let_def compute_same rayon_ordered_def enumerate_drop_take)
qed

lemma coarse_serial:
  assumes "rayon_ordered (rayon_of X)"
  shows "coarse_need_fine X t bs psz pc alg fg hs =
    map_option (\<lambda>gs. gs @ range_excl (fg + of_nat (length hs)) (div_ceil pc GROUP_SIZE))
      (filter_map_p (group_differs (digests_of X) bs psz pc alg fg 0) (List.enumerate 0 hs))"
proof -
  let ?k = "unat (max (hash_chunk_groups t) 1)"
  have k: "?k > 0" by simp
  have "map_option concat (those (map (coarse_chunk X t bs psz pc alg fg hs ?k)
      (step_by (length hs) ?k))) =
    filter_map_p (group_differs (digests_of X) bs psz pc alg fg 0) (List.enumerate 0 hs)"
    using concat_chunks [OF k, of "length hs" "List.enumerate 0 hs"]
    by (simp only: coarse_chunk_serial [OF assms, abs_def] filter_map_p_chunks) simp
  moreover have "map_option (\<lambda>chunks. concat chunks @ r) v =
      map_option (\<lambda>gs. gs @ r) (map_option concat v)" for r :: "u32 list" and v
    by (simp add: option.map_comp comp_def)
  ultimately show ?thesis by (simp only: coarse_need_fine_def Let_def)
qed

lemma map_filter_upt:
  "List.map_filter (\<lambda>i. if P i then Some (f i) else None) xs = map f (filter P xs)"
  by (induction xs) (simp_all add: map_filter_simps)

lemma enumerate_upt: "List.enumerate 0 xs = map (\<lambda>i. (i, xs ! i)) [0 ..< length xs]"
  by (rule nth_equalityI) (simp_all add: nth_enumerate_eq)

lemma group_differs_spec:
  assumes "i < 67108863" and "length bs = unat pc * unat w"
  shows "group_differs D bs (ucast (w :: u32)) pc alg 0 0 (i, h) =
    Some (if unat pc \<le> 64 * i \<or> group_digest D alg (unat w) bs (unat pc) i \<noteq> h
          then Some (of_nat i) else None)"
proof -
  have u: "unat (of_nat i :: u32) = i" using assms(1) by (simp add: unat_u32_of_nat)
  then have g: "unat (of_nat i :: u32) < 67108863" using assms(1) by simp
  have "pc < of_nat i * GROUP_SIZE + 1 \<longleftrightarrow> unat pc \<le> 64 * i"
    using group_first_page [OF g] u by (auto simp: word_less_nat_alt)
  then show ?thesis
    using origin_group_hash [OF g assms(2), of D alg] u
    by (simp add: group_differs_def Let_def)
qed

text \<open>
  The groups asked for: those whose digest differs, those beyond the origin, and those only
  the origin has.
\<close>

definition groups_needed ::
  "digests \<Rightarrow> hash_algorithm \<Rightarrow> nat \<Rightarrow> bytes \<Rightarrow> nat \<Rightarrow> page_hash list \<Rightarrow> nat list" where
  "groups_needed D alg ps bs n hs =
     filter (\<lambda>g. n \<le> 64 * g \<or> group_digest D alg ps bs n g \<noteq> hs ! g) [0 ..< length hs] @
     [length hs ..< (n + 63) div 64]"

lemma coarse_need_fine_spec:
  assumes "rayon_ordered (rayon_of X)" and "length hs \<le> 67108863"
    and "length bs = unat pc * unat w"
  shows "coarse_need_fine X t bs (ucast (w :: u32)) pc alg 0 hs =
    Some (map of_nat (groups_needed (digests_of X) alg (unat w) bs (unat pc) hs))"
proof -
  let ?P = "\<lambda>i. unat pc \<le> 64 * i \<or>
    group_digest (digests_of X) alg (unat w) bs (unat pc) i \<noteq> hs ! i"
  have "filter_map_p (group_differs (digests_of X) bs (ucast w) pc alg 0 0) (List.enumerate 0 hs) =
      Some (List.map_filter (\<lambda>i. if ?P i then Some (of_nat i) else None) [0 ..< length hs])"
    unfolding enumerate_upt filter_map_p_map
    by (rule filter_map_p_Some) (use assms(2) group_differs_spec [OF _ assms(3)] in auto)
  moreover have "unat (of_nat (length hs) :: u32) = length hs"
    using assms(2) by (simp add: unat_u32_of_nat)
  ultimately show ?thesis
    by (simp add: coarse_serial [OF assms(1)] map_filter_upt groups_needed_def range_excl_def
        unat_div_ceil_group)
qed

section \<open>The fine pass\<close>

definition page_of :: "nat \<Rightarrow> bytes \<Rightarrow> nat \<Rightarrow> page_data" where
  "page_of ps bs i = \<lparr>pd_page_no = of_nat (Suc i), pd_data = page_at ps bs i\<rparr>"

lemma page_of_index:
  "p \<noteq> 0 \<Longrightarrow> \<lparr>pd_page_no = p, pd_data = page_at ps bs (unat p - 1)\<rparr> = page_of ps bs (unat p - 1)"
  by (simp add: page_of_def unat_gt_0)

lemma changed_pages_spec:
  assumes "rayon_ordered (rayon_of X)" and "length bs = unat pc * unat w"
    and "\<And>p. p \<in> set nos \<Longrightarrow> p \<noteq> 0 \<and> unat p \<le> unat pc" and "length hs = length nos"
  shows "changed_pages_of X t bs (ucast (w :: u32)) alg nos hs =
    Some (map (\<lambda>(p, h). page_of (unat w) bs (unat p - 1))
      (filter (\<lambda>(p, h). hash_page_for (digests_of X) (page_at (unat w) bs (unat p - 1)) alg \<noteq> h)
        (zip nos hs)))"
proof -
  let ?f = "\<lambda>(p, h). changed_page_for (digests_of X) p h bs (ucast w) alg"
  have nth: "zip nos hs = map (\<lambda>i. (nos ! i, hs ! i)) [0 ..< length nos]"
    using assms(4) by (intro nth_equalityI) simp_all
  have "?f ph = Some (if (case ph of (p, h) \<Rightarrow> hash_page_for (digests_of X) (page_at (unat w) bs
        (unat p - 1)) alg \<noteq> h) then Some (case ph of (p, h) \<Rightarrow> page_of (unat w) bs (unat p - 1))
      else None)" if "ph \<in> set (zip nos hs)" for ph
    using assms(3) page_slice_ok [OF _ _ assms(2)] set_zip_leftD [of "fst ph" "snd ph" nos hs] that
    by (cases ph) (auto simp: changed_page_for_def page_of_index [simplified])
  from filter_map_p_Some [OF this]
  have "filter_map_p ?f (zip nos hs) = Some (map (\<lambda>(p, h). page_of (unat w) bs (unat p - 1))
      (filter (\<lambda>(p, h). hash_page_for (digests_of X) (page_at (unat w) bs (unat p - 1)) alg \<noteq> h)
        (zip nos hs)))"
    by (simp add: map_filter_upt)
  then show ?thesis
    using assms(1)
    by (simp add: changed_pages_of_def Let_def compute_same rayon_ordered_def nth filter_map_p_map)
qed

text \<open>The indices sent for group \<open>g\<close> when the replica offers \<open>k\<close> page hashes of it.\<close>

definition sent_indices ::
  "digests \<Rightarrow> hash_algorithm \<Rightarrow> nat \<Rightarrow> bytes \<Rightarrow> nat \<Rightarrow> nat \<Rightarrow> page_hash list \<Rightarrow> nat list" where
  "sent_indices D alg ps bs n g hs =
     filter (\<lambda>i. hash_page_for D (page_at ps bs i) alg \<noteq> hs ! (i - 64 * g))
       [64 * g ..< 64 * g + length hs] @
     [64 * g + length hs ..< min (64 * g + 64) n]"

lemma fold_max_sorted:
  "sorted_wrt (<) (p # ps) \<Longrightarrow> fold max ps p = last (p # ps)" for p :: "'a::linorder"
proof (induction ps arbitrary: p)
  case (Cons q ps)
  then have "p < q" by simp
  then have "max q p = q" by (intro max_absorb1) (rule less_imp_le)
  with Cons show ?case by simp
qed simp

lemma next_missing_consecutive:
  assumes "consecutive_from a nos" and "unat a + length nos \<le> 4294967296"
  shows "next_missing_page a nos = a + of_nat (length nos)"
proof (cases nos)
  case (Cons p ps)
  have "fold max ps p = last nos"
    using fold_max_sorted [of p ps] consecutive_bounds(1) [OF assms] by (simp add: Cons)
  also have "\<dots> = nos ! (length nos - 1)" by (simp add: last_conv_nth Cons)
  also have "\<dots> = map (\<lambda>j. a + of_nat j) [0 ..< length nos] ! (length nos - 1)"
    using assms(1) by (simp only: consecutive_from_def)
  also have "\<dots> = a + of_nat (length nos - 1)" by (simp add: Cons del: upt_Suc)
  finally show ?thesis by (simp add: next_missing_page_def Cons)
qed (simp add: next_missing_page_def)

lemma missing_pages_spec:
  assumes "a \<noteq> 0" and "unat b \<le> n" and "length bs = n * unat w"
  shows "missing_pages bs (ucast (w :: u32)) a b =
    Some (map (page_of (unat w) bs) [unat a - 1 ..< unat b])"
proof -
  have a: "unat a = Suc (unat a - 1)" using assms(1) by (simp add: unat_gt_0)
  have "map_option (\<lambda>d. \<lparr>pd_page_no = p, pd_data = d\<rparr>) (page_slice bs (ucast w) p) =
      Some (page_of (unat w) bs (unat p - 1))" if "p \<in> set (range_incl a b)" for p
  proof -
    have "p \<noteq> 0" "unat p \<le> n" using that assms(2) a by (auto simp: set_range_incl)
    then show ?thesis using page_slice_ok assms(3) by (simp add: page_of_index [simplified])
  qed
  from those_map_Some [OF this, of "range_incl a b"]
  have "missing_pages bs (ucast w) a b =
      Some (map (\<lambda>p. page_of (unat w) bs (unat p - 1)) (range_incl a b))"
    by (simp add: missing_pages_def)
  also have "map (\<lambda>p. page_of (unat w) bs (unat p - 1)) (range_incl a b) =
      map (page_of (unat w) bs) [unat a - 1 ..< unat b]"
    unfolding map_range_incl [of "\<lambda>k. page_of (unat w) bs (k - 1)"]
    by (subst a) (rule map_pred_upt)
  finally show ?thesis .
qed

lemma zip_consecutive:
  assumes "consecutive_from a nos" and "unat a = Suc m" and "length hs = length nos"
  shows "zip nos hs = map (\<lambda>i. (of_nat (Suc i), hs ! (i - m))) [m ..< m + length hs]"
proof (rule nth_equalityI)
  have nos: "nos = map (\<lambda>j. a + of_nat j) [0 ..< length nos]"
    using assms(1) by (simp only: consecutive_from_def)
  have "a = of_nat (unat a)" by simp
  then have a: "a = of_nat (Suc m)" by (simp only: assms(2))
  fix i assume "i < length (zip nos hs)"
  then have i: "i < length nos" by simp
  then have "nos ! i = a + of_nat i" by (subst nos) simp
  with i assms(3) show "zip nos hs ! i =
      map (\<lambda>i. (of_nat (Suc i), hs ! (i - m))) [m ..< m + length hs] ! i"
    by (simp add: a add.assoc)
qed (simp add: assms(3))

lemma pages_to_send_spec:
  assumes X: "rayon_ordered (rayon_of X)" and len: "length bs = unat pc * unat w"
    and g: "unat g < 67108863" and nos: "consecutive_from (g * GROUP_SIZE + 1) nos"
    and hs: "length hs = length nos" "length hs \<le> 64"
    and k: "hs = [] \<or> 64 * unat g + length hs \<le> unat pc"
  shows "pages_to_send X t bs (ucast (w :: u32)) pc alg g nos hs =
    Some (map (page_of (unat w) bs)
      (sent_indices (digests_of X) alg (unat w) bs (unat pc) (unat g) hs))"
proof -
  let ?a = "g * GROUP_SIZE + 1" and ?ps = "unat w"
  let ?P = "\<lambda>i h. hash_page_for (digests_of X) (page_at ?ps bs i) alg \<noteq> h"
  have a: "unat ?a = Suc (64 * unat g)" by (simp add: group_bounds [OF g])
  have fits: "unat ?a + length nos \<le> 4294967296" using g hs by (simp add: a)
  have in_range: "p \<noteq> 0 \<and> unat p \<le> unat pc" if "p \<in> set nos" for p
  proof -
    have "nos \<noteq> []" using that by auto
    with k hs(1) have "64 * unat g + length nos \<le> unat pc" by auto
    with consecutive_bounds(3) [OF nos fits that] a show ?thesis by auto
  qed
  have u: "unat (of_nat (Suc i) :: u32) - 1 = i" if "i < 64 * unat g + length hs" for i
    using that g hs(2) by (simp add: unat_u32_of_nat del: of_nat_Suc)
  have "map (\<lambda>(p, h). page_of ?ps bs (unat p - 1)) (filter (\<lambda>(p, h). ?P (unat p - 1) h) (zip nos hs)) =
      map (page_of ?ps bs) (filter (\<lambda>i. ?P i (hs ! (i - 64 * unat g)))
        [64 * unat g ..< 64 * unat g + length hs])"
    unfolding zip_consecutive [OF nos a hs(1)] filter_map comp_def map_map
    by (rule map_cong [OF filter_cong]) (use u in auto)
  with changed_pages_spec [OF X len in_range hs(1)]
  have changed: "changed_pages_of X t bs (ucast w) alg nos hs =
      Some (map (page_of ?ps bs) (filter (\<lambda>i. ?P i (hs ! (i - 64 * unat g)))
        [64 * unat g ..< 64 * unat g + length hs]))"
    by simp
  have nx: "unat (?a + of_nat (length nos)) = Suc (64 * unat g + length nos)"
    using g hs by (simp add: unat_u32_add unat_u32_of_nat a)
  then have "?a + of_nat (length nos) \<noteq> 0" by auto
  from missing_pages_spec [OF this, of "min ((g + 1) * GROUP_SIZE) pc" "unat pc" bs w] len nx
  have "missing_pages bs (ucast w) (?a + of_nat (length nos)) (min ((g + 1) * GROUP_SIZE) pc) =
      Some (map (page_of ?ps bs) [64 * unat g + length hs ..< min (64 * unat g + 64) (unat pc)])"
    by (simp add: group_last_page [OF g] hs(1))
  with changed next_missing_consecutive [OF nos fits] show ?thesis
    by (simp add: pages_to_send_def Let_def sent_indices_def)
qed

end
