(* ===== verification/Replica.thy ===== *)
theory Replica
  imports Origin
begin

text \<open>
  The replica's protocol handler (\<open>src/src/protocol/replica.rs\<close>): it offers its page and group
  hashes and writes the pages the origin sends. The handler's result is the connection,
  whose file the page writes change, and an outcome of \<open>()\<close>.
\<close>

type_synonym replica_proc = "(message, sync_error, connection \<times> unit outcome) proc"

definition replica_protocol_violation :: "connection \<Rightarrow> string \<Rightarrow> replica_proc" where
  "replica_protocol_violation conn m =
     Send (Error m) (\<lambda>_. Ret (conn, Failed (Protocol m)))"

section \<open>Hashing the replica\<close>

definition replica_page_hashes ::
  "extern \<Rightarrow> sync_tuning \<Rightarrow> hash_algorithm \<Rightarrow> bytes \<Rightarrow> usize \<Rightarrow> u32 \<Rightarrow> page_hash list option" where
  "replica_page_hashes X t alg bs psz rpc =
     (let f = (\<lambda>page_idx.
            let offset = of_nat page_idx * psz
            in map_option (\<lambda>d. hash_page_for (digests_of X) d alg)
                 (slice bs offset (offset + psz)))
      in compute_with_parallelism (rayon_of X) t rpc
           (\<lambda>_. par_hashes (rayon_of X) f [0 ..< unat rpc])
           (\<lambda>_. those (map f [0 ..< unat rpc])))"

definition replica_group_hash ::
  "digests \<Rightarrow> hash_algorithm \<Rightarrow> page_hash list \<Rightarrow> u32 \<Rightarrow> nat \<Rightarrow> page_hash option" where
  "replica_group_hash D alg hashes rpc g =
     (let first_page = of_nat g * GROUP_SIZE + 1 :: u32;
          last_page = min ((of_nat g + 1) * GROUP_SIZE) rpc;
          start_idx = ucast first_page - 1;
          end_idx = ucast last_page
      in map_option (\<lambda>hs. hash_group_for D hs alg) (slice hashes start_idx end_idx))"

definition replica_group_chunk ::
  "extern \<Rightarrow> sync_tuning \<Rightarrow> hash_algorithm \<Rightarrow> page_hash list \<Rightarrow> u32 \<Rightarrow> nat \<Rightarrow> nat \<Rightarrow> nat \<Rightarrow>
     page_hash list option" where
  "replica_group_chunk X t alg hashes rpc num_groups groups_per_chunk chunk_start =
     (let chunk_end = min (chunk_start + groups_per_chunk) num_groups;
          pages_in_chunk = of_nat (chunk_end - chunk_start) * GROUP_SIZE;
          f = replica_group_hash (digests_of X) alg hashes rpc
      in compute_with_parallelism (rayon_of X) t pages_in_chunk
           (\<lambda>_. par_hashes (rayon_of X) f [chunk_start ..< chunk_end])
           (\<lambda>_. those (map f [chunk_start ..< chunk_end])))"

definition replica_group_hashes ::
  "extern \<Rightarrow> sync_tuning \<Rightarrow> hash_algorithm \<Rightarrow> page_hash list \<Rightarrow> u32 \<Rightarrow> page_hash list option" where
  "replica_group_hashes X t alg hashes rpc =
     (let num_groups = unat (max (div_ceil rpc GROUP_SIZE) 1);
          groups_per_chunk = unat (max (hash_chunk_groups t) 1)
      in map_option concat
           (those (map (replica_group_chunk X t alg hashes rpc num_groups groups_per_chunk)
                     (step_by num_groups groups_per_chunk))))"

section \<open>Fine pass\<close>

text \<open>The page numbers and hashes sent for a group; none when it lies beyond the replica.\<close>

definition group_page_nos :: "u32 \<Rightarrow> u32 \<Rightarrow> u32 list" where
  "group_page_nos rpc group_idx =
     (let first_page = group_idx * GROUP_SIZE + 1;
          last_page = min ((group_idx + 1) * GROUP_SIZE) rpc
      in if first_page \<le> rpc then range_incl first_page last_page else [])"

definition group_page_hashes :: "page_hash list \<Rightarrow> u32 list \<Rightarrow> page_hash list option" where
  "group_page_hashes hashes page_nos =
     those (map (\<lambda>p. let i = unat (ucast p - 1 :: usize)
                     in if i < length hashes then Some (hashes ! i) else None) page_nos)"

definition page_list :: "page_data list \<Rightarrow> (u32 \<times> bytes) list" where
  "page_list pages = map (\<lambda>p. (pd_page_no p, pd_data p)) pages"

primrec replica_fine ::
  "u32 \<Rightarrow> page_hash list \<Rightarrow> u32 list \<Rightarrow> connection \<Rightarrow> replica_proc" where
  "replica_fine rpc hashes [] = (\<lambda>conn.
     recv_or (\<lambda>e. (conn, Failed e)) (\<lambda>m.
       if m \<noteq> Done then replica_protocol_violation conn ''expected Done after fine pass''
       else Ret (conn, Returned ())))"
| "replica_fine rpc hashes (g # gs) = (\<lambda>conn.
     let page_nos = group_page_nos rpc g in
     case group_page_hashes hashes page_nos of
       None \<Rightarrow> Ret (conn, Panicked)
     | Some hs \<Rightarrow>
         send_or (\<lambda>e. (conn, Failed e)) (PageHashes page_nos hs)
           (recv_or (\<lambda>e. (conn, Failed e)) (\<lambda>msg. case msg of
               SendPages pages \<Rightarrow>
                 (case write_all write_page conn (page_list pages) of
                    (conn', Inl e) \<Rightarrow> Ret (conn', Failed e)
                  | (conn', Inr _) \<Rightarrow>
                      send_or (\<lambda>e. (conn', Failed e)) (PagesAck (map pd_page_no pages))
                        (replica_fine rpc hashes gs conn'))
             | Done \<Rightarrow>
                 if length gs > 0 then
                   replica_protocol_violation conn
                     (''origin sent Done mid-fine-pass with '' @ show_nat (length gs) @
                      '' group(s) still pending'')
                 else Ret (conn, Returned ())
             | Error m \<Rightarrow> Ret (conn, Failed (Protocol m))
             | _ \<Rightarrow> replica_protocol_violation conn
                     (''expected SendPages or Done, got '' @ debug_message msg))))"

section \<open>The handler\<close>

definition replica_need_fine ::
  "u32 \<Rightarrow> page_hash list \<Rightarrow> connection \<Rightarrow> replica_proc" where
  "replica_need_fine rpc hashes conn =
     recv_or (\<lambda>e. (conn, Failed e)) (\<lambda>msg. case msg of
         GroupsNeedFine need_fine \<Rightarrow>
           if need_fine = [] then
             recv_or (\<lambda>e. (conn, Failed e)) (\<lambda>m.
               if m \<noteq> Done then
                 replica_protocol_violation conn ''expected Done after empty GroupsNeedFine''
               else Ret (conn, Returned ()))
           else replica_fine rpc hashes need_fine conn
       | Error m \<Rightarrow> Ret (conn, Failed (Protocol m))
       | _ \<Rightarrow> replica_protocol_violation conn
               (''expected GroupsNeedFine, got '' @ debug_message msg))"

definition replica_coarse ::
  "extern \<Rightarrow> sync_tuning \<Rightarrow> hash_algorithm \<Rightarrow> u32 \<Rightarrow> connection \<Rightarrow> replica_proc" where
  "replica_coarse X t alg rpc conn =
     (case (if rpc = 0 then Inr [] else serialize conn) of
        Inl e \<Rightarrow> Ret (conn, Failed e)
      | Inr bs \<Rightarrow>
          (case replica_page_hashes X t alg bs (ucast (conn_page_size conn)) rpc of
             None \<Rightarrow> Ret (conn, Panicked)
           | Some hashes \<Rightarrow>
               (case replica_group_hashes X t alg hashes rpc of
                  None \<Rightarrow> Ret (conn, Panicked)
                | Some group_hashes \<Rightarrow>
                    send_or (\<lambda>e. (conn, Failed e)) (GroupHashes 0 group_hashes)
                      (replica_need_fine rpc hashes conn))))"

definition replica_run_with_tuning ::
  "extern \<Rightarrow> sync_tuning \<Rightarrow> connection \<Rightarrow> replica_proc" where
  "replica_run_with_tuning X t conn =
     (case page_count conn of
        Inl e \<Rightarrow> Ret (conn, Failed e)
      | Inr rpc \<Rightarrow>
          send_or (\<lambda>e. (conn, Failed e)) (Hello PROTOCOL_VERSION (conn_page_size conn) rpc)
            (recv_or (\<lambda>e. (conn, Failed e)) (\<lambda>ack. case ack of
                HelloAck version _ _ \<Rightarrow>
                  if version = 0 \<or> version > PROTOCOL_VERSION then
                    Ret (conn, Failed (Protocol (''invalid negotiated protocol version '' @
                      show_word version)))
                  else
                    (case from_protocol_version version of
                       None \<Rightarrow> Ret (conn, Failed (Protocol
                         (''unsupported negotiated protocol version '' @ show_word version)))
                     | Some alg \<Rightarrow> replica_coarse X t alg rpc conn)
              | Error m \<Rightarrow> Ret (conn, Failed (Protocol m))
              | _ \<Rightarrow> replica_protocol_violation conn
                      (''expected HelloAck, got '' @ debug_message ack))))"

definition replica_run ::
  "extern \<Rightarrow> (string \<Rightarrow> string option) \<Rightarrow> connection \<Rightarrow> replica_proc" where
  "replica_run X env conn = replica_run_with_tuning X (from_env env) conn"

section \<open>What the replica sends\<close>

lemma replica_page_hashes_spec:
  assumes "rayon_ordered (rayon_of X)" and "unat rpc * unat w \<le> length bs"
  shows "replica_page_hashes X t alg bs (ucast (w :: u32)) rpc =
    Some (map (\<lambda>i. hash_page_for (digests_of X) (page_at (unat w) bs i) alg) [0 ..< unat rpc])"
proof -
  let ?f = "\<lambda>i. let offset = of_nat i * ucast w
    in map_option (\<lambda>d. hash_page_for (digests_of X) d alg) (slice bs offset (offset + ucast w))"
  have "?f i = Some (hash_page_for (digests_of X) (page_at (unat w) bs i) alg)"
    if "i \<in> set [0 ..< unat rpc]" for i
  proof -
    have i: "i < unat rpc" "i < 4294967296" using that unat_u32_bound [of rpc] by auto
    have "i * unat w + unat w \<le> length bs" using page_index_bound [OF i(1), of "unat w"] assms(2) by simp
    moreover have b: "i * unat w \<le> 4294967295 * 4294967295"
      using i(2) unat_u32_bound [of w] by (intro mult_le_mono) auto
    then have off: "unat (of_nat i * ucast w :: usize) = i * unat w"
      using i(2) by (simp add: unat_u64_mult unat_u64_of_nat)
    moreover have "unat (of_nat i * ucast w + ucast w :: usize) = i * unat w + unat w"
      using off b unat_u32_bound [of w] by (simp add: unat_u64_add)
    ultimately show ?thesis
      by (simp add: Let_def slice_def word_le_nat_alt page_at_def)
  qed
  from those_map_Some [of "[0 ..< unat rpc]" ?f, OF this] assms(1) show ?thesis
    by (simp add: replica_page_hashes_def compute_same rayon_ordered_def Let_def)
qed

text \<open>Chunking and parallel hashing of the groups change nothing either.\<close>

lemma concat_upt_chunks:
  assumes "k > 0"
  shows "concat (map (\<lambda>s. [s ..< min (s + k) n]) (step_by n k)) = [0 ..< n]"
proof -
  have "take (min (s + k) n - s) (drop s [0 ..< n]) = [s ..< min (s + k) n]" for s
    by (cases "s + k \<le> n") (simp_all add: min_def)
  with concat_chunks [OF assms, of n "[0 ..< n]"] show ?thesis by simp
qed

lemma replica_groups_serial:
  assumes "rayon_ordered (rayon_of X)"
  shows "replica_group_hashes X t alg hashes rpc =
    those (map (replica_group_hash (digests_of X) alg hashes rpc)
      [0 ..< unat (max (div_ceil rpc GROUP_SIZE) 1)])"
proof -
  let ?n = "unat (max (div_ceil rpc GROUP_SIZE) 1)"
  let ?k = "unat (max (hash_chunk_groups t) 1)"
  let ?f = "replica_group_hash (digests_of X) alg hashes rpc"
  have k: "?k > 0" by simp
  have "replica_group_chunk X t alg hashes rpc ?n ?k =
      (\<lambda>s. those (map ?f [s ..< min (s + ?k) ?n]))"
    using assms by (intro ext) (simp add: replica_group_chunk_def Let_def compute_same rayon_ordered_def)
  then show ?thesis
    unfolding replica_group_hashes_def Let_def
    by (simp only: those_map_chunks concat_upt_chunks [OF k])
qed

lemma group_index_bound:
  assumes "g < max ((n + 63) div 64) 1" and "(n :: nat) \<le> 4294967232"
  shows "g < 67108863" and "64 * g \<le> n"
proof -
  have "64 * g \<le> n \<and> g < 67108863"
  proof (cases "g < (n + 63) div 64")
    case True
    then have "64 * Suc g \<le> 64 * ((n + 63) div 64)" by (intro mult_le_mono2) simp
    also have "\<dots> \<le> n + 63" by (rule times_div_less_eq_dividend)
    finally have "64 * g + 1 \<le> n" by simp
    then show ?thesis using assms(2) by simp
  next
    case False
    with assms(1) have "g = 0" by (auto simp: less_max_iff_disj)
    then show ?thesis by simp
  qed
  then show "g < 67108863" "64 * g \<le> n" by simp_all
qed

lemma replica_group_hash_spec:
  assumes "unat rpc \<le> 4294967232" and g: "g < max ((unat rpc + 63) div 64) 1"
  shows "replica_group_hash D alg
      (map (\<lambda>i. hash_page_for D (page_at ps bs i) alg) [0 ..< unat rpc]) rpc g =
    Some (group_digest D alg ps bs (unat rpc) g)"
proof -
  note gb = group_index_bound [OF g assms(1)]
  have u: "unat (of_nat g :: u32) = g" using gb by (simp add: unat_u32_of_nat)
  then have gw: "unat (of_nat g :: u32) < 67108863" using gb by simp
  have "(1 :: usize) \<le> ucast (of_nat g * GROUP_SIZE + 1 :: u32)"
    by (simp add: word_le_nat_alt group_first_page [OF gw])
  then have s: "unat (ucast (of_nat g * GROUP_SIZE + 1 :: u32) - 1 :: usize) = 64 * g"
    by (simp add: unat_word_sub group_first_page [OF gw] u)
  have e: "unat (ucast (min ((of_nat g + 1) * GROUP_SIZE) rpc) :: usize) =
      min (64 * g + 64) (unat rpc)"
    by (simp add: group_last_page [OF gw] u)
  have "take (min (64 * g + 64) (unat rpc) - 64 * g) (drop (64 * g) [0 ..< unat rpc]) =
      [64 * g ..< min (64 * g + 64) (unat rpc)]"
    using gb(2) by (cases "64 * g + 64 \<le> unat rpc") simp_all
  then show ?thesis
    using gb(2)
    by (simp add: replica_group_hash_def Let_def slice_def word_le_nat_alt s e drop_map take_map
        group_digest_def group_pages_def comp_def del: unat_ucast_u32_u64)
qed

lemma replica_group_hashes_spec:
  assumes "rayon_ordered (rayon_of X)" and "unat rpc \<le> 4294967232"
  shows "replica_group_hashes X t alg
      (map (\<lambda>i. hash_page_for (digests_of X) (page_at ps bs i) alg) [0 ..< unat rpc]) rpc =
    Some (map (group_digest (digests_of X) alg ps bs (unat rpc)) [0 ..< max ((unat rpc + 63) div 64) 1])"
  unfolding replica_groups_serial [OF assms(1)]
  by (rule trans [OF those_map_Some])
     (use replica_group_hash_spec [OF assms(2)] in \<open>auto simp: unat_div_ceil_group\<close>)

text \<open>The page list of a group: the replica's pages of it, in order.\<close>

lemma group_page_nos_spec:
  assumes g: "unat g < 67108863"
  shows "consecutive_from (g * GROUP_SIZE + 1) (group_page_nos rpc g)"
    and "length (group_page_nos rpc g) = min (64 * unat g + 64) (unat rpc) - 64 * unat g"
    and "map (\<lambda>p. f (unat p - 1)) (group_page_nos rpc g) =
      map f [64 * unat g ..< min (64 * unat g + 64) (unat rpc)]"
proof -
  let ?a = "g * GROUP_SIZE + 1" and ?b = "min ((g + 1) * GROUP_SIZE) rpc"
  have a: "unat ?a = Suc (64 * unat g)" by (simp add: group_bounds [OF g])
  have b: "unat ?b = min (64 * unat g + 64) (unat rpc)" by (simp add: group_bounds [OF g])
  have nos: "group_page_nos rpc g = range_incl ?a ?b"
  proof (cases "?a \<le> rpc")
    case False
    then have "unat rpc < unat ?a" by (simp add: word_le_nat_alt)
    then show ?thesis using False a b by (simp add: group_page_nos_def Let_def range_incl_def)
  qed (simp add: group_page_nos_def)
  show "map (\<lambda>p. f (unat p - 1)) (group_page_nos rpc g) =
      map f [64 * unat g ..< min (64 * unat g + 64) (unat rpc)]"
    unfolding nos by (rule map_group_range [OF g])
  then have "length (map (\<lambda>p. f (unat p - 1)) (group_page_nos rpc g)) =
      length [64 * unat g ..< min (64 * unat g + 64) (unat rpc)]" by simp
  then show "length (group_page_nos rpc g) = min (64 * unat g + 64) (unat rpc) - 64 * unat g"
    by simp
  have "range_incl ?a ?b = map (\<lambda>j. ?a + of_nat j) [0 ..< length (range_incl ?a ?b)]"
  proof (rule nth_equalityI)
    fix j assume "j < length (range_incl ?a ?b)"
    then have "j < length [unat ?a ..< Suc (unat ?b)]" by (simp add: range_incl_def del: upt_Suc)
    then have "range_incl ?a ?b ! j = of_nat (unat ?a + j)"
      unfolding range_incl_def by (subst nth_map) (simp_all del: upt_Suc)
    moreover have "of_nat (unat ?a + j) = ?a + of_nat j" by simp
    ultimately show "range_incl ?a ?b ! j =
        map (\<lambda>j. ?a + of_nat j) [0 ..< length (range_incl ?a ?b)] ! j"
      using \<open>j < length (range_incl ?a ?b)\<close> by (simp only: nth_map length_upt nth_upt) simp
  qed simp
  then show "consecutive_from ?a (group_page_nos rpc g)"
    unfolding nos consecutive_from_def .
qed

lemma group_page_hashes_spec:
  assumes g: "unat g < 67108863"
  shows "group_page_hashes (map h [0 ..< unat rpc]) (group_page_nos rpc g) =
    Some (map h [64 * unat g ..< min (64 * unat g + 64) (unat rpc)])"
proof -
  let ?nos = "group_page_nos rpc g"
  let ?f = "\<lambda>p. let i = unat (ucast p - 1 :: usize)
    in if i < length (map h [0 ..< unat rpc]) then Some (map h [0 ..< unat rpc] ! i) else None"
  have "?f p = Some (h (unat p - 1))" if p: "p \<in> set ?nos" for p
  proof -
    have "unat p - 1 \<in> set (map (\<lambda>p. unat p - 1) ?nos)" using p by auto
    then have "unat p - 1 < unat rpc"
      using group_page_nos_spec(3) [OF g, of "\<lambda>i. i" rpc] by (simp only:) auto
    moreover have "unat (g * GROUP_SIZE + 1) + length ?nos \<le> 4294967296"
      using g by (simp add: group_bounds [OF g] group_page_nos_spec(2) [OF g])
    from consecutive_bounds(3) [OF group_page_nos_spec(1) [OF g] this p]
    have "1 \<le> (ucast p :: usize)" by (simp add: word_le_nat_alt group_bounds [OF g])
    then have "unat (ucast p - 1 :: usize) = unat p - 1" by (simp add: unat_word_sub)
    ultimately show ?thesis by (simp add: Let_def)
  qed
  from those_map_Some [of ?nos ?f, OF this] show ?thesis
    by (simp only: group_page_hashes_def group_page_nos_spec(3) [OF g, of h])
qed

end
