(* ===== verification/Sync.thy ===== *)
theory Sync
  imports Replica
begin

text \<open>
  Synchronisation of two databases: the entry points of \<open>src/src/lib.rs\<close>, and the theorem
  that the two handlers, whatever the interleaving of their steps, end with the replica's
  file equal to the origin's snapshot, after a number of steps that depends only on how many
  groups differ.
\<close>

section \<open>Entry points\<close>

definition sync_system ::
  "extern \<Rightarrow> sync_tuning \<Rightarrow> snapshot \<Rightarrow> connection \<Rightarrow>
     (message, sync_error, unit outcome, connection \<times> unit outcome) system" where
  "sync_system X t snap conn =
     pair_of (origin_run_with_tuning X t snap) (replica_run_with_tuning X t conn)"

text \<open>
  The result of the joined handlers once no step is left: a panic of either unwinds the
  task; a handler that still waits makes the timeout expire; otherwise the origin's error,
  the replica's error and the commit are looked at in this order.
\<close>

definition join_result ::
  "snapshot \<Rightarrow> (message, sync_error, unit outcome, connection \<times> unit outcome) system \<Rightarrow>
     unit outcome" where
  "join_result snap s =
     (case (left s, right s) of
        (Ret Panicked, _) \<Rightarrow> Panicked
      | (_, Ret (_, Panicked)) \<Rightarrow> Panicked
      | (Ret (Failed e), Ret _) \<Rightarrow> Failed e
      | (Ret (Returned _), Ret (_, Failed e)) \<Rightarrow> Failed e
      | (Ret (Returned _), Ret (_, Returned _)) \<Rightarrow>
          (case snapshot_commit snap of Inl e \<Rightarrow> Failed e | Inr _ \<Rightarrow> Returned ())
      | _ \<Rightarrow> Failed (Protocol ''local sync timed out''))"

definition replica_conn_of ::
  "(message, sync_error, unit outcome, connection \<times> unit outcome) system \<Rightarrow> connection option" where
  "replica_conn_of s = (case right s of Ret (conn, _) \<Rightarrow> Some conn | _ \<Rightarrow> None)"

text \<open>
  \<open>sync_local_with_tuning\<close>. The two paths enter as what opening them finds. The result is the
  replica's connection as its handler left it, when it returned, and the outcome of the call.
\<close>

definition sync_local_with_tuning ::
  "extern \<Rightarrow> open_env \<Rightarrow> open_env \<Rightarrow> sync_tuning \<Rightarrow> connection option \<times> unit outcome" where
  "sync_local_with_tuning X origin_env replica_env t =
     (case open_connection origin_env SQLITE_OPEN_READONLY of
        Inl e \<Rightarrow> (None, Failed e)
      | Inr origin_conn \<Rightarrow>
          (case open_connection replica_env (SQLITE_OPEN_READWRITE + SQLITE_OPEN_CREATE) of
             Inl e \<Rightarrow> (None, Failed e)
           | Inr replica_conn \<Rightarrow>
               (case snapshot_begin origin_conn of
                  Inl e \<Rightarrow> (Some replica_conn, Failed e)
                | Inr snap \<Rightarrow>
                    (let s = run_sys (sync_system X t snap replica_conn)
                     in (replica_conn_of s, join_result snap s)))))"

definition sync_local ::
  "extern \<Rightarrow> (string \<Rightarrow> string option) \<Rightarrow> open_env \<Rightarrow> open_env \<Rightarrow>
     connection option \<times> unit outcome" where
  "sync_local X env origin_env replica_env =
     sync_local_with_tuning X origin_env replica_env (from_env env)"

text \<open>
  The remote forms run one handler on a transport. What the transport does is a script: the
  result of connecting, of each send, of each receive and of closing. \<open>None\<close> is a call that
  still waits when the script ends.
\<close>

definition finish :: "unit outcome \<Rightarrow> unit res \<Rightarrow> unit res \<Rightarrow> unit outcome" where
  "finish run_result close_result commit_result =
     (case run_result of
        Panicked \<Rightarrow> Panicked
      | Failed e \<Rightarrow> Failed e
      | Returned _ \<Rightarrow>
          (case close_result of
             Inl e \<Rightarrow> Failed e
           | Inr _ \<Rightarrow> (case commit_result of Inl e \<Rightarrow> Failed e | Inr _ \<Rightarrow> Returned ())))"

record script =
  connect_reply :: "unit res"
  send_replies :: "sync_error option list"
  recv_replies :: "message res list"
  close_reply :: "unit res"

definition push_sync_with_tuning ::
  "extern \<Rightarrow> open_env \<Rightarrow> script \<Rightarrow> sync_tuning \<Rightarrow> unit outcome option" where
  "push_sync_with_tuning X origin_env tr t =
     (case open_connection origin_env SQLITE_OPEN_READONLY of
        Inl e \<Rightarrow> Some (Failed e)
      | Inr origin_conn \<Rightarrow>
          (case snapshot_begin origin_conn of
             Inl e \<Rightarrow> Some (Failed e)
           | Inr snap \<Rightarrow>
               (case connect_reply tr of
                  Inl e \<Rightarrow> Some (Failed e)
                | Inr _ \<Rightarrow>
                    map_option (\<lambda>r. finish r (close_reply tr) (snapshot_commit snap))
                      (snd (drive_io (origin_run_with_tuning X t snap) (send_replies tr)
                              (recv_replies tr))))))"

definition pull_sync_with_tuning ::
  "extern \<Rightarrow> open_env \<Rightarrow> script \<Rightarrow> sync_tuning \<Rightarrow> (connection option \<times> unit outcome) option" where
  "pull_sync_with_tuning X replica_env tr t =
     (case open_connection replica_env (SQLITE_OPEN_READWRITE + SQLITE_OPEN_CREATE) of
        Inl e \<Rightarrow> Some (None, Failed e)
      | Inr replica_conn \<Rightarrow>
          (case connect_reply tr of
             Inl e \<Rightarrow> Some (Some replica_conn, Failed e)
           | Inr _ \<Rightarrow>
               map_option (\<lambda>(conn, r). (Some conn, finish r (close_reply tr) (Inr ())))
                 (snd (drive_io (replica_run_with_tuning X t replica_conn) (send_replies tr)
                         (recv_replies tr)))))"

definition normalize_grpc_url :: "string \<Rightarrow> string" where
  "normalize_grpc_url url =
     (case strip_prefix ''grpcs://'' url of
        Some rest \<Rightarrow> ''https://'' @ rest
      | None \<Rightarrow>
          (case strip_prefix ''grpc://'' url of
             Some rest \<Rightarrow> ''http://'' @ rest
           | None \<Rightarrow> url))"

section \<open>Databases that can be synchronised\<close>

text \<open>
  What SQLite reports of the connection is its file of \<open>n\<close> pages: no other writer is active and
  nothing waits in a write-ahead log.
\<close>

definition quiescent :: "connection \<Rightarrow> u32 \<Rightarrow> bool" where
  "quiescent c n \<longleftrightarrow>
     page_count c = Inr n \<and> (n \<noteq> 0 \<longrightarrow> serialize c = Inr (db_file c)) \<and>
     length (db_file c) = unat n * unat (conn_page_size c)"

definition whole_pages :: "snapshot \<Rightarrow> bool" where
  "whole_pages snap \<longleftrightarrow>
     snap_page_size snap \<noteq> 0 \<and>
     length (snap_bytes snap) = unat (snap_page_count snap) * unat (snap_page_size snap)"

text \<open>No collision among the pages and the groups that two databases have at the same place.\<close>

definition no_collision ::
  "digests \<Rightarrow> hash_algorithm \<Rightarrow> nat \<Rightarrow> bytes \<Rightarrow> nat \<Rightarrow> bytes \<Rightarrow> nat \<Rightarrow> bool" where
  "no_collision D alg ps T n R m \<longleftrightarrow>
     separates D alg ((\<lambda>i. (page_at ps T i, page_at ps R i)) ` {..< min n m})
       ((\<lambda>g. (group_pages ps T n g, group_pages ps R m g)) ` {..< (max n m + 63) div 64})"

lemma no_collision_page:
  "no_collision D alg ps T n R m \<Longrightarrow> i < n \<Longrightarrow> i < m \<Longrightarrow>
   hash_page_for D (page_at ps T i) alg = hash_page_for D (page_at ps R i) alg \<longleftrightarrow>
   page_at ps T i = page_at ps R i"
  unfolding no_collision_def by (erule separates_page) simp

lemma no_collision_group:
  "no_collision D alg ps T n R m \<Longrightarrow> g < (max n m + 63) div 64 \<Longrightarrow>
   group_digest D alg ps T n g = group_digest D alg ps R m g \<longleftrightarrow>
   group_pages ps T n g = group_pages ps R m g"
  unfolding no_collision_def group_digest_def by (erule separates_group) simp

text \<open>
  The setting of the theorems: the pool keeps the order, the snapshot and the replica consist
  of whole pages of the same size, the replica is writable, no page number wraps, and the
  digest has no collision on the pages and groups that the two databases have at the same place.
\<close>

definition sync_setting ::
  "extern \<Rightarrow> hash_algorithm \<Rightarrow> snapshot \<Rightarrow> connection \<Rightarrow> u32 \<Rightarrow> bool" where
  "sync_setting X alg snap c rpc \<longleftrightarrow>
     rayon_ordered (rayon_of X) \<and> whole_pages snap \<and> quiescent c rpc \<and> conn_ready c \<and>
     conn_page_size c = snap_page_size snap \<and>
     unat (snap_page_count snap) \<le> 4294967232 \<and> unat rpc \<le> 4294967232 \<and>
     no_collision (digests_of X) alg (unat (snap_page_size snap)) (snap_bytes snap)
       (unat (snap_page_count snap)) (db_file c) (unat rpc)"

section \<open>One group\<close>

abbreviation page_hashes_of :: "extern \<Rightarrow> hash_algorithm \<Rightarrow> nat \<Rightarrow> bytes \<Rightarrow> nat \<Rightarrow> page_hash list" where
  "page_hashes_of X alg ps bs n \<equiv>
     map (\<lambda>i. hash_page_for (digests_of X) (page_at ps bs i) alg) [0 ..< n]"

text \<open>A connection on the way from its first image to the target: writable, not beyond the target.\<close>

definition towards :: "u32 \<Rightarrow> nat \<Rightarrow> connection \<Rightarrow> bool" where
  "towards w n c \<longleftrightarrow>
     conn_ready c \<and> conn_page_size c = w \<and> length (db_file c) \<le> n * unat w"

lemma page_list_page_of:
  "page_list (map (page_of ps bs) is) = map (\<lambda>i. (of_nat (Suc i), page_at ps bs i)) is"
  by (simp add: page_list_def page_of_def)

lemma apply_pages:
  assumes "towards w N c" and "length T = n * unat w" and "n \<le> 4294967295" and "n \<le> N"
    and "\<forall>i \<in> set is. i < n"
  shows "\<exists>c'. write_all write_page c (page_list (map (page_of (unat w) T) is)) = (c', Inr ()) \<and>
    towards w N c' \<and>
    (\<forall>i. i \<in> set is \<or> agrees (unat w) T (db_file c) i \<longrightarrow> agrees (unat w) T (db_file c') i)"
proof -
  have u: "unat (of_nat (Suc i) :: u32) = Suc i" if "i < n" for i
    using that assms(3) by (simp add: unat_u32_of_nat del: of_nat_Suc)
  let ?pages = "map (\<lambda>i. (of_nat (Suc i) :: u32, page_at (unat w) T i)) is"
  have c: "conn_ready c" "length (db_file c) \<le> N * unat (conn_page_size c)" "conn_page_size c = w"
    using assms(1) by (auto simp: towards_def)
  have "\<forall>(no, d) \<in> set ?pages. no \<noteq> 0 \<and> unat no \<le> N \<and> length d = unat (conn_page_size c) \<and>
      d = page_at (unat (conn_page_size c)) T (unat no - 1)"
    using assms u length_page_at [OF _ assms(2)]
    by (fastforce simp: c unat_eq_0 [symmetric] simp del: of_nat_Suc)
  from conn.write_all_towards [OF c(1,2) this]
  obtain c' where c': "write_all write_page c ?pages = (c', Inr ())" "towards w N c'"
    "\<forall>i. (\<exists>(no, d) \<in> set ?pages. i = unat no - 1) \<or> agrees (unat w) T (db_file c) i \<longrightarrow>
      agrees (unat w) T (db_file c') i"
    unfolding c(3) towards_def word_unat_eq_iff [of "conn_page_size _" w] by blast
  have "\<exists>(no, d) \<in> set ?pages. i = unat no - 1" if "i \<in> set is" for i
    using that assms(5) u [of i] by (auto simp del: of_nat_Suc intro!: bexI [of _ i])
  with c' show ?thesis by (auto simp: page_list_page_of simp del: of_nat_Suc)
qed

lemma sent_indices_bound:
  "hs = [] \<or> 64 * g + length hs \<le> n \<Longrightarrow> i \<in> set (sent_indices D alg ps bs n g hs) \<Longrightarrow> i < n"
  by (auto simp: sent_indices_def)

lemma sent_indices_distinct: "distinct (sent_indices D alg ps bs n g hs)"
  by (auto simp: sent_indices_def)

lemma sent_page_nos_distinct:
  assumes "\<forall>i \<in> set is. i < n" and "n \<le> 4294967295" and "distinct is"
  shows "distinct (map pd_page_no (map (page_of ps bs) is))"
proof -
  have "inj_on (\<lambda>i. of_nat (Suc i) :: u32) (set is)"
  proof (rule inj_onI)
    fix i j assume ij: "i \<in> set is" "j \<in> set is" "(of_nat (Suc i) :: u32) = of_nat (Suc j)"
    from ij(1,2) assms(1,2) have "Suc i < 4294967296" "Suc j < 4294967296" by fastforce+
    with ij(3) show "i = j" by (metis unat_u32_of_nat nat.inject)
  qed
  with assms(3) show ?thesis
    by (simp add: distinct_map page_of_def comp_def del: of_nat_Suc)
qed

text \<open>Group \<open>g\<close> is dealt with: its pages agree, or had equal hashes in the first image \<open>R\<close> of \<open>m\<close> pages.\<close>

definition settled ::
  "digests \<Rightarrow> hash_algorithm \<Rightarrow> nat \<Rightarrow> bytes \<Rightarrow> nat \<Rightarrow> bytes \<Rightarrow> nat \<Rightarrow> bytes \<Rightarrow> nat \<Rightarrow> bool" where
  "settled D alg ps T n R m f g \<longleftrightarrow>
     (\<forall>i. 64 * g \<le> i \<and> i < min (64 * g + 64) n \<longrightarrow>
        agrees ps T f i \<or>
        i < m \<and> hash_page_for D (page_at ps T i) alg = hash_page_for D (page_at ps R i) alg)"

lemma settled_mono:
  "settled D alg ps T n R m f g \<Longrightarrow> (\<And>i. agrees ps T f i \<Longrightarrow> agrees ps T f' i) \<Longrightarrow>
   settled D alg ps T n R m f' g"
  unfolding settled_def by blast

text \<open>The exchange about one group: the replica's hashes, the pages, the acknowledgement.\<close>

lemma group_exchange:
  assumes X: "rayon_ordered (rayon_of X)" and T: "length T = unat pc * unat w"
    and bounds: "unat pc \<le> 4294967232" "unat pc \<le> N" "g < 67108863"
    and inside: "unat rpc \<le> 64 * g \<or> min (64 * g + 64) (unat rpc) \<le> unat pc"
    and c: "towards w N c"
  shows "\<exists>c'. counted (pair_of (origin_group X t T (ucast w) pc alg (of_nat g) k)
       (replica_fine rpc (page_hashes_of X alg (unat w) R (unat rpc)) (of_nat g # gs) c)) =
     later 6 (counted (pair_of k (replica_fine rpc (page_hashes_of X alg (unat w) R (unat rpc)) gs c'))) \<and>
     towards w N c' \<and>
     (\<forall>i. agrees (unat w) T (db_file c) i \<longrightarrow> agrees (unat w) T (db_file c') i) \<and>
     settled (digests_of X) alg (unat w) T (unat pc) R (unat rpc) (db_file c') g"
proof -
  let ?g = "of_nat g :: u32" and ?h = "\<lambda>i. hash_page_for (digests_of X) (page_at (unat w) R i) alg"
  let ?nos = "group_page_nos rpc ?g" and ?m = "min (64 * g + 64) (unat rpc)"
  let ?hs = "map ?h [64 * g ..< ?m]"
  let ?is = "sent_indices (digests_of X) alg (unat w) T (unat pc) g ?hs"
  let ?pages = "map (page_of (unat w) T) ?is"
  have u: "unat ?g = g" using bounds(3) by (simp add: unat_u32_of_nat)
  then have gb: "unat ?g < 67108863" using bounds(3) by simp
  note nos = group_page_nos_spec(1,2) [OF gb, where rpc = rpc, unfolded u]
  have len: "length ?hs = length ?nos" "length ?hs \<le> 64" by (simp_all add: nos(2))
  have k: "?hs = [] \<or> 64 * g + length ?hs \<le> unat pc" using inside by auto
  have "validate_page_hashes_for_group ?nos ?hs ?g = Inr ()"
    using nos(1) len by (simp add: validate_page_hashes_iff [OF gb])
  moreover have "group_page_hashes (page_hashes_of X alg (unat w) R (unat rpc)) ?nos = Some ?hs"
    using group_page_hashes_spec [OF gb, of ?h rpc] by (simp add: u)
  moreover have "pages_to_send X t T (ucast w) pc alg ?g ?nos ?hs = Some ?pages"
    using pages_to_send_spec [OF X T gb nos(1) len] k by (simp add: u)
  moreover have is_bound: "\<forall>i \<in> set ?is. i < unat pc" using sent_indices_bound [OF k] by blast
  then have "validate_pages_ack (hashset_debug X) (map pd_page_no ?pages) (map pd_page_no ?pages) =
      Inr ()"
    using sent_page_nos_distinct [OF _ _ sent_indices_distinct] bounds(1)
    by (simp only: validate_pages_ack_iff)
  moreover obtain c' where c': "write_all write_page c (page_list ?pages) = (c', Inr ())"
    "towards w N c'" "\<forall>i. i \<in> set ?is \<or> agrees (unat w) T (db_file c) i \<longrightarrow>
      agrees (unat w) T (db_file c') i"
    using apply_pages [OF c T _ bounds(2) is_bound] bounds(1) by auto
  ultimately have "counted (pair_of (origin_group X t T (ucast w) pc alg ?g k)
       (replica_fine rpc (page_hashes_of X alg (unat w) R (unat rpc)) (?g # gs) c)) =
     later 6 (counted (pair_of k (replica_fine rpc (page_hashes_of X alg (unat w) R (unat rpc)) gs c')))"
    by (simp add: origin_group_def Let_def exchange del: map_map)
  moreover have "i \<in> set ?is \<or> i < unat rpc \<and>
      hash_page_for (digests_of X) (page_at (unat w) T i) alg = ?h i"
    if "64 * g \<le> i \<and> i < min (64 * g + 64) (unat pc)" for i
    using that by (cases "i < ?m") (auto simp: sent_indices_def)
  then have "settled (digests_of X) alg (unat w) T (unat pc) R (unat rpc) (db_file c') g"
    using c'(3) unfolding settled_def by blast
  ultimately show ?thesis using c' by blast
qed

section \<open>All groups\<close>

lemma fine_pass:
  assumes "rayon_ordered (rayon_of X)" and "length T = unat pc * unat w"
    and "unat pc \<le> 4294967232" "unat pc \<le> N"
    and "\<forall>g \<in> set gs. g < 67108863 \<and>
      (unat rpc \<le> 64 * g \<or> min (64 * g + 64) (unat rpc) \<le> unat pc)" and "towards w N c"
  shows "\<exists>c'. counted (pair_of (origin_fine X t T (ucast w) pc alg (map of_nat gs))
       (replica_fine rpc (page_hashes_of X alg (unat w) R (unat rpc)) (map of_nat gs) c)) =
     (6 * length gs + 2, pair_of (Ret (Returned ())) (Ret (c', Returned ()))) \<and>
     towards w N c' \<and>
     (\<forall>i. agrees (unat w) T (db_file c) i \<longrightarrow> agrees (unat w) T (db_file c') i) \<and>
     (\<forall>g \<in> set gs. settled (digests_of X) alg (unat w) T (unat pc) R (unat rpc) (db_file c') g)"
  using assms(5,6)
proof (induction gs arbitrary: c)
  case Nil
  then show ?case by (simp add: exchange counted_returned later_def)
next
  case (Cons g gs)
  let ?hs = "page_hashes_of X alg (unat w) R (unat rpc)"
  let ?k = "origin_fine X t T (ucast w) pc alg (map of_nat gs)"
  let ?st = "settled (digests_of X) alg (unat w) T (unat pc) R (unat rpc)"
  from Cons.prems have g: "g < 67108863" "unat rpc \<le> 64 * g \<or> min (64 * g + 64) (unat rpc) \<le> unat pc"
    "\<forall>g \<in> set gs. g < 67108863 \<and>
      (unat rpc \<le> 64 * g \<or> min (64 * g + 64) (unat rpc) \<le> unat pc)" by auto
  from group_exchange [OF assms(1-4) g(1,2) Cons.prems(2), of t alg ?k R "map of_nat gs"]
  obtain c1 where c1: "counted (pair_of (origin_group X t T (ucast w) pc alg (of_nat g) ?k)
        (replica_fine rpc ?hs (of_nat g # map of_nat gs) c)) =
      later 6 (counted (pair_of ?k (replica_fine rpc ?hs (map of_nat gs) c1)))"
    "towards w N c1"
    "\<And>i. agrees (unat w) T (db_file c) i \<Longrightarrow> agrees (unat w) T (db_file c1) i"
    "?st (db_file c1) g"
    by blast
  from Cons.IH [OF g(3) c1(2)] obtain c' where
    c': "counted (pair_of ?k (replica_fine rpc ?hs (map of_nat gs) c1)) =
      (6 * length gs + 2, pair_of (Ret (Returned ())) (Ret (c', Returned ())))" "towards w N c'"
    "\<And>i. agrees (unat w) T (db_file c1) i \<Longrightarrow> agrees (unat w) T (db_file c') i"
    "\<And>g. g \<in> set gs \<Longrightarrow> ?st (db_file c') g"
    by blast
  have "?st (db_file c') g" using settled_mono [OF c1(4) c'(3)] .
  with c1(1,3) c' show ?case by (intro exI [of _ c']) (simp add: later_def del: replica_fine.simps)
qed

section \<open>The coarse pass finds every difference\<close>

lemma group_pages_nth:
  "64 * g \<le> i \<Longrightarrow> i < min (64 * g + 64) n \<Longrightarrow> group_pages ps bs n g ! (i - 64 * g) = page_at ps bs i"
  unfolding group_pages_def by (subst nth_map) auto

lemma coarse_covers:
  assumes sep: "no_collision D alg ps T n R m" and i: "i < n"
    and skipped: "i div 64 \<notin>
      set (groups_needed D alg ps T n (map (group_digest D alg ps R m) [0 ..< N]))"
  shows "i < m \<and> page_at ps T i = page_at ps R i"
proof -
  define g where "g = i div 64"
  have gi: "64 * g \<le> i" "i < 64 * g + 64"
    using mult_div_mod_eq [of 64 i] mod_less_divisor [of 64 i] unfolding g_def by linarith+
  have "64 * g + 1 \<le> n" using gi(1) i by simp
  then have "(64 * g + 64) div 64 \<le> (n + 63) div 64" by (intro div_le_mono) simp
  then have n: "g < (n + 63) div 64" by simp
  with skipped gi(1) i have "g < N" and eq: "group_digest D alg ps T n g = group_digest D alg ps R m g"
    by (auto simp: groups_needed_def g_def [symmetric])
  have "(n + 63) div 64 \<le> (max n m + 63) div 64" by (intro div_le_mono) simp
  with n have "group_pages ps T n g = group_pages ps R m g"
    using no_collision_group [OF sep] eq by simp
  moreover from this have "length (group_pages ps T n g) = length (group_pages ps R m g)" by simp
  then have "i < m" using gi i by (simp add: group_pages_def min_def split: if_splits)
  ultimately show ?thesis
    using group_pages_nth [of g i n ps T] group_pages_nth [of g i m ps R] gi i by simp
qed

lemma needed_bound:
  assumes "n \<le> 4294967232" and "m \<le> 4294967232"
    and "g \<in> set (groups_needed D alg ps T n (map h [0 ..< max ((m + 63) div 64) 1]))"
  shows "g < 67108863"
proof -
  from assms(3) consider "g < max ((m + 63) div 64) 1" | "g < max ((n + 63) div 64) 1"
    by (auto simp: groups_needed_def)
  then show ?thesis using group_index_bound(1) assms(1,2) by cases blast+
qed

section \<open>The whole exchange\<close>

lemma handshake_and_coarse:
  assumes "sync_setting X Blake3V2 snap c rpc"
  defines "T \<equiv> snap_bytes snap" and "w \<equiv> snap_page_size snap" and "pc \<equiv> snap_page_count snap"
  defines "gs \<equiv> groups_needed (digests_of X) Blake3V2 (unat w) T (unat pc)
    (map (group_digest (digests_of X) Blake3V2 (unat w) (db_file c) (unat rpc))
      [0 ..< max ((unat rpc + 63) div 64) 1])"
  shows "counted (sync_system X t snap c) =
    later 6 (counted (pair_of (send_or Failed (GroupsNeedFine (map of_nat gs))
        (origin_fine X t T (ucast w) pc Blake3V2 (map of_nat gs)))
      (replica_need_fine rpc (page_hashes_of X Blake3V2 (unat w) (db_file c) (unat rpc)) c)))"
proof -
  note S = assms(1) [unfolded sync_setting_def quiescent_def whole_pages_def, folded T_def w_def pc_def]
  let ?bs = "if rpc = 0 then [] else db_file c"
  have bs: "?bs = db_file c" using S by auto
  have ser: "(if rpc = 0 then Inr [] else serialize c) = Inr (db_file c)" using S by auto
  have "replica_page_hashes X t Blake3V2 (db_file c) (ucast w) rpc =
      Some (page_hashes_of X Blake3V2 (unat w) (db_file c) (unat rpc))"
    by (rule replica_page_hashes_spec) (use S in auto)
  moreover have "replica_group_hashes X t Blake3V2
      (page_hashes_of X Blake3V2 (unat w) (db_file c) (unat rpc)) rpc =
    Some (map (group_digest (digests_of X) Blake3V2 (unat w) (db_file c) (unat rpc))
      [0 ..< max ((unat rpc + 63) div 64) 1])"
    by (rule replica_group_hashes_spec) (use S in auto)
  moreover have "coarse_need_fine X t T (ucast w) pc Blake3V2 0
      (map (group_digest (digests_of X) Blake3V2 (unat w) (db_file c) (unat rpc))
        [0 ..< max ((unat rpc + 63) div 64) 1]) = Some (map of_nat gs)"
    unfolding gs_def
    by (rule coarse_need_fine_spec) (use S in auto)
  ultimately show ?thesis
    using S ser
    by (simp add: sync_system_def origin_run_with_tuning_def replica_run_with_tuning_def exchange
        PROTOCOL_VERSION_def from_protocol_version_def origin_coarse_def replica_coarse_def
        Let_def flip: T_def w_def pc_def)
qed

lemma everything_agrees:
  assumes sep: "no_collision D alg ps T n R m"
    and len: "length R = m * ps" and i: "i < n"
    and keep: "\<And>i. agrees ps T R i \<Longrightarrow> agrees ps T f i"
    and fine: "\<And>g. g \<in> set (groups_needed D alg ps T n (map (group_digest D alg ps R m) [0 ..< N])) \<Longrightarrow>
      settled D alg ps T n R m f g"
  shows "agrees ps T f i"
proof -
  have old: "agrees ps T f i" if "i < m" "page_at ps T i = page_at ps R i"
    using that page_index_bound [of i m ps] len by (intro keep) (simp add: agrees_def)
  have "64 * (i div 64) \<le> i" "i < 64 * (i div 64) + 64"
    using mult_div_mod_eq [of 64 i] mod_less_divisor [of 64 i] by linarith+
  then show ?thesis
    using old coarse_covers [OF sep i] fine [of "i div 64"] i no_collision_page [OF sep i]
    unfolding settled_def by (meson min_less_iff_conj)
qed

lemma agree_all:
  assumes "ps > 0" and "length T = n * ps" and "length f \<le> n * ps"
    and all: "\<And>i. i < n \<Longrightarrow> agrees ps T f i"
  shows "f = T"
proof (rule pages_eqI [OF assms(1)])
  have "n * ps \<le> length f" using all [of "n - 1"] by (cases n) (auto simp: agrees_def)
  then show "length f = n * ps" using assms(3) by simp
qed (use assms(2) all in \<open>auto simp: agrees_def\<close>)

lemma sync_counted:
  assumes S: "sync_setting X Blake3V2 snap c rpc" and le: "rpc \<le> snap_page_count snap"
  shows "\<exists>c'. counted (sync_system X t snap c) =
      (10 + 6 * length (groups_needed (digests_of X) Blake3V2 (unat (snap_page_size snap)) (snap_bytes snap)
        (unat (snap_page_count snap))
        (map (group_digest (digests_of X) Blake3V2 (unat (snap_page_size snap)) (db_file c) (unat rpc))
          [0 ..< max ((unat rpc + 63) div 64) 1])),
       pair_of (Ret (Returned ())) (Ret (c', Returned ()))) \<and> db_file c' = snap_bytes snap"
proof -
  define T w pc where defs: "T = snap_bytes snap" "w = snap_page_size snap" "pc = snap_page_count snap"
  let ?alg = "Blake3V2" and ?D = "digests_of X" and ?R = "db_file c"
  define gs where "gs = groups_needed ?D ?alg (unat w) T (unat pc)
    (map (group_digest ?D ?alg (unat w) ?R (unat rpc)) [0 ..< max ((unat rpc + 63) div 64) 1])"
  note S' = S [unfolded sync_setting_def quiescent_def whole_pages_def, folded defs]
  have le': "unat rpc \<le> unat pc" using le by (simp add: defs word_le_nat_alt)
  have c: "towards w (unat pc) c" using S' le' by (auto simp: towards_def intro: mult_le_mono1)
  have gb: "\<forall>g \<in> set gs. g < 67108863 \<and>
      (unat rpc \<le> 64 * g \<or> min (64 * g + 64) (unat rpc) \<le> unat pc)"
    using needed_bound [of "unat pc" "unat rpc"] S' le' unfolding gs_def by (auto simp: min_le_iff_disj)
  have "\<exists>c'. counted (sync_system X t snap c) =
      (10 + 6 * length gs, pair_of (Ret (Returned ())) (Ret (c', Returned ()))) \<and> towards w (unat pc) c' \<and>
      (\<forall>i. agrees (unat w) T ?R i \<longrightarrow> agrees (unat w) T (db_file c') i) \<and>
      (\<forall>g \<in> set gs. settled ?D ?alg (unat w) T (unat pc) ?R (unat rpc) (db_file c') g)"
    unfolding handshake_and_coarse [OF S, of t, folded defs, folded gs_def]
    using fine_pass [of X T pc w "unat pc" gs rpc c t ?alg ?R] S' gb c
    by (cases gs) (auto simp: replica_need_fine_def exchange counted_returned later_def
        simp del: origin_fine.simps(2) replica_fine.simps(2))
  then obtain c' where run: "counted (sync_system X t snap c) =
      (10 + 6 * length gs, pair_of (Ret (Returned ())) (Ret (c', Returned ())))" and c': "towards w (unat pc) c'"
    "\<And>i. agrees (unat w) T ?R i \<Longrightarrow> agrees (unat w) T (db_file c') i"
    "\<And>g. g \<in> set gs \<Longrightarrow> settled ?D ?alg (unat w) T (unat pc) ?R (unat rpc) (db_file c') g"
    by blast
  have "agrees (unat w) T (db_file c') i" if "i < unat pc" for i
    by (rule everything_agrees [where R = ?R and m = "unat rpc", OF _ _ that c'(2) c'(3)
          [unfolded gs_def]]) (use S' in auto)
  then have "db_file c' = T"
    using c'(1) S' by (intro agree_all [of "unat w"]) (auto simp: towards_def unat_gt_0)
  with run show ?thesis unfolding gs_def defs by blast
qed

lemma sync_completes:
  assumes "sync_setting X Blake3V2 snap c rpc" and "rpc \<le> snap_page_count snap"
  shows "\<exists>c'. run_sys (sync_system X t snap c) =
      pair_of (Ret (Returned ())) (Ret (c', Returned ())) \<and> db_file c' = snap_bytes snap"
  using sync_counted [OF assms, of t] by (auto simp: counted_def)

text \<open>The groups looked at in detail are those whose pages differ.\<close>

lemma groups_needed_count:
  assumes sep: "no_collision D alg ps T n R m" and "m \<le> n"
  shows "length (groups_needed D alg ps T n (map (group_digest D alg ps R m) [0 ..< max ((m + 63) div 64) 1])) =
    card {g. g < max ((n + 63) div 64) 1 \<and>
      (n \<le> 64 * g \<or> group_pages ps T n g \<noteq> group_pages ps R m g)}"
proof -
  define N C where "N = max ((m + 63) div 64) 1" and "C = (n + 63) div 64"
  note below = less_eq_div_iff_mult_less_eq [OF zero_less_numeral]
  let ?gs = "groups_needed D alg ps T n (map (group_digest D alg ps R m) [0 ..< N])"
  have "(m + 63) div 64 \<le> C" unfolding C_def using assms(2) by (intro div_le_mono) simp
  then have N: "N \<le> max C 1" "N \<ge> 1" by (simp_all add: N_def)
  have beyond: "group_pages ps T n g \<noteq> group_pages ps R m g" if "N \<le> g" "g < C" for g
  proof -
    have "(m + 63) div 64 < Suc g" "Suc g \<le> C" using that by (simp_all add: N_def)
    then have "m \<le> 64 * g" "64 * g < n"
      unfolding C_def below div_less_iff_less_mult [OF zero_less_numeral] by simp_all
    then have "length (group_pages ps R m g) = 0" "length (group_pages ps T n g) > 0"
      by (simp_all add: group_pages_def)
    then show ?thesis by auto
  qed
  have same: "group_digest D alg ps T n g = group_digest D alg ps R m g \<longleftrightarrow>
      group_pages ps T n g = group_pages ps R m g" if "\<not> n \<le> 64 * g" for g
  proof (rule no_collision_group [OF sep])
    have "Suc g \<le> (n + 63) div 64" unfolding below using that by simp
    then show "g < (max n m + 63) div 64" using assms(2) by (simp add: max_absorb1)
  qed
  have mem: "g \<in> set ?gs \<longleftrightarrow> (if g < N then n \<le> 64 * g \<or> group_digest D alg ps T n g \<noteq> group_digest D alg ps R m g
      else g < C)" for g
    unfolding groups_needed_def C_def [symmetric] by auto
  have "set ?gs = {g. g < max C 1 \<and> (n \<le> 64 * g \<or> group_pages ps T n g \<noteq> group_pages ps R m g)}"
    using N beyond same by (auto simp: mem split: if_splits)
  moreover have "distinct ?gs" unfolding groups_needed_def by auto
  then have "length ?gs = card (set ?gs)" by (simp only: distinct_card)
  ultimately show ?thesis unfolding N_def C_def by simp
qed

section \<open>A replica larger than its origin\<close>

text \<open>
  A group in which the replica has pages beyond the end of the origin: the origin indexes its
  snapshot with the replica's page numbers and panics.
\<close>

definition overhangs :: "nat \<Rightarrow> nat \<Rightarrow> nat \<Rightarrow> bool" where
  "overhangs n m g \<longleftrightarrow> 64 * g < m \<and> n < min (64 * g + 64) m"

lemma not_overhangs: "\<not> overhangs n m g \<longleftrightarrow> m \<le> 64 * g \<or> min (64 * g + 64) m \<le> n"
  by (auto simp: overhangs_def)

lemma changed_pages_panic:
  assumes "rayon_ordered (rayon_of X)" and "length T = unat pc * unat w" and "w \<noteq> 0"
    and "p \<in> set nos" and "unat pc < unat p"
  shows "changed_pages_of X t T (ucast (w :: u32)) alg nos hs = None"
proof -
  obtain i where i: "i < length nos" "nos ! i = p" using assms(4) by (auto simp: in_set_conv_nth)
  have "changed_page_for (digests_of X) (nos ! i) (hs ! i) T (ucast w) alg = None"
    using page_slice_beyond [OF assms(5,2,3)] i(2) by (simp add: changed_page_for_def)
  with i(1) have "filter_map_p (\<lambda>i. changed_page_for (digests_of X) (nos ! i) (hs ! i) T
      (ucast w) alg) [0 ..< length nos] = None"
    by (intro filter_map_p_None [of i]) simp_all
  then show ?thesis
    using assms(1) by (simp add: changed_pages_of_def Let_def compute_same rayon_ordered_def)
qed

lemma group_panics:
  assumes X: "rayon_ordered (rayon_of X)" and T: "length T = unat pc * unat (w :: u32)" "w \<noteq> 0"
    and g: "g < 67108863" and over: "overhangs (unat pc) (unat rpc) g"
  shows "left (run_sys (pair_of (origin_group X t T (ucast w) pc alg (of_nat g) k)
      (replica_fine rpc (page_hashes_of X alg (unat w) R (unat rpc)) (of_nat g # gs) c))) =
    Ret Panicked"
proof -
  let ?g = "of_nat g :: u32" and ?m = "min (64 * g + 64) (unat rpc)"
  let ?h = "\<lambda>i. hash_page_for (digests_of X) (page_at (unat w) R i) alg"
  let ?nos = "group_page_nos rpc ?g" and ?hs = "map ?h [64 * g ..< ?m]"
  have u: "unat ?g = g" using g by (simp add: unat_u32_of_nat)
  then have gb: "unat ?g < 67108863" using g by simp
  note nos = group_page_nos_spec(1,2) [OF gb, where rpc = rpc, unfolded u]
  have "validate_page_hashes_for_group ?nos ?hs ?g = Inr ()"
    using nos by (simp add: validate_page_hashes_iff [OF gb])
  moreover have "group_page_hashes (page_hashes_of X alg (unat w) R (unat rpc)) ?nos = Some ?hs"
    using group_page_hashes_spec [OF gb, of ?h rpc] by (simp add: u)
  moreover have "?m - 1 \<in> set (map (\<lambda>p. unat p - 1) ?nos)"
    using group_page_nos_spec(3) [OF gb, of "\<lambda>i. i" rpc] over
    by (simp only: u) (auto simp: overhangs_def)
  then obtain p where p: "p \<in> set ?nos" "unat p - 1 = ?m - 1" by auto
  have "unat (?g * GROUP_SIZE + 1) + length ?nos \<le> 4294967296"
    using g by (simp add: group_bounds [OF gb] nos(2) u)
  from consecutive_bounds(3) [OF nos(1) this p(1)] have "0 < unat p"
    by (simp add: group_bounds [OF gb])
  with p(2) have "unat pc < unat p" using over by (auto simp: overhangs_def)
  with p(1) changed_pages_panic [OF X T] have "pages_to_send X t T (ucast w) pc alg ?g ?nos ?hs = None"
    by (simp add: pages_to_send_def)
  ultimately show ?thesis by (simp add: origin_group_def Let_def exchange waiting_end del: map_map)
qed

lemma fine_panics:
  assumes "rayon_ordered (rayon_of X)" and "length T = unat pc * unat w" "w \<noteq> 0"
    and "unat pc \<le> 4294967232" "unat pc \<le> N"
    and "\<forall>g \<in> set (good @ g # rest). g < 67108863"
    and "\<forall>g \<in> set good. \<not> overhangs (unat pc) (unat rpc) g"
    and "overhangs (unat pc) (unat rpc) g" and "towards w N c"
  shows "left (run_sys (pair_of (origin_fine X t T (ucast w) pc alg (map of_nat (good @ g # rest)))
      (replica_fine rpc (page_hashes_of X alg (unat w) R (unat rpc))
        (map of_nat (good @ g # rest)) c))) = Ret Panicked"
  using assms(6,7,9)
proof (induction good arbitrary: c)
  case Nil
  then show ?case using group_panics [OF assms(1-3) _ assms(8)] by (simp del: replica_fine.simps)
next
  case (Cons h good)
  let ?gs = "map of_nat (good @ g # rest)"
  let ?k = "origin_fine X t T (ucast w) pc alg ?gs"
  from Cons.prems have h: "h < 67108863" "unat rpc \<le> 64 * h \<or> min (64 * h + 64) (unat rpc) \<le> unat pc"
    by (simp_all add: not_overhangs)
  from group_exchange [OF assms(1,2,4,5) h Cons.prems(3), of t alg ?k R ?gs]
  obtain c1 where "run_sys (pair_of (origin_group X t T (ucast w) pc alg (of_nat h) ?k)
        (replica_fine rpc (page_hashes_of X alg (unat w) R (unat rpc)) (of_nat h # ?gs) c)) =
      run_sys (pair_of ?k (replica_fine rpc (page_hashes_of X alg (unat w) R (unat rpc)) ?gs c1))"
    "towards w N c1"
    by (blast dest: counted_run)
  with Cons.IH [of c1] Cons.prems show ?case by (simp del: replica_fine.simps)
qed

lemma some_group_overhangs:
  assumes sep: "no_collision D alg ps T n R m" and "n < m"
  shows "\<exists>g \<in> set (groups_needed D alg ps T n
      (map (group_digest D alg ps R m) [0 ..< max ((m + 63) div 64) 1])). overhangs n m g"
proof -
  define g where "g = n div 64"
  have g: "64 * g \<le> n" "n < 64 * g + 64"
    using mult_div_mod_eq [of 64 n] mod_less_divisor [of 64 n] unfolding g_def by linarith+
  show ?thesis
  proof (rule bexI)
    from g show "overhangs n m g" using assms(2) by (simp add: overhangs_def)
    have "64 * g + 1 \<le> m" using g(1) assms(2) by simp
    then have "(64 * g + 64) div 64 \<le> (m + 63) div 64" by (intro div_le_mono) simp
    then have m: "g < (m + 63) div 64" by simp
    moreover have "(m + 63) div 64 \<le> (max n m + 63) div 64" by (intro div_le_mono) simp
    ultimately have N: "g < max ((m + 63) div 64) 1" "g < (max n m + 63) div 64" by simp_all
    have "length (group_pages ps T n g) \<noteq> length (group_pages ps R m g)"
      using g assms(2) by (simp add: group_pages_def min_def) linarith
    then have "group_pages ps T n g \<noteq> group_pages ps R m g" by auto
    then have "group_digest D alg ps T n g \<noteq> group_digest D alg ps R m g"
      using no_collision_group [OF sep N(2)] by simp
    with N(1) show "g \<in> set (groups_needed D alg ps T n
        (map (group_digest D alg ps R m) [0 ..< max ((m + 63) div 64) 1]))"
      by (auto simp: groups_needed_def)
  qed
qed

lemma sync_panics:
  assumes S: "sync_setting X Blake3V2 snap c rpc" and more: "snap_page_count snap < rpc"
  shows "left (run_sys (sync_system X t snap c)) = Ret Panicked"
proof -
  define T w pc where defs: "T = snap_bytes snap" "w = snap_page_size snap" "pc = snap_page_count snap"
  let ?alg = "Blake3V2" and ?D = "digests_of X" and ?R = "db_file c"
  define gs where "gs = groups_needed ?D ?alg (unat w) T (unat pc)
    (map (group_digest ?D ?alg (unat w) ?R (unat rpc)) [0 ..< max ((unat rpc + 63) div 64) 1])"
  note S' = S [unfolded sync_setting_def quiescent_def whole_pages_def, folded defs]
  have lt: "unat pc < unat rpc" using more by (simp add: defs word_less_nat_alt)
  have "\<exists>g \<in> set gs. overhangs (unat pc) (unat rpc) g"
    unfolding gs_def by (rule some_group_overhangs) (use S' lt in auto)
  from split_list_first_prop [OF this] obtain good g rest where gs: "gs = good @ g # rest"
    "overhangs (unat pc) (unat rpc) g" "\<forall>g \<in> set good. \<not> overhangs (unat pc) (unat rpc) g"
    by blast
  have gb: "\<forall>g \<in> set gs. g < 67108863"
    using needed_bound [of "unat pc" "unat rpc"] S' unfolding gs_def by blast
  have "towards w (unat rpc) c" using S' by (auto simp: towards_def)
  then have "left (run_sys (pair_of (origin_fine X t T (ucast w) pc ?alg (map of_nat gs))
      (replica_fine rpc (page_hashes_of X ?alg (unat w) ?R (unat rpc)) (map of_nat gs) c))) =
    Ret Panicked"
    unfolding gs(1)
    by (intro fine_panics [where N = "unat rpc"]) (use S' gs(2,3) gb [unfolded gs(1)] lt in auto)
  then show ?thesis
    unfolding handshake_and_coarse [OF S, of t, folded defs, folded gs_def, THEN counted_run]
    using gs(1) by (simp add: replica_need_fine_def exchange
        del: origin_fine.simps replica_fine.simps map_append)
qed

section \<open>Tuning does not change what the handlers do\<close>

lemma changed_pages_serial:
  "rayon_ordered (rayon_of X) \<Longrightarrow> changed_pages_of X t bs psz alg nos hs =
     filter_map_p (\<lambda>i. changed_page_for (digests_of X) (nos ! i) (hs ! i) bs psz alg)
       [0 ..< length nos]"
  by (simp add: changed_pages_of_def Let_def compute_same rayon_ordered_def)

lemma origin_fine_tuning:
  assumes "rayon_ordered (rayon_of X)"
  shows "origin_fine X t bs psz pc alg gs = origin_fine X t' bs psz pc alg gs"
proof (induction gs)
  case (Cons g gs)
  have eq: "pages_to_send X t = pages_to_send X t'"
    by (intro ext) (simp add: pages_to_send_def changed_pages_serial [OF assms])
  show ?case unfolding origin_fine.simps origin_group_def Cons.IH eq ..
qed simp

lemma origin_tuning:
  assumes "rayon_ordered (rayon_of X)"
  shows "origin_run_with_tuning X t snap = origin_run_with_tuning X t' snap"
proof -
  have eq: "coarse_need_fine X t = coarse_need_fine X t'" "origin_fine X t = origin_fine X t'"
    by (intro ext coarse_serial [OF assms, THEN trans, OF coarse_serial [OF assms, symmetric]]
        origin_fine_tuning [OF assms])+
  have coarse: "origin_coarse X t = origin_coarse X t'"
    unfolding origin_coarse_def [abs_def] eq ..
  show ?thesis unfolding origin_run_with_tuning_def coarse ..
qed

lemma replica_tuning:
  assumes "rayon_ordered (rayon_of X)"
  shows "replica_run_with_tuning X t c = replica_run_with_tuning X t' c"
proof -
  have eq: "replica_page_hashes X t = replica_page_hashes X t'"
    using assms by (intro ext) (simp add: replica_page_hashes_def Let_def
        compute_with_parallelism_def rayon_ordered_def)
  have coarse: "replica_coarse X t = replica_coarse X t'"
    unfolding replica_coarse_def [abs_def] replica_groups_serial [OF assms] eq ..
  show ?thesis unfolding replica_run_with_tuning_def coarse ..
qed

section \<open>The replica against any origin\<close>

lemma results_violation [simp]:
  "results (replica_protocol_violation c m) = {(c, Failed (Protocol m))}"
  by (simp add: replica_protocol_violation_def)

text \<open>The replica's index into its own hashes is in range for every group index it may be sent.\<close>

lemma group_first_nonzero: "g * GROUP_SIZE + 1 \<noteq> 0"
proof
  assume "g * GROUP_SIZE + 1 = 0"
  then have "bit (g * GROUP_SIZE + 1) 0 = bit (0 :: u32) 0" by simp
  moreover have "even (g * GROUP_SIZE)" by (simp add: GROUP_SIZE_def)
  ultimately show False by (simp add: bit_0)
qed

lemma group_page_hashes_defined:
  assumes "length hashes = unat rpc"
  shows "group_page_hashes hashes (group_page_nos rpc g) \<noteq> None"
  unfolding group_page_hashes_def
proof (rule those_defined)
  fix p assume "p \<in> set (group_page_nos rpc g)"
  then have b: "unat (g * GROUP_SIZE + 1) \<le> unat p" "unat p \<le> unat rpc"
    by (auto simp: group_page_nos_def Let_def set_range_incl split: if_splits)
  moreover have "0 < unat (g * GROUP_SIZE + 1)"
    using group_first_nonzero [of g] by (simp add: unat_gt_0)
  ultimately have "0 < unat p" by linarith
  then have "1 \<le> (ucast p :: usize)" by (simp add: word_le_nat_alt)
  then have "unat (ucast p - 1 :: usize) = unat p - 1" by (simp add: unat_word_sub)
  with b \<open>0 < unat p\<close> assms
  show "(let i = unat (ucast p - 1 :: usize)
      in if i < length hashes then Some (hashes ! i) else None) \<noteq> None"
    by (simp add: Let_def)
qed

lemma replica_fine_no_panic:
  assumes "length hashes = unat rpc"
  shows "(c', Panicked) \<notin> results (replica_fine rpc hashes gs c)"
proof (induction gs arbitrary: c)
  case Nil
  show ?case by (auto split: if_splits)
next
  case (Cons g gs)
  obtain hs where "group_page_hashes hashes (group_page_nos rpc g) = Some hs"
    using group_page_hashes_defined [OF assms] by blast
  with Cons show ?case
    by (auto simp: Let_def split: message.splits prod.splits sum.splits if_splits)
qed

lemma replica_no_panic:
  assumes X: "rayon_ordered (rayon_of X)" and c: "quiescent c rpc" and n: "unat rpc \<le> 4294967232"
  shows "(c', Panicked) \<notin> results (replica_run_with_tuning X t c)"
proof -
  have "(c', Panicked) \<notin> results (replica_coarse X t alg rpc c)" for alg
  proof -
    have "replica_page_hashes X t alg (db_file c) (ucast (conn_page_size c)) rpc =
        Some (page_hashes_of X alg (unat (conn_page_size c)) (db_file c) (unat rpc))"
      by (rule replica_page_hashes_spec [OF X]) (use c in \<open>simp add: quiescent_def\<close>)
    moreover have "(if rpc = 0 then Inr [] else serialize c) = Inr (db_file c)"
      using c by (auto simp: quiescent_def)
    moreover have "(c', Panicked) \<notin> results (replica_need_fine rpc
        (page_hashes_of X alg (unat (conn_page_size c)) (db_file c) (unat rpc)) c)"
      using replica_fine_no_panic
      by (auto simp: replica_need_fine_def split: message.splits if_splits)
    ultimately show ?thesis
      using replica_group_hashes_spec [OF X n] by (auto simp: replica_coarse_def)
  qed
  then show ?thesis
    using c by (auto simp: replica_run_with_tuning_def quiescent_def split: message.splits
        option.splits if_splits)
qed

section \<open>What the origin sends\<close>

lemma equal_images_need_nothing:
  assumes "n > 0"
  shows "groups_needed D alg ps T n (map (group_digest D alg ps T n) [0 ..< max ((n + 63) div 64) 1]) = []"
proof -
  have "64 * g < n" if "g < (n + 63) div 64" for g
  proof -
    have "64 * Suc g \<le> 64 * ((n + 63) div 64)" using that by (intro mult_le_mono2) simp
    also have "\<dots> \<le> n + 63" by (rule times_div_less_eq_dividend)
    finally show ?thesis by simp
  qed
  moreover have "max ((n + 63) div 64) 1 = (n + 63) div 64"
  proof -
    have "64 div 64 \<le> (n + 63) div 64" using assms by (intro div_le_mono) simp
    then show ?thesis by simp
  qed
  ultimately show ?thesis by (auto simp: groups_needed_def filter_empty_conv not_le)
qed

lemma sent_iff:
  assumes "64 * g \<le> i" and "i < min (64 * g + 64) n" and "length hs \<le> 64"
    and "hs = [] \<or> 64 * g + length hs \<le> n"
  shows "i \<in> set (sent_indices D alg ps bs n g hs) \<longleftrightarrow>
    64 * g + length hs \<le> i \<or> hash_page_for D (page_at ps bs i) alg \<noteq> hs ! (i - 64 * g)"
  using assms by (auto simp: sent_indices_def)

section \<open>A replica that cannot be written\<close>

lemma replica_fine_read_only:
  "\<not> has_write_fd c \<Longrightarrow> (c', r) \<in> results (replica_fine rpc hashes gs c) \<Longrightarrow> c' = c"
proof (induction gs)
  case Nil
  then show ?case by (auto split: if_splits)
next
  case (Cons g gs)
  define f where "f pages = snd (write_all write_page c (page_list pages))" for pages
  have f: "write_all write_page c (page_list pages) = (c, f pages)" for pages
    by (simp add: f_def prod_eq_iff write_all_read_only [OF Cons.prems(1)])
  note IH = Cons.IH [OF Cons.prems(1)]
  from Cons.prems(2) show ?case
    apply (auto simp: Let_def f split: option.splits)
    subgoal for hs msg by (cases msg) (auto simp: f split: sum.splits if_splits dest: IH)
    done
qed

lemma replica_need_fine_read_only:
  "\<not> has_write_fd c \<Longrightarrow> (c', r) \<in> results (replica_need_fine rpc hashes c) \<Longrightarrow> c' = c"
  apply (auto simp: replica_need_fine_def)
  subgoal for msg by (cases msg) (auto split: if_splits dest: replica_fine_read_only)
  done

lemma replica_coarse_read_only:
  "\<not> has_write_fd c \<Longrightarrow> (c', r) \<in> results (replica_coarse X t alg rpc c) \<Longrightarrow> c' = c"
  by (auto simp: replica_coarse_def split: option.splits sum.splits
      dest: replica_need_fine_read_only)

lemma replica_read_only:
  "\<not> has_write_fd c \<Longrightarrow> (c', r) \<in> results (replica_run_with_tuning X t c) \<Longrightarrow> c' = c"
  apply (auto simp: replica_run_with_tuning_def split: sum.splits)
  subgoal for rpc msg
    by (cases msg) (auto split: option.splits if_splits dest: replica_coarse_read_only)
  done

end
