(* ===== verification/Grpc_Transport.thy ===== *)
theory Grpc_Transport
  imports Sync
begin

text \<open>
  The gRPC transport (\<open>src/src/transport/grpc.rs\<close>): messages as protobuf payloads, hashes packed
  into one byte string, and a handler run on a gRPC stream. Protobuf coding itself is generated
  code outside the sources; a stream is a channel of payloads that can fail or close.

  Shown: a message whose hashes have 32 bytes, as many as page numbers, survives the
  translation; the two protocol handlers send only such messages; so two handlers joined by
  gRPC streams run as over any other transport, step by step (\<open>grpc_simulates\<close>).
\<close>

section \<open>Payloads\<close>

record sync_init =
  init_database :: string
  client_role :: int
  init_auth_token :: string

datatype payload =
    P_Init sync_init
  | P_Hello u32 u32 u32
  | P_HelloAck u32 u32 u32
  | P_GroupHashes u32 bytes
  | P_GroupsNeedFine "u32 list"
  | P_PageHashes "u32 list" bytes
  | P_SendPages "(u32 \<times> bytes) list"
  | P_PagesAck "u32 list"
  | P_Done
  | P_Error string

type_synonym sync_message = "payload option"

fun to_proto :: "message \<Rightarrow> sync_message" where
  "to_proto (Hello v ps pc) = Some (P_Hello v ps pc)"
| "to_proto (HelloAck v ps pc) = Some (P_HelloAck v ps pc)"
| "to_proto (GroupHashes first hashes) = Some (P_GroupHashes first (concat hashes))"
| "to_proto (GroupsNeedFine gs) = Some (P_GroupsNeedFine gs)"
| "to_proto (PageHashes nos hashes) = Some (P_PageHashes nos (concat hashes))"
| "to_proto (SendPages pages) =
     Some (P_SendPages (map (\<lambda>p. (pd_page_no p, pd_data p)) pages))"
| "to_proto (PagesAck nos) = Some (P_PagesAck nos)"
| "to_proto Done = Some P_Done"
| "to_proto (Error m) = Some (P_Error m)"

text \<open>\<open>as_chunks::<32>\<close>: the complete chunks of 32 bytes.\<close>

function as_chunks :: "bytes \<Rightarrow> bytes list" where
  "as_chunks bs = (if length bs < 32 then [] else take 32 bs # as_chunks (drop 32 bs))"
  by auto
termination by (relation "measure length") auto

declare as_chunks.simps [simp del]

fun from_payload :: "payload \<Rightarrow> message res" where
  "from_payload (P_Init _) =
     Inl (Protocol ''unexpected SyncInit message during active sync stream'')"
| "from_payload (P_Hello v ps pc) = Inr (Hello v ps pc)"
| "from_payload (P_HelloAck v ps pc) = Inr (HelloAck v ps pc)"
| "from_payload (P_GroupHashes first hashes) =
     (if length hashes mod 32 \<noteq> 0 then
        Inl (Codec (''invalid group hashes length: '' @ show_nat (length hashes) @
          '' is not a multiple of 32''))
      else Inr (GroupHashes first (as_chunks hashes)))"
| "from_payload (P_GroupsNeedFine gs) = Inr (GroupsNeedFine gs)"
| "from_payload (P_PageHashes nos hashes) =
     (if length hashes mod 32 \<noteq> 0 then
        Inl (Codec (''invalid page hashes length: '' @ show_nat (length hashes) @
          '' is not a multiple of 32''))
      else if length hashes div 32 \<noteq> length nos then
        Inl (Codec (''page count mismatch: '' @ show_nat (length hashes div 32) @
          '' hashes for '' @ show_nat (length nos) @ '' page numbers''))
      else Inr (PageHashes nos (as_chunks hashes)))"
| "from_payload (P_SendPages pages) =
     Inr (SendPages (map (\<lambda>(no, d). \<lparr>pd_page_no = no, pd_data = d\<rparr>) pages))"
| "from_payload (P_PagesAck nos) = Inr (PagesAck nos)"
| "from_payload P_Done = Inr Done"
| "from_payload (P_Error m) = Inr (Error m)"

definition from_proto :: "sync_message \<Rightarrow> message res" where
  "from_proto pm =
     (case pm of
        None \<Rightarrow> Inl (Protocol ''received SyncMessage with empty payload'')
      | Some p \<Rightarrow> from_payload p)"

section \<open>Send and receive\<close>

text \<open>What ends a stream: an error status, or the peer closing it.\<close>

datatype stream_end = Stream_Error string | Stream_Closed

definition grpc_recv :: "stream_end + sync_message \<Rightarrow> message res" where
  "grpc_recv item =
     (case item of
        Inl (Stream_Error status) \<Rightarrow> Inl (Network (''gRPC streaming error: '' @ status))
      | Inl Stream_Closed \<Rightarrow> Inl (Protocol ''gRPC stream closed unexpectedly by remote peer'')
      | Inr proto_msg \<Rightarrow> from_proto proto_msg)"

text \<open>The error of a send: the receiving half of the channel is gone.\<close>

definition grpc_send_error :: "stream_end option \<Rightarrow> sync_error option" where
  "grpc_send_error r =
     map_option (\<lambda>_. Network ''failed to send gRPC message: channel closed'') r"

text \<open>A handler whose transport is a \<open>GrpcTransport\<close>.\<close>

primrec over_grpc ::
  "(message, sync_error, 'r) proc \<Rightarrow> (sync_message, stream_end, 'r) proc" where
  "over_grpc (Ret r) = Ret r"
| "over_grpc (Send m k) = Send (to_proto m) (\<lambda>r. over_grpc (k (grpc_send_error r)))"
| "over_grpc (Recv k) = Recv (\<lambda>i. over_grpc (k (grpc_recv i)))"

section \<open>Messages that survive\<close>

definition grpc_faithful :: "message \<Rightarrow> bool" where
  "grpc_faithful m \<longleftrightarrow>
     (case m of
        GroupHashes _ hs \<Rightarrow> \<forall>h \<in> set hs. length h = 32
      | PageHashes nos hs \<Rightarrow> length hs = length nos \<and> (\<forall>h \<in> set hs. length h = 32)
      | _ \<Rightarrow> True)"

lemma grpc_faithful_simps [simp]:
  "grpc_faithful (Hello v ps pc)" "grpc_faithful (HelloAck v ps pc)"
  "grpc_faithful (GroupHashes g hs) \<longleftrightarrow> (\<forall>h \<in> set hs. length h = 32)"
  "grpc_faithful (GroupsNeedFine gs)"
  "grpc_faithful (PageHashes nos hs) \<longleftrightarrow> length hs = length nos \<and> (\<forall>h \<in> set hs. length h = 32)"
  "grpc_faithful (SendPages pages)" "grpc_faithful (PagesAck nos)" "grpc_faithful Done"
  "grpc_faithful (Error e)"
  by (simp_all add: grpc_faithful_def)

lemma length_concat32: "\<forall>h \<in> set hs. length h = 32 \<Longrightarrow> length (concat hs) = 32 * length hs"
  by (induction hs) auto

lemma as_chunks_concat: "\<forall>h \<in> set hs. length h = 32 \<Longrightarrow> as_chunks (concat hs) = hs"
proof (induction hs)
  case Nil
  then show ?case by (subst as_chunks.simps) simp
next
  case (Cons h hs)
  then show ?case by (subst as_chunks.simps) simp
qed

lemma page_data_eta [simp]: "\<lparr>pd_page_no = pd_page_no p, pd_data = pd_data p\<rparr> = (p :: page_data)"
  by simp

lemma proto_roundtrip: "grpc_faithful m \<Longrightarrow> from_proto (to_proto m) = Inr m"
  by (cases m) (simp_all add: grpc_faithful_def from_proto_def length_concat32 as_chunks_concat comp_def)

section \<open>What a handler sends\<close>

primrec sends :: "('m \<Rightarrow> bool) \<Rightarrow> ('m, 'e, 'r) proc \<Rightarrow> bool" where
  "sends P (Ret r) = True"
| "sends P (Send m k) = (P m \<and> (\<forall>x. sends P (k x)))"
| "sends P (Recv k) = (\<forall>x. sends P (k x))"

lemma sends_send_or [simp]: "sends P (send_or f m k) \<longleftrightarrow> P m \<and> sends P k"
  by (auto simp: send_or_def split: option.splits)

lemma sends_recv_or [simp]: "sends P (recv_or f h) \<longleftrightarrow> (\<forall>m. sends P (h m))"
  by (auto simp: recv_or_def split: sum.splits)

definition digest_size :: "digests \<Rightarrow> bool" where
  "digest_size D \<longleftrightarrow> (\<forall>b. length (sha256 D b) = 32 \<and> length (blake3 D b) = 32)"

lemma hash_lengths:
  "digest_size D \<Longrightarrow> length (hash_page_for D d alg) = 32"
  "digest_size D \<Longrightarrow> length (hash_group_for D hs alg) = 32"
  by (cases alg; simp add: digest_size_def hash_page_for_def hash_group_for_def)+

lemma origin_violation_sends [simp]: "sends grpc_faithful (protocol_violation m)"
  by (simp add: protocol_violation_def)

lemma origin_group_sends:
  "sends grpc_faithful k \<Longrightarrow> sends grpc_faithful (origin_group X t bs psz pc alg g k)"
  by (auto simp: origin_group_def reject_def
      split: message.split sum.split option.split sync_error.split)

lemma origin_fine_sends: "sends grpc_faithful (origin_fine X t bs psz pc alg gs)"
  by (induction gs) (simp_all add: origin_group_sends)

lemma origin_sends: "sends grpc_faithful (origin_run_with_tuning X t snap)"
  by (auto simp: origin_run_with_tuning_def origin_coarse_def origin_fine_sends
      Let_def split: message.split option.split)

lemma replica_violation_sends [simp]: "sends grpc_faithful (replica_protocol_violation c m)"
  by (simp add: replica_protocol_violation_def)

lemma those_length: "those xs = Some ys \<Longrightarrow> length ys = length xs"
  by (induction xs arbitrary: ys) (auto split: option.splits)

lemma those_in_set: "those xs = Some ys \<Longrightarrow> y \<in> set ys \<Longrightarrow> Some y \<in> set xs"
  by (induction xs arbitrary: ys) (auto split: option.splits)

lemma group_page_hashes_faithful:
  assumes "group_page_hashes hashes nos = Some hs" and "\<forall>h \<in> set hashes. length h = 32"
  shows "length hs = length nos \<and> (\<forall>h \<in> set hs. length h = 32)"
  using assms those_length [of _ hs] those_in_set [of _ hs]
  by (fastforce simp: group_page_hashes_def Let_def split: if_splits)

lemma replica_fine_sends:
  "\<forall>h \<in> set hashes. length h = 32 \<Longrightarrow> sends grpc_faithful (replica_fine rpc hashes gs c)"
proof (induction gs arbitrary: c)
  case Nil
  then show ?case by simp
next
  case (Cons g gs)
  show ?case
  proof (cases "group_page_hashes hashes (group_page_nos rpc g)")
    case None
    then show ?thesis by simp
  next
    case (Some hs)
    with Cons group_page_hashes_faithful [OF Some] show ?thesis
      by (auto split: message.split prod.split sum.split)
  qed
qed

lemma replica_need_fine_sends:
  "\<forall>h \<in> set hashes. length h = 32 \<Longrightarrow> sends grpc_faithful (replica_need_fine rpc hashes c)"
  by (auto simp: replica_need_fine_def replica_fine_sends split: message.split)

lemma those_map_lengths:
  "those (map f xs) = Some ys \<Longrightarrow> (\<And>x h. f x = Some h \<Longrightarrow> length h = n) \<Longrightarrow> \<forall>h \<in> set ys. length h = n"
  using those_in_set by fastforce

lemma replica_hash_sizes:
  assumes "rayon_ordered (rayon_of X)" and "digest_size (digests_of X)"
  shows "replica_page_hashes X t alg bs psz rpc = Some hs \<Longrightarrow> \<forall>h \<in> set hs. length h = 32"
    and "replica_group_hashes X t alg hashes rpc = Some gs \<Longrightarrow> \<forall>h \<in> set gs. length h = 32"
  using assms
  by (auto simp: replica_page_hashes_def replica_groups_serial compute_same rayon_ordered_def
      replica_group_hash_def Let_def hash_lengths elim!: those_map_lengths)

lemma replica_sends:
  assumes "rayon_ordered (rayon_of X)" and "digest_size (digests_of X)"
  shows "sends grpc_faithful (replica_run_with_tuning X t c)"
  by (auto simp: replica_run_with_tuning_def replica_coarse_def replica_need_fine_sends
      replica_hash_sizes [OF assms] split: message.split sum.split option.split)

section \<open>Two handlers over gRPC\<close>

definition grpc_system ::
  "(message, sync_error, 'a, 'b) system \<Rightarrow> (sync_message, stream_end, 'a, 'b) system" where
  "grpc_system s =
     \<lparr>left = over_grpc (left s), right = over_grpc (right s), l2r = map to_proto (l2r s),
      r2l = map to_proto (r2l s)\<rparr>"

definition faithful_system :: "(message, sync_error, 'a, 'b) system \<Rightarrow> bool" where
  "faithful_system s \<longleftrightarrow>
     sends grpc_faithful (left s) \<and> sends grpc_faithful (right s) \<and>
     (\<forall>m \<in> set (l2r s) \<union> set (r2l s). grpc_faithful m)"

lemma left_move_grpc:
  assumes "faithful_system s"
  shows "left_move (grpc_system s) = map_option grpc_system (left_move s)"
    and "left_move s = Some s' \<Longrightarrow> faithful_system s'"
  using assms
  by (cases "left s"; cases "r2l s";
      auto simp: left_move_def grpc_system_def faithful_system_def grpc_send_error_def grpc_recv_def
        proto_roundtrip)+

lemma right_move_grpc:
  assumes "faithful_system s"
  shows "right_move (grpc_system s) = map_option grpc_system (right_move s)"
    and "right_move s = Some s' \<Longrightarrow> faithful_system s'"
  using assms
  by (cases "right s"; cases "l2r s";
      auto simp: right_move_def grpc_system_def faithful_system_def grpc_send_error_def grpc_recv_def
        proto_roundtrip)+

lemma grpc_simulates:
  "faithful_system s \<Longrightarrow> run_sys (grpc_system s) = grpc_system (run_sys s)"
proof (induction s rule: run_sys.induct)
  case (1 s)
  note moves = left_move_grpc [OF 1(3)] right_move_grpc [OF 1(3)]
  show ?case
  proof (cases "left_move s")
    case (Some t)
    with moves 1(2) [OF Some] show ?thesis by (simp add: run_sys_left)
  next
    case l: None
    show ?thesis
    proof (cases "right_move s")
      case (Some t)
      with l moves 1(1) [OF l Some] show ?thesis by (simp add: run_sys_right)
    next
      case None
      with l moves show ?thesis by (simp add: run_sys_end)
    qed
  qed
qed

lemma sync_system_faithful:
  assumes "rayon_ordered (rayon_of X)" and "digest_size (digests_of X)"
  shows "faithful_system (sync_system X t snap c)"
  by (simp add: faithful_system_def sync_system_def origin_sends replica_sends [OF assms])

end
