(* ===== verification/Statements.thy ===== *)
theory Statements
  imports Db Rust_Text
begin

text \<open>
  Prepared statements, typed values and the backup handle (\<open>PreparedStatement\<close>, \<open>SqlValue\<close>
  and \<open>Backup\<close> of \<open>src/src/db.rs\<close>). The C library is a parameter, the record \<open>sqlite\<close>: it acts
  on a state \<open>'w\<close>, the databases and the connection, and on a statement handle \<open>'s\<close>. Result
  codes, indices and counts are C \<open>int\<close>s; 64-bit integers and floats are their 64 bits.

  The operations are one definition each; the engine theories use them.
\<close>

type_synonym i64 = "64 word"
type_synonym f64 = "64 word"

datatype column_data_type = Ty_Integer | Ty_Float | Ty_Text | Ty_Blob | Ty_Null

datatype sql_value = V_Null | V_Integer i64 | V_Float f64 | V_Text string | V_Blob bytes

datatype step_result = Step_Row | Step_Done

text \<open>
  An argument of \<open>sqlite3_bind_*\<close>. A text or blob is passed with its length as an \<open>i32\<close>: a length
  of 2 GiB or more wraps, as \<open>val.len() as i32\<close> does.
\<close>

datatype bind_arg =
    Bind_Null
  | Bind_Int64 i64
  | Bind_Double f64
  | Bind_Text string "32 word"
  | Bind_Blob bytes "32 word"

record ('w, 's) sqlite =
  sq_errmsg :: "'w \<Rightarrow> string"
  sq_exec :: "string \<Rightarrow> 'w \<Rightarrow> 'w \<times> int"
  sq_changes :: "'w \<Rightarrow> 32 word"
  sq_last_insert_rowid :: "'w \<Rightarrow> i64"
  sq_prepare :: "string \<Rightarrow> 'w \<Rightarrow> 'w \<times> int \<times> 's"
  sq_readonly :: "'s \<Rightarrow> int"
  sq_step :: "'s \<Rightarrow> 'w \<Rightarrow> 'w \<times> 's \<times> int"
  sq_reset :: "'s \<Rightarrow> 'w \<Rightarrow> 'w \<times> 's \<times> int"
  sq_clear_bindings :: "'s \<Rightarrow> 'w \<Rightarrow> 'w \<times> 's \<times> int"
  sq_param_index :: "'s \<Rightarrow> string \<Rightarrow> int"
  sq_bind :: "'s \<Rightarrow> int \<Rightarrow> bind_arg \<Rightarrow> 'w \<Rightarrow> 'w \<times> 's \<times> int"
  sq_column_count :: "'s \<Rightarrow> int"
  sq_column_name :: "'s \<Rightarrow> int \<Rightarrow> string option"
  sq_column_decltype :: "'s \<Rightarrow> int \<Rightarrow> string option"
  sq_column_type :: "'s \<Rightarrow> int \<Rightarrow> int"
  sq_column_int64 :: "'s \<Rightarrow> int \<Rightarrow> i64"
  sq_column_double :: "'s \<Rightarrow> int \<Rightarrow> f64"
  sq_column_text :: "'s \<Rightarrow> int \<Rightarrow> string option"
  sq_column_blob :: "'s \<Rightarrow> int \<Rightarrow> bytes option"

text \<open>\<open>CString::new\<close> refuses a string with a NUL byte.\<close>

definition nul_error :: "string \<Rightarrow> sync_error option" where
  "nul_error s =
     (if CHR 0x00 \<in> set s then
        Some (Protocol (''nul byte found in provided data at position: '' @
          show_nat (length (takeWhile (\<lambda>c. c \<noteq> CHR 0x00) s))))
      else None)"

section \<open>The connection\<close>

definition exec_sql :: "('w, 's) sqlite \<Rightarrow> string \<Rightarrow> 'w \<Rightarrow> 'w \<times> unit res" where
  "exec_sql S sql w =
     (case nul_error sql of
        Some e \<Rightarrow> (w, Inl e)
      | None \<Rightarrow> (let (w', rc) = sq_exec S sql w in (w', check (sq_errmsg S w') rc)))"

definition wal_checkpoint :: "('w, 's) sqlite \<Rightarrow> 'w \<Rightarrow> 'w \<times> unit res" where
  "wal_checkpoint S = exec_sql S ''PRAGMA wal_checkpoint(TRUNCATE)''"

text \<open>\<open>sqlite3_changes\<close> is a C \<open>int\<close> cast to \<open>u64\<close>.\<close>

definition changes :: "('w, 's) sqlite \<Rightarrow> 'w \<Rightarrow> u64" where
  "changes S w = scast (sq_changes S w)"

section \<open>Statements\<close>

definition prepare :: "('w, 's) sqlite \<Rightarrow> string \<Rightarrow> 'w \<Rightarrow> 'w \<times> 's res" where
  "prepare S sql w =
     (case nul_error sql of
        Some e \<Rightarrow> (w, Inl e)
      | None \<Rightarrow>
          (let (w', rc, st) = sq_prepare S sql w
           in (w', case check (sq_errmsg S w') rc of Inl e \<Rightarrow> Inl e | Inr _ \<Rightarrow> Inr st)))"

definition is_readonly :: "('w, 's) sqlite \<Rightarrow> 's \<Rightarrow> bool" where
  "is_readonly S st \<longleftrightarrow> sq_readonly S st \<noteq> 0"

definition step_stmt :: "('w, 's) sqlite \<Rightarrow> 's \<Rightarrow> 'w \<Rightarrow> 'w \<times> 's \<times> step_result res" where
  "step_stmt S st w =
     (let (w', st', rc) = sq_step S st w
      in (w', st',
          if rc = SQLITE_ROW then Inr Step_Row
          else if rc = SQLITE_DONE then Inr Step_Done
          else (case check (sq_errmsg S w') rc of Inl e \<Rightarrow> Inl e | Inr _ \<Rightarrow> Inr Step_Done)))"

definition checked ::
  "('w, 's) sqlite \<Rightarrow> 'w \<times> 's \<times> int \<Rightarrow> 'w \<times> 's \<times> unit res" where
  "checked S r = (case r of (w', st', rc) \<Rightarrow> (w', st', check (sq_errmsg S w') rc))"

definition reset :: "('w, 's) sqlite \<Rightarrow> 's \<Rightarrow> 'w \<Rightarrow> 'w \<times> 's \<times> unit res" where
  "reset S st w = checked S (sq_reset S st w)"

definition clear_bindings :: "('w, 's) sqlite \<Rightarrow> 's \<Rightarrow> 'w \<Rightarrow> 'w \<times> 's \<times> unit res" where
  "clear_bindings S st w = checked S (sq_clear_bindings S st w)"

text \<open>The first spelling of the name that the statement has; names with a NUL byte are skipped.\<close>

fun first_index :: "('w, 's) sqlite \<Rightarrow> 's \<Rightarrow> string list \<Rightarrow> int option" where
  "first_index S st [] = None"
| "first_index S st (cand # cands) =
     (if CHR 0x00 \<in> set cand then first_index S st cands
      else if sq_param_index S st cand > 0 then Some (sq_param_index S st cand)
      else first_index S st cands)"

definition bind_parameter_index :: "('w, 's) sqlite \<Rightarrow> 's \<Rightarrow> string \<Rightarrow> int option" where
  "bind_parameter_index S st name =
     first_index S st [name, '':'' @ name, ''@'' @ name, ''$'' @ name]"

definition bind_null :: "('w, 's) sqlite \<Rightarrow> 's \<Rightarrow> int \<Rightarrow> 'w \<Rightarrow> 'w \<times> 's \<times> unit res" where
  "bind_null S st idx w = checked S (sq_bind S st idx Bind_Null w)"

definition bind_int64 :: "('w, 's) sqlite \<Rightarrow> 's \<Rightarrow> int \<Rightarrow> i64 \<Rightarrow> 'w \<Rightarrow> 'w \<times> 's \<times> unit res" where
  "bind_int64 S st idx v w = checked S (sq_bind S st idx (Bind_Int64 v) w)"

definition bind_double :: "('w, 's) sqlite \<Rightarrow> 's \<Rightarrow> int \<Rightarrow> f64 \<Rightarrow> 'w \<Rightarrow> 'w \<times> 's \<times> unit res" where
  "bind_double S st idx v w = checked S (sq_bind S st idx (Bind_Double v) w)"

definition bind_text :: "('w, 's) sqlite \<Rightarrow> 's \<Rightarrow> int \<Rightarrow> string \<Rightarrow> 'w \<Rightarrow> 'w \<times> 's \<times> unit res" where
  "bind_text S st idx v w = checked S (sq_bind S st idx (Bind_Text v (of_nat (length v))) w)"

definition bind_blob :: "('w, 's) sqlite \<Rightarrow> 's \<Rightarrow> int \<Rightarrow> bytes \<Rightarrow> 'w \<Rightarrow> 'w \<times> 's \<times> unit res" where
  "bind_blob S st idx v w = checked S (sq_bind S st idx (Bind_Blob v (of_nat (length v))) w)"

section \<open>Columns\<close>

definition column_count :: "('w, 's) sqlite \<Rightarrow> 's \<Rightarrow> int" where
  "column_count S st = sq_column_count S st"

definition column_name :: "('w, 's) sqlite \<Rightarrow> 's \<Rightarrow> int \<Rightarrow> string" where
  "column_name S st idx =
     (case sq_column_name S st idx of None \<Rightarrow> [] | Some n \<Rightarrow> utf8_lossy n)"

definition column_decltype :: "('w, 's) sqlite \<Rightarrow> 's \<Rightarrow> int \<Rightarrow> string option" where
  "column_decltype S st idx = map_option utf8_lossy (sq_column_decltype S st idx)"

definition column_type :: "('w, 's) sqlite \<Rightarrow> 's \<Rightarrow> int \<Rightarrow> column_data_type" where
  "column_type S st idx =
     (let code = sq_column_type S st idx in
      if code = 1 then Ty_Integer else if code = 2 then Ty_Float else if code = 3 then Ty_Text
      else if code = 4 then Ty_Blob else Ty_Null)"

definition column_value :: "('w, 's) sqlite \<Rightarrow> 's \<Rightarrow> int \<Rightarrow> sql_value" where
  "column_value S st idx =
     (case column_type S st idx of
        Ty_Null \<Rightarrow> V_Null
      | Ty_Integer \<Rightarrow> V_Integer (sq_column_int64 S st idx)
      | Ty_Float \<Rightarrow> V_Float (sq_column_double S st idx)
      | Ty_Text \<Rightarrow>
          V_Text (case sq_column_text S st idx of None \<Rightarrow> [] | Some b \<Rightarrow> utf8_lossy b)
      | Ty_Blob \<Rightarrow> V_Blob (case sq_column_blob S st idx of None \<Rightarrow> [] | Some b \<Rightarrow> b))"

section \<open>Backup\<close>

text \<open>
  The handle of \<open>sqlite3_backup_*\<close>, as what the library answers: whether \<open>init\<close> gave one, the
  codes of the steps and of \<open>finish\<close>, and the two counters.
\<close>

record 'b backup_api =
  bk_init :: "'b option"
  bk_errmsg :: string
  bk_step :: "'b \<Rightarrow> int \<Rightarrow> 'b \<times> int"
  bk_remaining :: "'b \<Rightarrow> int"
  bk_pagecount :: "'b \<Rightarrow> int"
  bk_finish :: "'b \<Rightarrow> int"

definition backup_new :: "'b backup_api \<Rightarrow> 'b res" where
  "backup_new B =
     (case bk_init B of None \<Rightarrow> Inl (Sqlite 1 (utf8_lossy (bk_errmsg B))) | Some b \<Rightarrow> Inr b)"

definition backup_step :: "'b backup_api \<Rightarrow> 'b \<Rightarrow> int \<Rightarrow> 'b \<times> bool res" where
  "backup_step B b n_pages =
     (let (b', rc) = bk_step B b n_pages
      in (b',
          if rc = SQLITE_DONE then Inr True
          else if rc = SQLITE_OK then Inr False
          else Inl (Sqlite rc ''sqlite3_backup_step failed'')))"

definition backup_remaining :: "'b backup_api \<Rightarrow> 'b \<Rightarrow> int" where
  "backup_remaining B b = bk_remaining B b"

definition backup_pagecount :: "'b backup_api \<Rightarrow> 'b \<Rightarrow> int" where
  "backup_pagecount B b = bk_pagecount B b"

definition backup_finish :: "'b backup_api \<Rightarrow> 'b \<Rightarrow> unit res" where
  "backup_finish B b =
     (let rc = bk_finish B b in
      if rc = SQLITE_OK \<or> rc = SQLITE_DONE then Inr ()
      else Inl (Sqlite rc ''sqlite3_backup_finish failed''))"

end
