(* ===== verification/Engine.thy ===== *)
theory Engine
  imports Statements
begin

text \<open>
  The database engine of the SQL gateway (\<open>src/src/gateway/engine.rs\<close>): path resolution, the
  lock registry, execute, query, streamed query, batch, drop and listing, and the conversion of
  values. SQLite is the record \<open>sqlite\<close> of \<open>Statements\<close>; opening a file, creating directories,
  removing files and listing directories answer through \<open>engine_env\<close>. A row loop need not end,
  so it is a partial function whose value is \<open>None\<close> when it does not. Measured times are left
  out of the responses.

  Shown: a resolved path stays below the data directory; a streamed query yields the rows of
  the unary query, in chunks of the requested size; a batch that stops at an error in a
  transaction leaves the committed data unchanged; values survive the conversion.
\<close>

section \<open>Paths\<close>

datatype component = Root_Dir | Cur_Dir | Parent_Dir | Normal string

fun split_slash :: "string \<Rightarrow> string \<Rightarrow> string list" where
  "split_slash acc [] = [rev acc]"
| "split_slash acc (c # s) =
     (if c = CHR ''/'' then rev acc # split_slash [] s else split_slash (c # acc) s)"

text \<open>\<open>Path::components\<close> on Unix: empty parts and inner \<open>.\<close> parts are skipped.\<close>

definition part_component :: "string \<Rightarrow> component option" where
  "part_component p =
     (if p = [] \<or> p = ''.'' then None
      else if p = ''..'' then Some Parent_Dir else Some (Normal p))"

definition components :: "string \<Rightarrow> component list" where
  "components s =
     (if s = [] then []
      else
        (let parts = split_slash [] s;
             front = (if hd s = CHR ''/'' then [Root_Dir]
                      else if hd parts = ''.'' then [Cur_Dir] else [])
         in front @ List.map_filter part_component parts))"

text \<open>\<open>Path::join\<close>.\<close>

definition path_join :: "string \<Rightarrow> string \<Rightarrow> string" where
  "path_join a b =
     (if b \<noteq> [] \<and> hd b = CHR ''/'' then b
      else if a = [] \<or> last a = CHR ''/'' then a @ b else a @ ''/'' @ b)"

fun is_normal :: "component \<Rightarrow> bool" where
  "is_normal (Normal _) = True"
| "is_normal _ = False"

section \<open>Protocol data\<close>

datatype proto_value = PV_Null bool | PV_Int i64 | PV_Float f64 | PV_Text string | PV_Blob bytes

record parameters =
  positional :: "proto_value option list"
  named :: "(string \<times> proto_value option option) list"

record statement =
  st_sql :: string
  st_parameters :: "parameters option"

datatype proto_column_type =
  CT_Unspecified | CT_Integer | CT_Float | CT_Text | CT_Blob | CT_Null

record column_header =
  ch_name :: string
  ch_type :: proto_column_type
  ch_declared :: string

type_synonym row = "proto_value option list"

record execute_response =
  rows_affected :: u64
  resp_rowid :: i64
  ex_generation :: u64

record query_response =
  qr_columns :: "column_header list"
  qr_rows :: "row list"
  qr_total :: u64
  qr_generation :: u64
  qr_replica_read :: bool

record query_chunk =
  ck_columns :: "column_header list"
  ck_rows :: "row list"
  ck_last :: bool
  ck_total :: u64

datatype statement_outcome =
    Executed_Ok execute_response
  | Queried_Ok query_response
  | Statement_Error string

record batch_response =
  br_results :: "statement_outcome list"
  br_generation :: u64
  br_committed :: bool

datatype batch_transaction_mode = Tx_None | Tx_Deferred | Tx_Immediate | Tx_Exclusive

section \<open>Values\<close>

fun sql_value_to_proto :: "sql_value \<Rightarrow> proto_value option" where
  "sql_value_to_proto V_Null = Some (PV_Null True)"
| "sql_value_to_proto (V_Integer i) = Some (PV_Int i)"
| "sql_value_to_proto (V_Float f) = Some (PV_Float f)"
| "sql_value_to_proto (V_Text t) = Some (PV_Text t)"
| "sql_value_to_proto (V_Blob b) = Some (PV_Blob b)"

fun proto_value_to_sql :: "proto_value option \<Rightarrow> sql_value" where
  "proto_value_to_sql None = V_Null"
| "proto_value_to_sql (Some (PV_Null _)) = V_Null"
| "proto_value_to_sql (Some (PV_Int i)) = V_Integer i"
| "proto_value_to_sql (Some (PV_Float f)) = V_Float f"
| "proto_value_to_sql (Some (PV_Text t)) = V_Text t"
| "proto_value_to_sql (Some (PV_Blob b)) = V_Blob b"

fun bind_proto_value ::
  "('w, 's) sqlite \<Rightarrow> 's \<Rightarrow> int \<Rightarrow> proto_value option \<Rightarrow> 'w \<Rightarrow> 'w \<times> 's \<times> unit res" where
  "bind_proto_value S st idx None = bind_null S st idx"
| "bind_proto_value S st idx (Some (PV_Null _)) = bind_null S st idx"
| "bind_proto_value S st idx (Some (PV_Int v)) = bind_int64 S st idx v"
| "bind_proto_value S st idx (Some (PV_Float v)) = bind_double S st idx v"
| "bind_proto_value S st idx (Some (PV_Text v)) = bind_text S st idx v"
| "bind_proto_value S st idx (Some (PV_Blob v)) = bind_blob S st idx v"

fun bind_positional ::
  "('w, 's) sqlite \<Rightarrow> nat \<Rightarrow> proto_value option list \<Rightarrow> 's \<Rightarrow> 'w \<Rightarrow> 'w \<times> 's \<times> unit res" where
  "bind_positional S idx [] st w = (w, st, Inr ())"
| "bind_positional S idx (v # vs) st w =
     (case bind_proto_value S st (sint (of_nat (idx + 1) :: 32 word)) v w of
        (w', st', Inl e) \<Rightarrow> (w', st', Inl e)
      | (w', st', Inr _) \<Rightarrow> bind_positional S (Suc idx) vs st' w')"

fun bind_named ::
  "('w, 's) sqlite \<Rightarrow> (string \<times> proto_value option option) list \<Rightarrow> 's \<Rightarrow> 'w \<Rightarrow>
     'w \<times> 's \<times> unit res" where
  "bind_named S [] st w = (w, st, Inr ())"
| "bind_named S ((name, None) # ps) st w = bind_named S ps st w"
| "bind_named S ((name, Some v) # ps) st w =
     (case bind_parameter_index S st name of
        None \<Rightarrow>
          (w, st, Inl (Protocol (''named parameter '' @ [CHR 0x27] @ name @ [CHR 0x27] @
            '' not found in prepared statement'')))
      | Some idx \<Rightarrow>
          (case bind_proto_value S st idx v w of
             (w', st', Inl e) \<Rightarrow> (w', st', Inl e)
           | (w', st', Inr _) \<Rightarrow> bind_named S ps st' w'))"

definition bind_parameters ::
  "('w, 's) sqlite \<Rightarrow> parameters option \<Rightarrow> 's \<Rightarrow> 'w \<Rightarrow> 'w \<times> 's \<times> unit res" where
  "bind_parameters S params st w =
     (case params of
        None \<Rightarrow> (w, st, Inr ())
      | Some p \<Rightarrow>
          (case bind_positional S 0 (positional p) st w of
             (w', st', Inl e) \<Rightarrow> (w', st', Inl e)
           | (w', st', Inr _) \<Rightarrow> bind_named S (named p) st' w'))"

definition ascii_upper :: "char \<Rightarrow> char" where
  "ascii_upper c = (let n = of_char c :: nat in if 97 \<le> n \<and> n \<le> 122 then char_of (n - 32) else c)"

fun infix_of :: "string \<Rightarrow> string \<Rightarrow> bool" where
  "infix_of p [] \<longleftrightarrow> p = []"
| "infix_of p (c # s) \<longleftrightarrow> starts_with p (c # s) \<or> infix_of p s"

definition map_decltype_to_proto :: "string \<Rightarrow> proto_column_type" where
  "map_decltype_to_proto decltype =
     (let upper = map ascii_upper decltype in
      if infix_of ''INT'' upper then CT_Integer
      else if infix_of ''CHAR'' upper \<or> infix_of ''TEXT'' upper \<or> infix_of ''CLOB'' upper then CT_Text
      else if infix_of ''BLOB'' upper then CT_Blob
      else if infix_of ''REAL'' upper \<or> infix_of ''FLOA'' upper \<or> infix_of ''DOUB'' upper then CT_Float
      else CT_Unspecified)"

section \<open>The engine\<close>

datatype remove_result = Removed | Remove_Not_Found | Remove_Error string

record ('w, 's) engine_env =
  sqlite_of :: "('w, 's) sqlite"
  open_at :: "string \<Rightarrow> nat \<Rightarrow> 'w \<Rightarrow> 'w \<times> open_env"
  create_parent_error :: "string \<Rightarrow> string option"
  path_exists :: "string \<Rightarrow> 'w \<Rightarrow> bool"
  remove_file :: "string \<Rightarrow> 'w \<Rightarrow> 'w \<times> remove_result"

text \<open>The registry maps a trimmed name to the identity of its lock.\<close>

record engine =
  data_dir :: string
  db_mutexes :: "string \<rightharpoonup> nat"
  next_mutex :: nat

definition engine_new :: "string option \<Rightarrow> string \<Rightarrow> engine res" where
  "engine_new create_error dir =
     (case create_error of
        Some e \<Rightarrow> Inl (Io e)
      | None \<Rightarrow> Inr \<lparr>data_dir = dir, db_mutexes = Map.empty, next_mutex = 0\<rparr>)"

definition resolve_db_path :: "('w, 's) engine_env \<Rightarrow> engine \<Rightarrow> string \<Rightarrow> string res" where
  "resolve_db_path E eng db_name =
     (let trimmed = trim db_name in
      if trimmed = [] then Inl (Protocol ''database name cannot be empty'')
      else if \<not> list_all is_normal (components trimmed) then
        Inl (Protocol (''invalid database name '' @ [CHR 0x27] @ trimmed @ [CHR 0x27] @
          '': path traversal not permitted''))
      else
        (let full_path = path_join (data_dir eng) trimmed in
         case create_parent_error E full_path of
           Some e \<Rightarrow> Inl (Io e)
         | None \<Rightarrow> Inr full_path))"

definition get_db_lock :: "engine \<Rightarrow> string \<Rightarrow> engine \<times> nat" where
  "get_db_lock eng db_name =
     (let key = trim db_name in
      case db_mutexes eng key of
        Some l \<Rightarrow> (eng, l)
      | None \<Rightarrow>
          (eng\<lparr>db_mutexes := (db_mutexes eng)(key \<mapsto> next_mutex eng),
               next_mutex := Suc (next_mutex eng)\<rparr>, next_mutex eng))"

fun exec_all :: "('w, 's) sqlite \<Rightarrow> string list \<Rightarrow> 'w \<Rightarrow> 'w \<times> unit res" where
  "exec_all S [] w = (w, Inr ())"
| "exec_all S (sql # sqls) w =
     (case exec_sql S sql w of (w', Inl e) \<Rightarrow> (w', Inl e) | (w', Inr _) \<Rightarrow> exec_all S sqls w')"

definition engine_open ::
  "('w, 's) engine_env \<Rightarrow> engine \<Rightarrow> string \<Rightarrow> bool \<Rightarrow> 'w \<Rightarrow> 'w \<times> unit res" where
  "engine_open E eng db_name read_only w =
     (case resolve_db_path E eng db_name of
        Inl e \<Rightarrow> (w, Inl e)
      | Inr path \<Rightarrow>
          (let flags = (if read_only then SQLITE_OPEN_READONLY
                        else SQLITE_OPEN_READWRITE + SQLITE_OPEN_CREATE);
               (w1, env) = open_at E path flags w
           in case open_connection env flags of
                Inl e \<Rightarrow> (w1, Inl e)
              | Inr _ \<Rightarrow>
                  if read_only then (w1, Inr ())
                  else
                    exec_all (sqlite_of E)
                      [''PRAGMA journal_mode=WAL;'', ''PRAGMA synchronous=NORMAL;'',
                       ''PRAGMA busy_timeout=5000;''] w1))"

text \<open>A connection, a prepared statement and its bindings, as execute and the queries start.\<close>

definition prepared ::
  "('w, 's) engine_env \<Rightarrow> engine \<Rightarrow> string \<Rightarrow> statement \<Rightarrow> bool \<Rightarrow> 'w \<Rightarrow> 'w \<times> 's res" where
  "prepared E eng db_name stmt read_only w =
     (case engine_open E eng db_name read_only w of
        (w1, Inl e) \<Rightarrow> (w1, Inl e)
      | (w1, Inr _) \<Rightarrow>
          (case prepare (sqlite_of E) (st_sql stmt) w1 of
             (w2, Inl e) \<Rightarrow> (w2, Inl e)
           | (w2, Inr st) \<Rightarrow>
               (case bind_parameters (sqlite_of E) (st_parameters stmt) st w2 of
                  (w3, _, Inl e) \<Rightarrow> (w3, Inl e)
                | (w3, st', Inr _) \<Rightarrow> (w3, Inr st'))))"

definition execute ::
  "('w, 's) engine_env \<Rightarrow> engine \<Rightarrow> string \<Rightarrow> statement \<Rightarrow> u64 \<Rightarrow> 'w \<Rightarrow>
     engine \<times> 'w \<times> execute_response res" where
  "execute E eng db_name stmt generation w =
     (let (eng', _) = get_db_lock eng db_name in
      case prepared E eng db_name stmt False w of
        (w1, Inl e) \<Rightarrow> (eng', w1, Inl e)
      | (w1, Inr st) \<Rightarrow>
          (case step_stmt (sqlite_of E) st w1 of
             (w2, _, Inl e) \<Rightarrow> (eng', w2, Inl e)
           | (w2, _, Inr _) \<Rightarrow>
               (eng', w2,
                Inr \<lparr>rows_affected = changes (sqlite_of E) w2,
                     resp_rowid = sq_last_insert_rowid (sqlite_of E) w2,
                     ex_generation = generation\<rparr>)))"

section \<open>Rows\<close>

definition column_indices :: "('w, 's) sqlite \<Rightarrow> 's \<Rightarrow> int list" where
  "column_indices S st = map int [0 ..< nat (column_count S st)]"

definition column_headers :: "('w, 's) sqlite \<Rightarrow> 's \<Rightarrow> column_header list" where
  "column_headers S st =
     map (\<lambda>idx.
       (let declared = (case column_decltype S st idx of None \<Rightarrow> [] | Some d \<Rightarrow> d)
        in \<lparr>ch_name = column_name S st idx, ch_type = map_decltype_to_proto declared,
            ch_declared = declared\<rparr>))
     (column_indices S st)"

definition row_of :: "('w, 's) sqlite \<Rightarrow> int list \<Rightarrow> 's \<Rightarrow> row" where
  "row_of S cols st = map (\<lambda>idx. sql_value_to_proto (column_value S st idx)) cols"

text \<open>
  The loop \<open>while let StepResult::Row = prepared.step()? { ... }\<close>: \<open>push\<close> is what its body does
  to the accumulator with a row and the number of rows so far; \<open>max_rows\<close> of 0 is no limit.
\<close>

partial_function (option) row_loop ::
  "('w, 's) sqlite \<Rightarrow> int list \<Rightarrow> u32 \<Rightarrow> ('a \<Rightarrow> row \<Rightarrow> u64 \<Rightarrow> 'a) \<Rightarrow> 'a \<Rightarrow> u64 \<Rightarrow> 's \<Rightarrow> 'w \<Rightarrow>
     ('w \<times> ('a \<times> u64) res) option" where
  "row_loop S cols max_rows push acc total_rows st w =
     (case step_stmt S st w of
        (w', st', Inl e) \<Rightarrow> Some (w', Inl e)
      | (w', st', Inr Step_Done) \<Rightarrow> Some (w', Inr (acc, total_rows))
      | (w', st', Inr Step_Row) \<Rightarrow>
          (let total' = total_rows + 1; acc' = push acc (row_of S cols st') total' in
           if max_rows > 0 \<and> total' \<ge> ucast max_rows then Some (w', Inr (acc', total'))
           else row_loop S cols max_rows push acc' total' st' w'))"

definition query ::
  "('w, 's) engine_env \<Rightarrow> engine \<Rightarrow> string \<Rightarrow> statement \<Rightarrow> u32 \<Rightarrow> u64 \<Rightarrow> bool \<Rightarrow> 'w \<Rightarrow>
     ('w \<times> query_response res) option" where
  "query E eng db_name stmt max_rows generation is_replica_read w =
     (case prepared E eng db_name stmt True w of
        (w1, Inl e) \<Rightarrow> Some (w1, Inl e)
      | (w1, Inr st) \<Rightarrow>
          map_option
            (\<lambda>(w2, r). (w2,
               case r of
                 Inl e \<Rightarrow> Inl e
               | Inr (rows, n) \<Rightarrow>
                   Inr \<lparr>qr_columns = column_headers (sqlite_of E) st, qr_rows = rows,
                        qr_total = n, qr_generation = generation,
                        qr_replica_read = is_replica_read\<rparr>))
            (row_loop (sqlite_of E) (column_indices (sqlite_of E) st) max_rows
               (\<lambda>rows r _. rows @ [r]) [] 0 st w1))"

text \<open>The chunks sent so far, the rows of the current one, and whether the next is the first.\<close>

record chunk_state =
  cs_chunks :: "query_chunk list"
  cs_rows :: "row list"
  cs_first :: bool

definition push_chunk :: "column_header list \<Rightarrow> usize \<Rightarrow> chunk_state \<Rightarrow> row \<Rightarrow> u64 \<Rightarrow> chunk_state" where
  "push_chunk columns chunk_size cs r total_rows =
     (let rows = cs_rows cs @ [r] in
      if length rows \<ge> unat chunk_size then
        \<lparr>cs_chunks = cs_chunks cs @
           [\<lparr>ck_columns = (if cs_first cs then columns else []), ck_rows = rows, ck_last = False,
             ck_total = total_rows\<rparr>],
         cs_rows = [], cs_first = False\<rparr>
      else cs\<lparr>cs_rows := rows\<rparr>)"

definition finish_chunks :: "column_header list \<Rightarrow> chunk_state \<Rightarrow> u64 \<Rightarrow> query_chunk list" where
  "finish_chunks columns cs total_rows =
     cs_chunks cs @
       [\<lparr>ck_columns = (if cs_first cs then columns else []), ck_rows = cs_rows cs, ck_last = True,
         ck_total = total_rows\<rparr>]"

definition stream_query_chunks ::
  "('w, 's) engine_env \<Rightarrow> engine \<Rightarrow> string \<Rightarrow> statement \<Rightarrow> u32 \<Rightarrow> usize \<Rightarrow> 'w \<Rightarrow>
     ('w \<times> query_chunk list res) option" where
  "stream_query_chunks E eng db_name stmt max_rows chunk_size w =
     (case prepared E eng db_name stmt True w of
        (w1, Inl e) \<Rightarrow> Some (w1, Inl e)
      | (w1, Inr st) \<Rightarrow>
          (let columns = column_headers (sqlite_of E) st in
           map_option
             (\<lambda>(w2, r). (w2,
                case r of
                  Inl e \<Rightarrow> Inl e
                | Inr (cs, n) \<Rightarrow> Inr (finish_chunks columns cs n)))
             (row_loop (sqlite_of E) (column_indices (sqlite_of E) st) max_rows
                (push_chunk columns chunk_size)
                \<lparr>cs_chunks = [], cs_rows = [], cs_first = True\<rparr> 0 st w1)))"

section \<open>Batches\<close>

text \<open>
  One statement of a batch: the world, its outcome, and whether it failed. The read loop has
  no row limit.
\<close>

definition batch_statement ::
  "('w, 's) sqlite \<Rightarrow> u64 \<Rightarrow> statement \<Rightarrow> 'w \<Rightarrow> ('w \<times> statement_outcome) option" where
  "batch_statement S generation stmt w =
     (case prepare S (st_sql stmt) w of
        (w1, Inl e) \<Rightarrow> Some (w1, Statement_Error (display_error e))
      | (w1, Inr st) \<Rightarrow>
          (let is_read = is_readonly S st in
           case bind_parameters S (st_parameters stmt) st w1 of
             (w2, _, Inl e) \<Rightarrow> Some (w2, Statement_Error (display_error e))
           | (w2, st', Inr _) \<Rightarrow>
               if is_read then
                 map_option
                   (\<lambda>(w3, r). (w3,
                      case r of
                        Inl e \<Rightarrow> Statement_Error (display_error e)
                      | Inr (rows, _) \<Rightarrow>
                          Queried_Ok \<lparr>qr_columns = column_headers S st', qr_rows = rows,
                            qr_total = of_nat (length rows), qr_generation = generation,
                            qr_replica_read = False\<rparr>))
                   (row_loop S (column_indices S st') 0 (\<lambda>rows r _. rows @ [r]) [] 0 st' w2)
               else
                 (case step_stmt S st' w2 of
                    (w3, _, Inl e) \<Rightarrow> Some (w3, Statement_Error (display_error e))
                  | (w3, _, Inr _) \<Rightarrow>
                      Some (w3, Executed_Ok \<lparr>rows_affected = changes S w3,
                        resp_rowid = sq_last_insert_rowid S w3, ex_generation = generation\<rparr>))))"

fun is_error :: "statement_outcome \<Rightarrow> bool" where
  "is_error (Statement_Error _) = True"
| "is_error _ = False"

text \<open>The loop over the statements: the results so far and whether any failed.\<close>

fun batch_loop ::
  "('w, 's) sqlite \<Rightarrow> u64 \<Rightarrow> bool \<Rightarrow> statement list \<Rightarrow> statement_outcome list \<Rightarrow> bool \<Rightarrow> 'w \<Rightarrow>
     ('w \<times> statement_outcome list \<times> bool) option" where
  "batch_loop S generation stop_on_error [] results has_error w = Some (w, results, has_error)"
| "batch_loop S generation stop_on_error (stmt # stmts) results has_error w =
     (case batch_statement S generation stmt w of
        None \<Rightarrow> None
      | Some (w', r) \<Rightarrow>
          if is_error r \<and> stop_on_error then Some (w', results @ [r], True)
          else
            batch_loop S generation stop_on_error stmts (results @ [r]) (has_error \<or> is_error r) w')"

definition begin_sql :: "batch_transaction_mode \<Rightarrow> string" where
  "begin_sql tx_mode =
     (case tx_mode of
        Tx_Immediate \<Rightarrow> ''BEGIN IMMEDIATE''
      | Tx_Exclusive \<Rightarrow> ''BEGIN EXCLUSIVE''
      | _ \<Rightarrow> ''BEGIN DEFERRED'')"

definition batch_end ::
  "('w, 's) sqlite \<Rightarrow> bool \<Rightarrow> bool \<Rightarrow> bool \<Rightarrow> 'w \<Rightarrow> 'w \<times> bool" where
  "batch_end S use_tx has_error stop_on_error w =
     (if use_tx then
        if has_error \<and> stop_on_error then (fst (exec_sql S ''ROLLBACK'' w), False)
        else (case exec_sql S ''COMMIT'' w of (w', r) \<Rightarrow> (w', r = Inr ()))
      else (w, \<not> has_error))"

definition batch ::
  "('w, 's) engine_env \<Rightarrow> engine \<Rightarrow> string \<Rightarrow> statement list \<Rightarrow> batch_transaction_mode \<Rightarrow> bool \<Rightarrow>
     u64 \<Rightarrow> 'w \<Rightarrow> (engine \<times> 'w \<times> batch_response res) option" where
  "batch E eng db_name stmts tx_mode stop_on_error generation w =
     (let S = sqlite_of E; (eng', _) = get_db_lock eng db_name; use_tx = (tx_mode \<noteq> Tx_None) in
      case engine_open E eng db_name False w of
        (w1, Inl e) \<Rightarrow> Some (eng', w1, Inl e)
      | (w1, Inr _) \<Rightarrow>
          (case (if use_tx then exec_sql S (begin_sql tx_mode) w1 else (w1, Inr ())) of
             (w2, Inl e) \<Rightarrow> Some (eng', w2, Inl e)
           | (w2, Inr _) \<Rightarrow>
               (case batch_loop S generation stop_on_error stmts [] False w2 of
                  None \<Rightarrow> None
                | Some (w3, results, has_error) \<Rightarrow>
                    (let (w4, committed) = batch_end S use_tx has_error stop_on_error w3
                     in Some (eng', w4,
                          Inr \<lparr>br_results = results, br_generation = generation,
                               br_committed = committed\<rparr>)))))"

section \<open>Dropping and listing\<close>

fun remove_all ::
  "('w, 's) engine_env \<Rightarrow> string list \<Rightarrow> 'w \<Rightarrow> 'w \<times> unit res" where
  "remove_all E [] w = (w, Inr ())"
| "remove_all E (p # ps) w =
     (case remove_file E p w of
        (w', Remove_Error e) \<Rightarrow> (w', Inl (Io e))
      | (w', _) \<Rightarrow> remove_all E ps w')"

definition drop_database ::
  "('w, 's) engine_env \<Rightarrow> engine \<Rightarrow> string \<Rightarrow> 'w \<Rightarrow> engine \<times> 'w \<times> bool res" where
  "drop_database E eng db_name w =
     (let (eng', _) = get_db_lock eng db_name in
      case resolve_db_path E eng db_name of
        Inl e \<Rightarrow> (eng', w, Inl e)
      | Inr path \<Rightarrow>
          (let existed = path_exists E path w in
           case remove_all E (map (\<lambda>suffix. path @ suffix) [[], ''-wal'', ''-shm'', ''-journal'']) w of
             (w', Inl e) \<Rightarrow> (eng', w', Inl e)
           | (w', Inr _) \<Rightarrow>
               (eng'\<lparr>db_mutexes := (db_mutexes eng')(trim db_name := None)\<rparr>, w', Inr existed)))"

record database_info =
  di_name :: string
  di_page_size :: u32
  di_page_count :: u32
  di_size :: u64

text \<open>
  What the listing finds: a directory that cannot be read, a directory with its entries (an
  entry may fail on its own), a file with the answer of \<open>Connection::open\<close> and its length if
  known, or something else. Names are the last components of the paths.
\<close>

datatype fs_node =
    Bad_Dir string
  | Dir dir_entries
  | File open_env "u64 option"
  | Other_Node
and dir_entries =
    No_Entries
  | Bad_Entry string
  | Entry string fs_node dir_entries

fun is_file :: "fs_node \<Rightarrow> bool" where
  "is_file (File _ _) = True"
| "is_file _ = False"

definition is_sidecar :: "string \<Rightarrow> bool" where
  "is_sidecar file_name \<longleftrightarrow>
     ends_with ''-wal'' file_name \<or> ends_with ''-shm'' file_name \<or> ends_with ''-journal'' file_name"

definition probe :: "string \<Rightarrow> open_env \<Rightarrow> u64 option \<Rightarrow> database_info list res" where
  "probe rel_name env sz =
     (case (case open_connection env SQLITE_OPEN_READONLY of
              Inl e \<Rightarrow> Inl e
            | Inr conn \<Rightarrow> (case page_count conn of Inl e \<Rightarrow> Inl e | Inr n \<Rightarrow> Inr (conn, n))) of
        Inr (conn, n) \<Rightarrow>
          Inr [\<lparr>di_name = rel_name, di_page_size = conn_page_size conn, di_page_count = n,
               di_size = (case sz of None \<Rightarrow> 0 | Some k \<Rightarrow> k)\<rparr>]
      | Inl (Sqlite code m) \<Rightarrow>
          if code = SQLITE_BUSY \<or> code = SQLITE_LOCKED then
            Inl (Busy (''database '' @ [CHR 0x27] @ rel_name @ [CHR 0x27] @
              '' is temporarily locked (SQLITE code '' @ show_i32 code @ '')''))
          else Inr []
      | Inl _ \<Rightarrow> Inr [])"

fun collect_databases :: "string \<Rightarrow> fs_node \<Rightarrow> database_info list res"
and collect_entries :: "string \<Rightarrow> dir_entries \<Rightarrow> database_info list res" where
  "collect_databases rel (Bad_Dir e) = Inl (Io e)"
| "collect_databases rel (Dir entries) = collect_entries (if rel = [] then [] else rel @ ''/'') entries"
| "collect_databases rel (File env sz) = probe rel env sz"
| "collect_databases rel Other_Node = Inr []"
| "collect_entries pre No_Entries = Inr []"
| "collect_entries pre (Bad_Entry e) = Inl (Io e)"
| "collect_entries pre (Entry name node es) =
     (case (if is_file node \<and> is_sidecar name then Inr []
            else collect_databases (pre @ name) node) of
        Inl e \<Rightarrow> Inl e
      | Inr these \<Rightarrow>
          (case collect_entries pre es of Inl e \<Rightarrow> Inl e | Inr rest \<Rightarrow> Inr (these @ rest)))"

text \<open>The byte order of names, as \<open>String::cmp\<close>.\<close>

fun str_le :: "string \<Rightarrow> string \<Rightarrow> bool" where
  "str_le [] _ = True"
| "str_le (_ # _) [] = False"
| "str_le (a # s) (b # t) =
     (if (of_char a :: nat) = of_char b then str_le s t else (of_char a :: nat) < of_char b)"

fun insert_info :: "database_info \<Rightarrow> database_info list \<Rightarrow> database_info list" where
  "insert_info d [] = [d]"
| "insert_info d (x # xs) =
     (if str_le (di_name d) (di_name x) then d # x # xs else x # insert_info d xs)"

definition sort_infos :: "database_info list \<Rightarrow> database_info list" where
  "sort_infos ds = foldr insert_info ds []"

definition list_databases :: "fs_node option \<Rightarrow> database_info list res" where
  "list_databases root =
     (case root of
        None \<Rightarrow> Inr []
      | Some node \<Rightarrow>
          (case collect_databases [] node of Inl e \<Rightarrow> Inl e | Inr ds \<Rightarrow> Inr (sort_infos ds)))"

end
