(* ===== verification/Ha_Lease.thy ===== *)
theory Ha_Lease
  imports Kv_Text
begin

text \<open>
  Lease and freshness records of the high-availability mode and where they come from
  (first part of \<open>src/src/ha.rs\<close>): the text format of the lease file, the freshness ledger,
  the Kubernetes \<open>Lease\<close> object and the call of \<open>kubectl\<close>. The JSON and date libraries are a
  parameter, the record \<open>json_api\<close>; the answer of \<open>kubectl\<close> is a parameter too.

  Shown: a lease record survives printing and parsing, for holders that are trimmed and on
  one line; a Kubernetes lease without a holder is no lease.
\<close>

record lease_record =
  holder_node_id :: string
  lease_generation :: u64
  renewed_at_secs :: u64
  ttl_secs :: u64

definition is_expired :: "lease_record \<Rightarrow> u64 \<Rightarrow> bool" where
  "is_expired lease now_secs \<longleftrightarrow>
     now_secs > saturating_add (renewed_at_secs lease) (ttl_secs lease)"

record freshness_ledger =
  source_node_id :: string
  source_generation :: u64
  synced_at_secs :: u64

section \<open>Text formats\<close>

definition serialize_lease_record :: "lease_record \<Rightarrow> string" where
  "serialize_lease_record lease =
     ''holder_node_id='' @ holder_node_id lease @ [CHR 0x0A] @
     ''generation='' @ show_word (lease_generation lease) @ [CHR 0x0A] @
     ''renewed_at_secs='' @ show_word (renewed_at_secs lease) @ [CHR 0x0A] @
     ''ttl_secs='' @ show_word (ttl_secs lease) @ [CHR 0x0A]"

definition parse_lease_record :: "string \<Rightarrow> lease_record kv_result" where
  "parse_lease_record input =
     (case parse_kv_lines ''lease'' input
             [''holder_node_id'', ''generation'', ''renewed_at_secs'', ''ttl_secs''] of
        Inl e \<Rightarrow> Inl e
      | Inr m \<Rightarrow>
          (case require_non_empty m ''holder_node_id'' of
             Inl e \<Rightarrow> Inl e
           | Inr holder \<Rightarrow>
               (case require_u64 m ''generation'' of
                  Inl e \<Rightarrow> Inl e
                | Inr g \<Rightarrow>
                    (case require_u64 m ''renewed_at_secs'' of
                       Inl e \<Rightarrow> Inl e
                     | Inr r \<Rightarrow>
                         (case require_u64 m ''ttl_secs'' of
                            Inl e \<Rightarrow> Inl e
                          | Inr t \<Rightarrow>
                              Inr \<lparr>holder_node_id = holder, lease_generation = g,
                                   renewed_at_secs = r, ttl_secs = t\<rparr>)))))"

definition parse_freshness_ledger :: "string \<Rightarrow> freshness_ledger kv_result" where
  "parse_freshness_ledger input =
     (case parse_kv_lines ''freshness'' input
             [''source_node_id'', ''source_generation'', ''synced_at_secs''] of
        Inl e \<Rightarrow> Inl e
      | Inr m \<Rightarrow>
          (case require_non_empty m ''source_node_id'' of
             Inl e \<Rightarrow> Inl e
           | Inr source \<Rightarrow>
               (case require_u64 m ''source_generation'' of
                  Inl e \<Rightarrow> Inl e
                | Inr g \<Rightarrow>
                    (case require_u64 m ''synced_at_secs'' of
                       Inl e \<Rightarrow> Inl e
                     | Inr s \<Rightarrow>
                         Inr \<lparr>source_node_id = source, source_generation = g,
                              synced_at_secs = s\<rparr>))))"

text \<open>\<open>FileLeaseReader::read_lease\<close> on what reading the lease file gives.\<close>

definition file_read_lease :: "file_read \<Rightarrow> lease_record option kv_result" where
  "file_read_lease f =
     (case read_optional_kv_text f of
        Inl e \<Rightarrow> Inl (''failed reading lease file: '' @ e)
      | Inr None \<Rightarrow> Inr None
      | Inr (Some text) \<Rightarrow>
          (case parse_lease_record text of Inl e \<Rightarrow> Inl e | Inr l \<Rightarrow> Inr (Some l)))"

section \<open>Kubernetes\<close>

text \<open>
  \<open>serde_json\<close> and \<open>chrono\<close>: parsing a document, looking up a member, reading a string or an
  unsigned number, and the Unix time of an RFC 3339 date.
\<close>

record 'v json_api =
  json_from_str :: "string \<Rightarrow> string + 'v"
  json_get :: "'v \<Rightarrow> string \<Rightarrow> 'v option"
  json_as_str :: "'v \<Rightarrow> string option"
  json_as_u64 :: "'v \<Rightarrow> u64 option"
  rfc3339_timestamp :: "string \<Rightarrow> string + int"

definition K8S_GENERATION_ANNOTATION_KEY :: string where
  "K8S_GENERATION_ANNOTATION_KEY = ''rsqlite-rsync.dev/generation''"

definition k8s_holder :: "'v json_api \<Rightarrow> 'v \<Rightarrow> string option" where
  "k8s_holder J spec =
     (case Option.bind (json_get J spec ''holderIdentity'') (json_as_str J) of
        None \<Rightarrow> None
      | Some h \<Rightarrow> if trim h = [] then None else Some (trim h))"

definition k8s_renewed_at :: "'v json_api \<Rightarrow> 'v \<Rightarrow> u64 kv_result" where
  "k8s_renewed_at J spec =
     (case Option.bind (json_get J spec ''renewTime'') (json_as_str J) of
        None \<Rightarrow> Inl ''lease json missing spec.renewTime''
      | Some raw \<Rightarrow>
          (case rfc3339_timestamp J raw of
             Inl e \<Rightarrow> Inl (''invalid spec.renewTime: '' @ e)
           | Inr ts \<Rightarrow>
               if ts < 0 then Inl ''spec.renewTime resolved to a negative unix timestamp''
               else Inr (of_int ts)))"

definition k8s_generation :: "'v json_api \<Rightarrow> 'v \<Rightarrow> u64 kv_result" where
  "k8s_generation J v =
     (case Option.bind (json_get J v ''metadata'') (\<lambda>metadata.
             Option.bind (json_get J metadata ''annotations'') (\<lambda>annotations.
             Option.bind (json_get J annotations K8S_GENERATION_ANNOTATION_KEY) (json_as_str J))) of
        None \<Rightarrow> Inl (''lease json missing metadata.annotations['' @
                     K8S_GENERATION_ANNOTATION_KEY @ '']'')
      | Some s \<Rightarrow>
          (case parse_u64 s of
             None \<Rightarrow> Inl (''invalid metadata.annotations['' @ K8S_GENERATION_ANNOTATION_KEY @
                          '']: '' @ s)
           | Some g \<Rightarrow> Inr g))"

definition parse_kubernetes_lease_json ::
  "'v json_api \<Rightarrow> string \<Rightarrow> lease_record option kv_result" where
  "parse_kubernetes_lease_json J input =
     (case json_from_str J input of
        Inl e \<Rightarrow> Inl (''invalid lease json: '' @ e)
      | Inr v \<Rightarrow>
          (case json_get J v ''spec'' of
             None \<Rightarrow> Inl ''lease json missing spec''
           | Some spec \<Rightarrow>
               (case k8s_holder J spec of
                  None \<Rightarrow> Inr None
                | Some holder \<Rightarrow>
                    (case Option.bind (json_get J spec ''leaseDurationSeconds'') (json_as_u64 J) of
                       None \<Rightarrow> Inl ''lease json missing spec.leaseDurationSeconds''
                     | Some ttl \<Rightarrow>
                         (case k8s_renewed_at J spec of
                            Inl e \<Rightarrow> Inl e
                          | Inr renewed \<Rightarrow>
                              (case k8s_generation J v of
                                 Inl e \<Rightarrow> Inl e
                               | Inr g \<Rightarrow>
                                   Inr (Some \<lparr>holder_node_id = holder, lease_generation = g,
                                              renewed_at_secs = renewed, ttl_secs = ttl\<rparr>)))))))"

record kubectl_reader =
  kubectl_path :: string
  namespace :: string
  lease_name :: string
  kube_context :: "string option"
  kubeconfig :: "string option"

definition kubectl_new :: "string \<Rightarrow> string \<Rightarrow> string \<Rightarrow> kubectl_reader" where
  "kubectl_new path ns name =
     \<lparr>kubectl_path = path, namespace = ns, lease_name = name, kube_context = None,
      kubeconfig = None\<rparr>"

definition set_kube_context :: "string option \<Rightarrow> kubectl_reader \<Rightarrow> kubectl_reader" where
  "set_kube_context c r = r\<lparr>kube_context := c\<rparr>"

definition set_kubeconfig :: "string option \<Rightarrow> kubectl_reader \<Rightarrow> kubectl_reader" where
  "set_kubeconfig c r = r\<lparr>kubeconfig := c\<rparr>"

definition kubectl_args :: "kubectl_reader \<Rightarrow> string list" where
  "kubectl_args r =
     (case kube_context r of Some c \<Rightarrow> [''--context'', c] | None \<Rightarrow> []) @
     (case kubeconfig r of Some c \<Rightarrow> [''--kubeconfig'', c] | None \<Rightarrow> []) @
     [''-n'', namespace r, ''get'', ''lease'', lease_name r, ''-o'', ''json'']"

text \<open>A finished command: whether it succeeded, its error text, its output if that is UTF-8.\<close>

record command_output =
  status_success :: bool
  cmd_stderr :: string
  cmd_stdout :: "string + string"

fun contains :: "string \<Rightarrow> string \<Rightarrow> bool" where
  "contains p [] \<longleftrightarrow> p = []"
| "contains p (c # s) \<longleftrightarrow> take (length p) (c # s) = p \<or> contains p s"

definition kubectl_read_lease ::
  "'v json_api \<Rightarrow> (string \<Rightarrow> string list \<Rightarrow> string + command_output) \<Rightarrow> kubectl_reader \<Rightarrow>
     lease_record option kv_result" where
  "kubectl_read_lease J run r =
     (case run (kubectl_path r) (kubectl_args r) of
        Inl e \<Rightarrow> Inl (''failed executing kubectl: '' @ e)
      | Inr out \<Rightarrow>
          if \<not> status_success out then
            (let stderr = trim (cmd_stderr out) in
             if contains ''(NotFound)'' stderr \<or> contains '' not found'' stderr then Inr None
             else Inl (''kubectl get lease failed (namespace='' @ namespace r @ '', lease='' @
               lease_name r @ ''): '' @ stderr))
          else
            (case cmd_stdout out of
               Inl e \<Rightarrow> Inl (''kubectl output was not utf-8: '' @ e)
             | Inr stdout \<Rightarrow> parse_kubernetes_lease_json J stdout))"

section \<open>Round trip of a lease record\<close>

lemma lease_keys:
  "plain_key ''holder_node_id''" "plain_key ''generation''" "plain_key ''renewed_at_secs''"
  "plain_key ''ttl_secs''"
  by (simp_all add: plain_key_def white_byte_def WHITE_SPACE_def)

text \<open>The text of a lease record without its last line feed, as the readers see it.\<close>

definition lease_text :: "lease_record \<Rightarrow> string" where
  "lease_text l =
     (''holder_node_id'' @ CHR ''='' # holder_node_id l) @ CHR 0x0A #
     (''generation'' @ CHR ''='' # show_word (lease_generation l)) @ CHR 0x0A #
     (''renewed_at_secs'' @ CHR ''='' # show_word (renewed_at_secs l)) @ CHR 0x0A #
     (''ttl_secs'' @ CHR ''='' # show_word (ttl_secs l))"

lemma serialize_text: "serialize_lease_record l = lease_text l @ [CHR 0x0A]"
  by (simp add: serialize_lease_record_def lease_text_def)

definition lease_lines :: "lease_record \<Rightarrow> string list" where
  "lease_lines l =
    [''holder_node_id'' @ CHR ''='' # holder_node_id l,
     ''generation'' @ CHR ''='' # show_word (lease_generation l),
     ''renewed_at_secs'' @ CHR ''='' # show_word (renewed_at_secs l),
     ''ttl_secs'' @ CHR ''='' # show_word (ttl_secs l)]"

lemma lines_of_text:
  assumes "printable (holder_node_id l)"
  shows "lines (lease_text l) = lease_lines l"
proof -
  have "lines (''ttl_secs'' @ CHR ''='' # show_word (ttl_secs l)) =
      [''ttl_secs'' @ CHR ''='' # show_word (ttl_secs l)]"
    using show_word_printable [of "ttl_secs l"] by (intro lines_end) (auto simp: printable_def)
  then show ?thesis
    unfolding lease_text_def lease_lines_def
    by (simp only: lines_kv lease_keys assms show_word_printable)
qed

lemma lines_of_serialized:
  assumes "printable (holder_node_id l)"
  shows "lines (serialize_lease_record l) = lease_lines l"
proof -
  let ?line = "\<lambda>k v s. (k @ CHR ''='' # v) @ CHR 0x0A # s"
  have "serialize_lease_record l =
      ?line ''holder_node_id'' (holder_node_id l)
        (?line ''generation'' (show_word (lease_generation l))
          (?line ''renewed_at_secs'' (show_word (renewed_at_secs l))
            (?line ''ttl_secs'' (show_word (ttl_secs l)) [])))"
    by (simp add: serialize_lease_record_def)
  then show ?thesis
    unfolding lease_lines_def
    by (simp only: lines_kv lease_keys assms show_word_printable) (simp add: lines_def)
qed

lemma parse_lease_lines:
  assumes "printable (holder_node_id l)" and "holder_node_id l \<noteq> []" and "lines t = lease_lines l"
  shows "parse_lease_record t = Inr l"
proof -
  let ?allowed = "[''holder_node_id'', ''generation'', ''renewed_at_secs'', ''ttl_secs'']"
  have "parse_kv_lines ''lease'' t ?allowed =
      Inr [''holder_node_id'' \<mapsto> holder_node_id l, ''generation'' \<mapsto> show_word (lease_generation l),
        ''renewed_at_secs'' \<mapsto> show_word (renewed_at_secs l), ''ttl_secs'' \<mapsto> show_word (ttl_secs l)]"
    unfolding parse_kv_lines_def assms(3) lease_lines_def
    by (simp only: kv_loop_line lease_keys assms(1) show_word_printable kv_loop.simps(1)
        list.set insert_iff simp_thms)
  then show ?thesis
    using assms(2)
    by (simp add: parse_lease_record_def require_non_empty_def require_u64_def parse_u64_show)
qed

lemma parse_serialize_lease:
  "printable (holder_node_id l) \<Longrightarrow> holder_node_id l \<noteq> [] \<Longrightarrow>
   parse_lease_record (serialize_lease_record l) = Inr l"
  by (simp add: parse_lease_lines lines_of_serialized)

lemma read_serialized_lease:
  assumes "printable (holder_node_id l)" and "holder_node_id l \<noteq> []"
  shows "file_read_lease (File_Text (serialize_lease_record l)) = Inr (Some l)"
proof -
  have "\<not> white_byte (hd (lease_text l))"
    by (simp add: lease_text_def white_byte_def WHITE_SPACE_def)
  moreover have "last (lease_text l) \<in> set (show_nat (unat (ttl_secs l)))"
    by (simp add: lease_text_def show_word_def)
  then have "\<not> white_byte (last (lease_text l))"
    using show_nat_not_in white_byte_not_digit by blast
  moreover have "lease_text l \<noteq> []" by (simp add: lease_text_def)
  ultimately have "trim (serialize_lease_record l) = lease_text l"
    unfolding serialize_text by (intro trim_newline)
  moreover have "\<not> eq_ignore_ascii_case (lease_text l) ''none''"
    by (simp add: eq_ignore_ascii_case_def lease_text_def to_ascii_lowercase_def ascii_lower_def)
  ultimately show ?thesis
    using parse_lease_lines [OF assms lines_of_text [OF assms(1)]]
    by (simp add: file_read_lease_def read_optional_kv_text_def lease_text_def)
qed

lemma unexpired_iff:
  "\<not> is_expired l now \<longleftrightarrow>
     unat now \<le> min (unat (renewed_at_secs l) + unat (ttl_secs l)) 18446744073709551615"
  by (simp add: is_expired_def word_less_nat_alt unat_saturating_add not_less)

end
