(* ===== verification/Ha.thy ===== *)
theory Ha
  imports Ha_Lease
begin

text \<open>
  The high-availability policy (second part of \<open>src/src/ha.rs\<close>): write fencing, promotion
  checks, the runtime that reconciles a node's role with the lease, the plans a controller
  executes, and the executors. An executor is a record of its five callbacks on a state, each
  returning the new state and an error if it failed; what a controller relies on is the
  locale \<open>role_executor\<close>, interpreted by the file-backed executor.

  Shown: a node that is a writer after a reconcile holds an unexpired lease of its own
  generation; promotion happens exactly under the documented conditions; a plan executed
  without failure leaves the published role that the decision asks for.
\<close>

section \<open>Policy\<close>

datatype write_fence_violation =
    Fence_LeaseExpired
  | Fence_NotLeaseHolder string
  | Fence_GenerationMismatch u64 u64

datatype promotion_violation =
    Promo_LeaseExpired
  | Promo_NotLeaseHolder string
  | Promo_TargetGenerationMismatch u64 u64
  | Promo_MissingFreshness
  | Promo_FreshnessFromFuture u64 u64 u64
  | Promo_StaleFreshness u64 u64
  | Promo_LineageTooOld u64 u64

record promotion_config =
  max_freshness_age_secs :: u64
  max_future_skew_secs :: u64

definition default_promotion_config :: promotion_config where
  "default_promotion_config = \<lparr>max_freshness_age_secs = 10, max_future_skew_secs = 2\<rparr>"

record promotion_request =
  candidate_node_id :: string
  target_generation :: u64
  min_source_generation :: u64

definition enforce_write_fence ::
  "u64 \<Rightarrow> string \<Rightarrow> u64 \<Rightarrow> lease_record \<Rightarrow> write_fence_violation + unit" where
  "enforce_write_fence now_secs local_node_id local_generation lease =
     (if is_expired lease now_secs then Inl Fence_LeaseExpired
      else if holder_node_id lease \<noteq> local_node_id then
        Inl (Fence_NotLeaseHolder (holder_node_id lease))
      else if lease_generation lease \<noteq> local_generation then
        Inl (Fence_GenerationMismatch local_generation (lease_generation lease))
      else Inr ())"

definition validate_promotion ::
  "u64 \<Rightarrow> lease_record \<Rightarrow> promotion_request \<Rightarrow> freshness_ledger option \<Rightarrow> promotion_config \<Rightarrow>
     promotion_violation + unit" where
  "validate_promotion now_secs lease request freshness config =
     (if is_expired lease now_secs then Inl Promo_LeaseExpired
      else if holder_node_id lease \<noteq> candidate_node_id request then
        Inl (Promo_NotLeaseHolder (holder_node_id lease))
      else if lease_generation lease \<noteq> target_generation request then
        Inl (Promo_TargetGenerationMismatch (target_generation request) (lease_generation lease))
      else
        (case freshness of
           None \<Rightarrow> Inl Promo_MissingFreshness
         | Some f \<Rightarrow>
             (let allowed_future = saturating_add now_secs (max_future_skew_secs config);
                  age_secs = saturating_sub now_secs (synced_at_secs f)
              in if synced_at_secs f > allowed_future then
                   Inl (Promo_FreshnessFromFuture (synced_at_secs f) now_secs
                          (max_future_skew_secs config))
                 else if age_secs > max_freshness_age_secs config then
                   Inl (Promo_StaleFreshness age_secs (max_freshness_age_secs config))
                 else if source_generation f < min_source_generation request then
                   Inl (Promo_LineageTooOld (source_generation f) (min_source_generation request))
                 else Inr ())))"

section \<open>The runtime\<close>

datatype node_role = Writer | Replica

datatype demotion_reason = LeaseMissing | FenceViolation write_fence_violation

datatype reconcile_decision =
    KeepReplica
  | PromoteToWriter u64
  | KeepWriter
  | DemoteToReplica demotion_reason

datatype lease_observation =
    Missing
  | Acquired lease_record
  | Renewed lease_record
  | Transferred lease_record lease_record
  | Replaced lease_record
  | Unchanged lease_record

record reconcile_outcome =
  decision :: reconcile_decision
  observation :: lease_observation
  promotion_denied :: "promotion_violation option"

record ha_runtime =
  node_id :: string
  role :: node_role
  local_generation :: u64
  rt_lease :: "lease_record option"
  rt_freshness :: "freshness_ledger option"

definition runtime_new :: "string \<Rightarrow> ha_runtime" where
  "runtime_new node =
     \<lparr>node_id = node, role = Replica, local_generation = 0, rt_lease = None, rt_freshness = None\<rparr>"

definition update_freshness :: "freshness_ledger \<Rightarrow> ha_runtime \<Rightarrow> ha_runtime" where
  "update_freshness f rt = rt\<lparr>rt_freshness := Some f\<rparr>"

definition clear_freshness :: "ha_runtime \<Rightarrow> ha_runtime" where
  "clear_freshness rt = rt\<lparr>rt_freshness := None\<rparr>"

definition observe_lease_change ::
  "lease_record option \<Rightarrow> lease_record option \<Rightarrow> lease_observation" where
  "observe_lease_change previous current =
     (case (previous, current) of
        (None, None) \<Rightarrow> Missing
      | (None, Some cur) \<Rightarrow> Acquired cur
      | (Some _, None) \<Rightarrow> Missing
      | (Some prev, Some cur) \<Rightarrow>
          if prev = cur then Unchanged cur
          else if holder_node_id prev \<noteq> holder_node_id cur then Transferred prev cur
          else if lease_generation prev = lease_generation cur then Renewed cur
          else Replaced cur)"

definition reconcile_with_outcome ::
  "u64 \<Rightarrow> lease_record option \<Rightarrow> u64 \<Rightarrow> promotion_config \<Rightarrow> ha_runtime \<Rightarrow>
     ha_runtime \<times> reconcile_outcome" where
  "reconcile_with_outcome now_secs lease min_gen config rt =
     (let obs = observe_lease_change (rt_lease rt) lease;
          rt' = rt\<lparr>rt_lease := lease\<rparr>;
          out = (\<lambda>d v. \<lparr>decision = d, observation = obs, promotion_denied = v\<rparr>)
      in if role rt = Writer then
           (case lease of
              None \<Rightarrow> (rt'\<lparr>role := Replica\<rparr>, out (DemoteToReplica LeaseMissing) None)
            | Some l \<Rightarrow>
                (case enforce_write_fence now_secs (node_id rt) (local_generation rt) l of
                   Inr _ \<Rightarrow> (rt', out KeepWriter None)
                 | Inl v \<Rightarrow>
                     (rt'\<lparr>role := Replica\<rparr>, out (DemoteToReplica (FenceViolation v)) None)))
         else
           (case lease of
              None \<Rightarrow> (rt', out KeepReplica None)
            | Some l \<Rightarrow>
                (case validate_promotion now_secs l
                        \<lparr>candidate_node_id = node_id rt, target_generation = lease_generation l,
                         min_source_generation = min_gen\<rparr> (rt_freshness rt) config of
                   Inr _ \<Rightarrow>
                     (rt'\<lparr>role := Writer, local_generation := lease_generation l\<rparr>,
                      out (PromoteToWriter (lease_generation l)) None)
                 | Inl v \<Rightarrow> (rt', out KeepReplica (Some v)))))"

definition reconcile ::
  "u64 \<Rightarrow> lease_record option \<Rightarrow> u64 \<Rightarrow> promotion_config \<Rightarrow> ha_runtime \<Rightarrow>
     ha_runtime \<times> reconcile_decision" where
  "reconcile now_secs lease min_gen config rt =
     (let (rt', out) = reconcile_with_outcome now_secs lease min_gen config rt
      in (rt', decision out))"

section \<open>Plans\<close>

datatype ha_action =
    EnsureReplica
  | EnableWriter u64
  | DisableWriter demotion_reason
  | Act_KeepWriter
  | RecordPromotionDenied promotion_violation

record controller_plan =
  outcome :: reconcile_outcome
  actions :: "ha_action list"

definition actions_for :: "reconcile_outcome \<Rightarrow> ha_action list" where
  "actions_for out =
     (case decision out of
        KeepReplica \<Rightarrow>
          EnsureReplica #
          (case promotion_denied out of Some v \<Rightarrow> [RecordPromotionDenied v] | None \<Rightarrow> [])
      | PromoteToWriter g \<Rightarrow> [EnableWriter g]
      | KeepWriter \<Rightarrow> [Act_KeepWriter]
      | DemoteToReplica reason \<Rightarrow> [DisableWriter reason, EnsureReplica])"

definition plan_actions ::
  "u64 \<Rightarrow> lease_record option \<Rightarrow> u64 \<Rightarrow> promotion_config \<Rightarrow> ha_runtime \<Rightarrow>
     ha_runtime \<times> controller_plan" where
  "plan_actions now_secs lease min_gen config rt =
     (let (rt', out) = reconcile_with_outcome now_secs lease min_gen config rt
      in (rt', \<lparr>outcome = out, actions = actions_for out\<rparr>))"

section \<open>Executors\<close>

record ('x, 'e) executor =
  ensure_replica :: "'x \<Rightarrow> 'x \<times> 'e option"
  enable_writer :: "u64 \<Rightarrow> 'x \<Rightarrow> 'x \<times> 'e option"
  disable_writer :: "demotion_reason \<Rightarrow> 'x \<Rightarrow> 'x \<times> 'e option"
  keep_writer :: "'x \<Rightarrow> 'x \<times> 'e option"
  record_promotion_denied :: "promotion_violation \<Rightarrow> 'x \<Rightarrow> 'x \<times> 'e option"

fun run_action :: "('x, 'e) executor \<Rightarrow> ha_action \<Rightarrow> 'x \<Rightarrow> 'x \<times> 'e option" where
  "run_action E EnsureReplica = ensure_replica E"
| "run_action E (EnableWriter g) = enable_writer E g"
| "run_action E (DisableWriter r) = disable_writer E r"
| "run_action E Act_KeepWriter = keep_writer E"
| "run_action E (RecordPromotionDenied v) = record_promotion_denied E v"

fun execute_actions ::
  "('x, 'e) executor \<Rightarrow> bool \<Rightarrow> ha_action list \<Rightarrow> 'x \<Rightarrow> 'x \<times> (ha_action \<times> 'e) list" where
  "execute_actions E stop [] x = (x, [])"
| "execute_actions E stop (a # as) x =
     (case run_action E a x of
        (x', None) \<Rightarrow> execute_actions E stop as x'
      | (x', Some e) \<Rightarrow>
          if stop then (x', [(a, e)])
          else (case execute_actions E stop as x' of (x'', fs) \<Rightarrow> (x'', (a, e) # fs)))"

record 'e action_execution_report =
  report_plan :: controller_plan
  failures :: "(ha_action \<times> 'e) list"

definition is_success :: "'e action_execution_report \<Rightarrow> bool" where
  "is_success report \<longleftrightarrow> failures report = []"

definition execute_controller_plan ::
  "('x, 'e) executor \<Rightarrow> controller_plan \<Rightarrow> bool \<Rightarrow> 'x \<Rightarrow> 'x \<times> 'e action_execution_report" where
  "execute_controller_plan E plan stop_on_error x =
     (let (x', fs) = execute_actions E stop_on_error (actions plan) x
      in (x', \<lparr>report_plan = plan, failures = fs\<rparr>))"

definition plan_and_execute ::
  "('x, 'e) executor \<Rightarrow> u64 \<Rightarrow> lease_record option \<Rightarrow> u64 \<Rightarrow> promotion_config \<Rightarrow> bool \<Rightarrow>
     ha_runtime \<Rightarrow> 'x \<Rightarrow> ha_runtime \<times> 'x \<times> 'e action_execution_report" where
  "plan_and_execute E now_secs lease min_gen config stop rt x =
     (let (rt', plan) = plan_actions now_secs lease min_gen config rt
      in (rt', execute_controller_plan E plan stop x))"

section \<open>The controller\<close>

record ha_controller =
  ctl_runtime :: ha_runtime
  ctl_config :: promotion_config
  ctl_min_source_generation :: u64
  ctl_stop_on_error :: bool

definition controller_new :: "string \<Rightarrow> ha_controller" where
  "controller_new node =
     \<lparr>ctl_runtime = runtime_new node, ctl_config = default_promotion_config,
      ctl_min_source_generation = 0, ctl_stop_on_error = True\<rparr>"

definition ctl_update_freshness :: "freshness_ledger \<Rightarrow> ha_controller \<Rightarrow> ha_controller" where
  "ctl_update_freshness f c = c\<lparr>ctl_runtime := update_freshness f (ctl_runtime c)\<rparr>"

definition set_min_source_generation :: "u64 \<Rightarrow> ha_controller \<Rightarrow> ha_controller" where
  "set_min_source_generation g c = c\<lparr>ctl_min_source_generation := g\<rparr>"

definition set_promotion_config :: "promotion_config \<Rightarrow> ha_controller \<Rightarrow> ha_controller" where
  "set_promotion_config config c = c\<lparr>ctl_config := config\<rparr>"

definition set_stop_on_error :: "bool \<Rightarrow> ha_controller \<Rightarrow> ha_controller" where
  "set_stop_on_error stop c = c\<lparr>ctl_stop_on_error := stop\<rparr>"

definition plan_tick ::
  "u64 \<Rightarrow> lease_record option \<Rightarrow> ha_controller \<Rightarrow> ha_controller \<times> controller_plan" where
  "plan_tick now_secs lease c =
     (let (rt', plan) = plan_actions now_secs lease (ctl_min_source_generation c) (ctl_config c)
            (ctl_runtime c)
      in (c\<lparr>ctl_runtime := rt'\<rparr>, plan))"

definition tick ::
  "('x, 'e) executor \<Rightarrow> u64 \<Rightarrow> lease_record option \<Rightarrow> ha_controller \<Rightarrow> 'x \<Rightarrow>
     ha_controller \<times> 'x \<times> 'e action_execution_report" where
  "tick E now_secs lease c x =
     (let (c', plan) = plan_tick now_secs lease c
      in (c', execute_controller_plan E plan (ctl_stop_on_error c) x))"

datatype ('r, 'e) controller_tick_outcome =
    Executed "'e action_execution_report"
  | LeaseReadFailed 'r "'e action_execution_report"

fun report :: "('r, 'e) controller_tick_outcome \<Rightarrow> 'e action_execution_report" where
  "report (Executed r) = r"
| "report (LeaseReadFailed _ r) = r"

text \<open>A failed lease read runs the tick without a lease.\<close>

definition tick_with_reader ::
  "('x, 'e) executor \<Rightarrow> u64 \<Rightarrow> 'r + lease_record option \<Rightarrow> ha_controller \<Rightarrow> 'x \<Rightarrow>
     ha_controller \<times> 'x \<times> ('r, 'e) controller_tick_outcome" where
  "tick_with_reader E now_secs read c x =
     (case read of
        Inr lease \<Rightarrow>
          (let (c', x', r) = tick E now_secs lease c x in (c', x', Executed r))
      | Inl error \<Rightarrow>
          (let (c', x', r) = tick E now_secs None c x in (c', x', LeaseReadFailed error r)))"

section \<open>Shared state\<close>

record ha_shared_state =
  sh_node_id :: string
  sh_role :: node_role
  sh_generation :: u64
  active_leader_id :: "string option"
  active_leader_endpoint :: "string option"
  lease_of :: "lease_record option"
  allow_replica_reads :: bool

definition shared_new :: "string \<Rightarrow> bool \<Rightarrow> ha_shared_state" where
  "shared_new node reads =
     \<lparr>sh_node_id = node, sh_role = Replica, sh_generation = 0, active_leader_id = None,
      active_leader_endpoint = None, lease_of = None, allow_replica_reads = reads\<rparr>"

definition is_writer :: "u64 \<Rightarrow> ha_shared_state \<Rightarrow> bool" where
  "is_writer now_secs s \<longleftrightarrow>
     (if sh_role s \<noteq> Writer then False
      else
        (case lease_of s of
           Some lease \<Rightarrow>
             enforce_write_fence now_secs (sh_node_id s) (sh_generation s) lease = Inr ()
         | None \<Rightarrow> False))"

section \<open>The file-backed executor\<close>

text \<open>
  \<open>Debug\<close> of the reasons written to the audit log.
\<close>

fun debug_fence :: "write_fence_violation \<Rightarrow> string" where
  "debug_fence Fence_LeaseExpired = ''LeaseExpired''"
| "debug_fence (Fence_NotLeaseHolder h) =
     ''NotLeaseHolder { holder_node_id: '' @ debug_str h @ '' }''"
| "debug_fence (Fence_GenerationMismatch a b) =
     ''GenerationMismatch { local: '' @ show_word a @ '', lease: '' @ show_word b @ '' }''"

fun debug_demotion :: "demotion_reason \<Rightarrow> string" where
  "debug_demotion LeaseMissing = ''LeaseMissing''"
| "debug_demotion (FenceViolation v) = ''FenceViolation('' @ debug_fence v @ '')''"

fun debug_promotion :: "promotion_violation \<Rightarrow> string" where
  "debug_promotion Promo_LeaseExpired = ''LeaseExpired''"
| "debug_promotion (Promo_NotLeaseHolder h) =
     ''NotLeaseHolder { holder_node_id: '' @ debug_str h @ '' }''"
| "debug_promotion (Promo_TargetGenerationMismatch t l) =
     ''TargetGenerationMismatch { target: '' @ show_word t @ '', lease: '' @ show_word l @ '' }''"
| "debug_promotion Promo_MissingFreshness = ''MissingFreshness''"
| "debug_promotion (Promo_FreshnessFromFuture s n k) =
     ''FreshnessFromFuture { synced_at_secs: '' @ show_word s @ '', now_secs: '' @ show_word n @
     '', max_future_skew_secs: '' @ show_word k @ '' }''"
| "debug_promotion (Promo_StaleFreshness a m) =
     ''StaleFreshness { age_secs: '' @ show_word a @ '', max_freshness_age_secs: '' @
     show_word m @ '' }''"
| "debug_promotion (Promo_LineageTooOld a m) =
     ''LineageTooOld { observed: '' @ show_word a @ '', min_required: '' @ show_word m @ '' }''"

text \<open>
  The two files and what the operating system does to the calls made on them, numbered by
  \<open>io_calls\<close>: an error with the number of bytes that reached the file before it, if the call
  got so far as to open (and, for the role file, to truncate) it.
\<close>

record file_executor =
  role_file :: "string option"
  audit_file :: string
  io_calls :: nat
  io_fault :: "nat \<Rightarrow> (nat option \<times> string) option"

text \<open>\<open>std::fs::write\<close> under a fault: the file afterwards and the error.\<close>

definition fs_write ::
  "(nat option \<times> string) option \<Rightarrow> string \<Rightarrow> string option \<Rightarrow> string option \<times> string option" where
  "fs_write fault text old =
     (case fault of
        None \<Rightarrow> (Some text, None)
      | Some (None, e) \<Rightarrow> (old, Some e)
      | Some (Some k, e) \<Rightarrow> (Some (take k text), Some e))"

definition write_role_state :: "string \<Rightarrow> file_executor \<Rightarrow> file_executor \<times> string option" where
  "write_role_state state x =
     (let (f, e) = fs_write (io_fault x (io_calls x)) (state @ [CHR 0x0A]) (role_file x)
      in (x\<lparr>role_file := f, io_calls := Suc (io_calls x)\<rparr>, e))"

definition append_audit :: "string \<Rightarrow> file_executor \<Rightarrow> file_executor \<times> string option" where
  "append_audit line x =
     (let text = line @ [CHR 0x0A]; x' = x\<lparr>io_calls := Suc (io_calls x)\<rparr> in
      case io_fault x (io_calls x) of
        None \<Rightarrow> (x'\<lparr>audit_file := audit_file x @ text\<rparr>, None)
      | Some (None, e) \<Rightarrow> (x', Some e)
      | Some (Some k, e) \<Rightarrow> (x'\<lparr>audit_file := audit_file x @ take k text\<rparr>, Some e))"

text \<open>\<open>a()?; b()\<close> on executor states.\<close>

definition and_then ::
  "('x \<Rightarrow> 'x \<times> 'e option) \<Rightarrow> ('x \<Rightarrow> 'x \<times> 'e option) \<Rightarrow> 'x \<Rightarrow> 'x \<times> 'e option" where
  "and_then a b x = (case a x of (x', None) \<Rightarrow> b x' | (x', Some e) \<Rightarrow> (x', Some e))"

definition file_action_executor :: "(file_executor, string) executor" where
  "file_action_executor =
     \<lparr>ensure_replica =
        and_then (write_role_state ''replica'') (append_audit ''action=ensure_replica result=ok''),
      enable_writer = (\<lambda>g.
        and_then (write_role_state (''writer:'' @ show_word g))
          (append_audit (''action=enable_writer generation='' @ show_word g @ '' result=ok''))),
      disable_writer = (\<lambda>reason.
        and_then (write_role_state ''replica'')
          (append_audit (''action=disable_writer reason='' @ debug_demotion reason @ '' result=ok''))),
      keep_writer = append_audit ''action=keep_writer result=ok'',
      record_promotion_denied = (\<lambda>v.
        append_audit (''action=record_promotion_denied violation='' @ debug_promotion v @
          '' result=ok''))\<rparr>"

text \<open>The tracing decorator reports and passes the result on.\<close>

definition tracing_executor :: "('x, 'e) executor \<Rightarrow> ('x, 'e) executor" where
  "tracing_executor inner =
     \<lparr>ensure_replica = ensure_replica inner, enable_writer = enable_writer inner,
      disable_writer = disable_writer inner, keep_writer = keep_writer inner,
      record_promotion_denied = record_promotion_denied inner\<rparr>"

section \<open>Reconciling\<close>

lemma fence_ok_iff:
  "enforce_write_fence now n g l = Inr () \<longleftrightarrow>
     \<not> is_expired l now \<and> holder_node_id l = n \<and> lease_generation l = g"
  by (simp add: enforce_write_fence_def)

lemma promotion_ok_iff:
  "validate_promotion now l req fr cfg = Inr () \<longleftrightarrow>
     \<not> is_expired l now \<and> holder_node_id l = candidate_node_id req \<and>
     lease_generation l = target_generation req \<and>
     (\<exists>f. fr = Some f \<and>
        unat (synced_at_secs f) \<le> min (unat now + unat (max_future_skew_secs cfg)) 18446744073709551615 \<and>
        unat now - unat (synced_at_secs f) \<le> unat (max_freshness_age_secs cfg) \<and>
        min_source_generation req \<le> source_generation f)"
  by (auto simp: validate_promotion_def Let_def word_less_nat_alt word_le_nat_alt unat_saturating_add
      unat_saturating_sub not_less split: option.splits)

text \<open>After a reconcile, a writer holds the lease it has just seen, unexpired and of its generation.\<close>

definition fenced :: "u64 \<Rightarrow> ha_runtime \<Rightarrow> bool" where
  "fenced now rt \<longleftrightarrow>
     (case rt_lease rt of
        Some l \<Rightarrow> enforce_write_fence now (node_id rt) (local_generation rt) l = Inr ()
      | None \<Rightarrow> False)"

lemma reconcile_node [simp]:
  "node_id (fst (reconcile_with_outcome now lease g cfg rt)) = node_id rt"
  "rt_lease (fst (reconcile_with_outcome now lease g cfg rt)) = lease"
  "rt_freshness (fst (reconcile_with_outcome now lease g cfg rt)) = rt_freshness rt"
  by (auto simp: reconcile_with_outcome_def Let_def split: option.splits sum.splits)

lemma reconcile_fences:
  assumes "role (fst (reconcile_with_outcome now lease g cfg rt)) = Writer"
  shows "fenced now (fst (reconcile_with_outcome now lease g cfg rt))"
proof (cases lease)
  case None
  with assms show ?thesis by (simp add: reconcile_with_outcome_def Let_def split: if_splits)
next
  case (Some l)
  show ?thesis
  proof (cases "role rt = Writer")
    case True
    with assms Some show ?thesis
      by (simp add: reconcile_with_outcome_def Let_def fenced_def split: sum.splits)
  next
    case False
    let ?req = "\<lparr>candidate_node_id = node_id rt, target_generation = lease_generation l,
      min_source_generation = g\<rparr>"
    from assms Some False obtain u where "validate_promotion now l ?req (rt_freshness rt) cfg = Inr u"
      by (auto simp: reconcile_with_outcome_def Let_def split: sum.splits)
    moreover from this have "\<not> is_expired l now \<and> holder_node_id l = node_id rt"
      by (simp add: promotion_ok_iff)
    ultimately show ?thesis using Some False
      by (simp add: reconcile_with_outcome_def Let_def fenced_def fence_ok_iff)
  qed
qed

text \<open>The role of a runtime as an executor publishes it: the generation of a writer.\<close>

definition runtime_role :: "ha_runtime \<Rightarrow> u64 option" where
  "runtime_role rt = (if role rt = Writer then Some (local_generation rt) else None)"

fun role_after :: "reconcile_decision \<Rightarrow> u64 option \<Rightarrow> u64 option" where
  "role_after KeepReplica r = None"
| "role_after (PromoteToWriter g) r = Some g"
| "role_after KeepWriter r = r"
| "role_after (DemoteToReplica _) r = None"

lemma reconcile_role:
  assumes "reconcile_with_outcome now lease g cfg rt = (rt', out)"
  shows "runtime_role rt' = role_after (decision out) (runtime_role rt)"
    and "decision out = KeepWriter \<Longrightarrow> role rt = Writer"
  using assms
  by (auto simp: reconcile_with_outcome_def Let_def runtime_role_def
      split: if_splits option.splits sum.splits)

section \<open>What a controller relies on of an executor\<close>

text \<open>
  \<open>published\<close> reads the role an executor has made visible: \<open>Some (Some g)\<close> a writer of
  generation \<open>g\<close>, \<open>Some None\<close> a replica, \<open>None\<close> unreadable. The laws are about calls that
  succeed; what a failed call leaves behind is not promised.
\<close>

locale role_executor =
  fixes E :: "('x, 'e) executor"
    and published :: "'x \<Rightarrow> u64 option option"
  assumes replica_published: "ensure_replica E x = (x', None) \<Longrightarrow> published x' = Some None"
    and writer_published: "enable_writer E g x = (x', None) \<Longrightarrow> published x' = Some (Some g)"
    and kept_published:
      "keep_writer E x = (x', None) \<Longrightarrow> published x = Some (Some g) \<Longrightarrow>
       published x' = Some (Some g)"
    and denied_published:
      "record_promotion_denied E v x = (x', None) \<Longrightarrow> published x = Some None \<Longrightarrow>
       published x' = Some None"
begin

lemma first_action:
  "execute_actions E stop (a # as) x = (z, []) \<Longrightarrow>
   \<exists>y. run_action E a x = (y, None) \<and> execute_actions E stop as y = (z, [])"
  by (auto split: prod.splits option.splits if_splits)

lemma executed_plan:
  assumes "execute_actions E stop (actions_for out) x = (x', [])"
    and "decision out = KeepWriter \<Longrightarrow> published x = Some r \<and> r \<noteq> None"
  shows "published x' = Some (role_after (decision out) r)"
proof (cases "decision out")
  case KeepReplica
  let ?rest = "case promotion_denied out of Some v \<Rightarrow> [RecordPromotionDenied v] | None \<Rightarrow> []"
  from assms(1) KeepReplica have "execute_actions E stop (EnsureReplica # ?rest) x = (x', [])"
    by (simp only: actions_for_def reconcile_decision.case)
  from first_action [OF this] obtain y where "ensure_replica E x = (y, None)"
    "execute_actions E stop ?rest y = (x', [])"
    by auto
  then have "published x' = Some None"
    by (auto dest!: replica_published dest: denied_published split: option.splits prod.splits if_splits)
  with KeepReplica show ?thesis by simp
next
  case (PromoteToWriter g)
  with assms(1) show ?thesis
    by (auto simp: actions_for_def dest!: first_action writer_published simp del: execute_actions.simps(2))
next
  case KeepWriter
  with assms obtain g where "r = Some g" "published x = Some (Some g)" by auto
  with assms(1) KeepWriter show ?thesis
    by (auto simp: actions_for_def dest!: first_action dest: kept_published
        simp del: execute_actions.simps(2))
next
  case (DemoteToReplica reason)
  with assms(1) show ?thesis
    by (auto simp: actions_for_def dest!: first_action replica_published
        simp del: execute_actions.simps(2))
qed

text \<open>
  An executor that publishes the role of the runtime still does after a tick without failures.
  A runtime that is not a writer needs no assumption on the executor.
\<close>

lemma tick_published:
  assumes "role (ctl_runtime c) = Writer \<Longrightarrow> published x = Some (runtime_role (ctl_runtime c))"
    and "tick E now lease c x = (c', x', rep)" and "is_success rep"
  shows "published x' = Some (runtime_role (ctl_runtime c'))"
proof -
  obtain rt' out where R: "reconcile_with_outcome now lease (ctl_min_source_generation c)
      (ctl_config c) (ctl_runtime c) = (rt', out)" by fastforce
  with assms(2,3) have "execute_actions E (ctl_stop_on_error c) (actions_for out) x = (x', [])"
    and "ctl_runtime c' = rt'"
    by (auto simp: tick_def plan_tick_def plan_actions_def execute_controller_plan_def is_success_def
        split: prod.splits)
  moreover have "published x' = Some (role_after (decision out) (runtime_role (ctl_runtime c)))"
  proof (rule executed_plan)
    assume "decision out = KeepWriter"
    with reconcile_role(2) [OF R] assms(1)
    show "published x = Some (runtime_role (ctl_runtime c)) \<and> runtime_role (ctl_runtime c) \<noteq> None"
      by (simp add: runtime_role_def)
  qed fact
  ultimately show ?thesis by (simp add: reconcile_role(1) [OF R])
qed

lemma tick_with_reader_published:
  assumes "role (ctl_runtime c) = Writer \<Longrightarrow> published x = Some (runtime_role (ctl_runtime c))"
    and "tick_with_reader E now read c x = (c', x', out)" and "is_success (report out)"
  shows "published x' = Some (runtime_role (ctl_runtime c'))"
  using assms(2,3) by (auto simp: tick_with_reader_def intro: tick_published [OF assms(1)]
      split: sum.splits prod.splits)

end

text \<open>Reading the role file back.\<close>

definition read_role_file :: "string \<Rightarrow> u64 option option" where
  "read_role_file text =
     (if text = ''replica'' @ [CHR 0x0A] then Some None
      else
        (case strip_prefix ''writer:'' text of
           None \<Rightarrow> None
         | Some rest \<Rightarrow> map_option Some (parse_u64 (butlast rest))))"

definition published_role :: "file_executor \<Rightarrow> u64 option option" where
  "published_role x = Option.bind (role_file x) read_role_file"

lemma append_audit_role: "append_audit line x = (x', f) \<Longrightarrow> role_file x' = role_file x"
  by (auto simp: append_audit_def Let_def split: option.splits prod.splits)

lemma write_then_audit:
  "and_then (write_role_state s) (append_audit l) x = (x', None) \<Longrightarrow>
   role_file x' = Some (s @ [CHR 0x0A])"
  by (auto simp: and_then_def write_role_state_def fs_write_def Let_def dest!: append_audit_role
      split: option.splits prod.splits)

interpretation file_exec: role_executor file_action_executor published_role
  by unfold_locales
     (auto simp: file_action_executor_def published_role_def read_role_file_def strip_prefix_def
        parse_u64_show dest!: write_then_audit dest: append_audit_role)

end
