(* ===== verification/Auth.thy ===== *)
theory Auth
  imports Rust_Text
begin

text \<open>
  gRPC statuses as the gateway builds them, and the bearer-token check of
  \<open>src/src/gateway/auth.rs\<close>.

  A request is represented by its \<open>authorization\<close> entry: \<open>None\<close> when the entry is absent,
  \<open>Some None\<close> when tonic's \<open>to_str\<close> refuses it, \<open>Some (Some text)\<close> otherwise. A string is its
  UTF-8 bytes, so \<open>as_bytes\<close> is \<open>str_bytes\<close>.

  Shown: the constant-time comparison is equality, a request passes exactly when it carries the
  configured token, and the two entry points of the check agree where both apply.
\<close>

unbundle bit_operations_syntax

section \<open>Statuses\<close>

datatype rpc_code =
    Code_Ok | Cancelled | Unknown | InvalidArgument | DeadlineExceeded | NotFound | AlreadyExists
  | PermissionDenied | ResourceExhausted | FailedPrecondition | Aborted | OutOfRange
  | Unimplemented | Internal | Unavailable | DataLoss | Unauthenticated

record status =
  st_code :: rpc_code
  st_message :: string
  st_metadata :: "string \<rightharpoonup> string"

definition status_new :: "rpc_code \<Rightarrow> string \<Rightarrow> status" where
  "status_new c m = \<lparr>st_code = c, st_message = m, st_metadata = Map.empty\<rparr>"

section \<open>The check\<close>

record auth_config =
  token :: "string option"

definition auth_required :: "string \<Rightarrow> auth_config" where
  "auth_required t = \<lparr>token = Some t\<rparr>"

definition auth_disabled :: auth_config where
  "auth_disabled = \<lparr>token = None\<rparr>"

definition is_disabled :: "auth_config \<Rightarrow> bool" where
  "is_disabled a \<longleftrightarrow> token a = None"

definition str_bytes :: "string \<Rightarrow> bytes" where
  "str_bytes s = map of_char s"

definition constant_time_eq :: "bytes \<Rightarrow> bytes \<Rightarrow> bool" where
  "constant_time_eq a b \<longleftrightarrow>
     (if length a \<noteq> length b then False
      else fold (\<lambda>(x, y) acc. acc OR (x XOR y)) (zip a b) 0 = 0)"

definition auth_check :: "auth_config \<Rightarrow> string option option \<Rightarrow> status + unit" where
  "auth_check a header =
     (case token a of
        None \<Rightarrow> Inr ()
      | Some expected \<Rightarrow>
          (case header of
             None \<Rightarrow> Inl (status_new Unauthenticated ''missing authorization header'')
           | Some None \<Rightarrow>
               Inl (status_new Unauthenticated ''authorization header is not valid UTF-8'')
           | Some (Some v) \<Rightarrow>
               (case strip_prefix ''Bearer '' v of
                  None \<Rightarrow>
                    Inl (status_new Unauthenticated
                      ''authorization header must use the Bearer scheme'')
                | Some provided \<Rightarrow>
                    if constant_time_eq (str_bytes provided) (str_bytes expected) then Inr ()
                    else Inl (status_new Unauthenticated ''invalid bearer token''))))"

definition check_token :: "auth_config \<Rightarrow> string \<Rightarrow> status + unit" where
  "check_token a t =
     (case token a of
        None \<Rightarrow> Inr ()
      | Some expected \<Rightarrow>
          if constant_time_eq (str_bytes t) (str_bytes expected) then Inr ()
          else Inl (status_new Unauthenticated ''invalid auth token''))"

definition header_matches :: "string \<Rightarrow> string option option \<Rightarrow> bool" where
  "header_matches expected header \<longleftrightarrow>
     (case header of
        Some (Some v) \<Rightarrow>
          (case strip_prefix ''Bearer '' v of
             Some provided \<Rightarrow> constant_time_eq (str_bytes provided) (str_bytes expected)
           | None \<Rightarrow> False)
      | _ \<Rightarrow> False)"

definition check_request_or_token ::
  "auth_config \<Rightarrow> string option option \<Rightarrow> string option \<Rightarrow> status + unit" where
  "check_request_or_token a header payload =
     (case token a of
        None \<Rightarrow> Inr ()
      | Some expected \<Rightarrow>
          if header_matches expected header then Inr ()
          else if (case payload of
                     Some t \<Rightarrow> t \<noteq> [] \<and> constant_time_eq (str_bytes t) (str_bytes expected)
                   | None \<Rightarrow> False) then Inr ()
          else Inl (status_new Unauthenticated ''missing or invalid authorization credentials''))"

section \<open>Comparison\<close>

lemma or_fold_zero:
  "fold (\<lambda>(x, y) acc. acc OR (x XOR y)) ps (a :: u8) = 0 \<longleftrightarrow>
     a = 0 \<and> (\<forall>(x, y) \<in> set ps. x = y)"
proof (induction ps arbitrary: a)
  case (Cons p ps)
  obtain x y where p: "p = (x, y)" by (cases p)
  have "x XOR y = 0 \<longleftrightarrow> x = y" by (metis xor.assoc xor.left_neutral xor.right_neutral xor_self_eq)
  then have "a OR (x XOR y) = 0 \<longleftrightarrow> a = 0 \<and> x = y" by (simp add: or_eq_0_iff)
  then show ?case by (simp add: Cons.IH p)
qed simp

lemma zip_equal_iff: "length a = length b \<Longrightarrow> (\<forall>(x, y) \<in> set (zip a b). x = y) \<longleftrightarrow> a = b"
  by (induction a b rule: list_induct2) auto

lemma constant_time_eq_iff [simp]: "constant_time_eq a b \<longleftrightarrow> a = b"
  by (auto simp: constant_time_eq_def or_fold_zero zip_equal_iff)

lemma unat_of_char: "unat (of_char c :: u8) = of_char c"
proof -
  have "of_char c < (256 :: nat)" using of_char_mod_256 [of c, where 'a = nat]
    by (metis mod_less_divisor zero_less_numeral)
  then have "unat (of_nat (of_char c) :: u8) = of_char c"
    by (simp only: unat_of_nat take_bit_eq_mod) simp
  then show ?thesis by (simp only: of_nat_of_char)
qed

lemma str_bytes_eq [simp]: "str_bytes s = str_bytes t \<longleftrightarrow> s = t"
proof -
  have "inj (of_char :: char \<Rightarrow> u8)"
    by (rule injI) (metis unat_of_char of_char_eq_iff)
  then show ?thesis by (auto simp: str_bytes_def inj_map_eq_map)
qed

lemma strip_prefix_Some: "strip_prefix p s = Some r \<longleftrightarrow> s = p @ r"
  by (auto simp: strip_prefix_def) (metis append_take_drop_id)

lemma strip_prefix_append: "strip_prefix p (p @ r) = Some r"
  by (simp add: strip_prefix_Some)

lemma auth_check_iff:
  "auth_check a header = Inr () \<longleftrightarrow>
     (\<forall>t. token a = Some t \<longrightarrow> header = Some (Some (''Bearer '' @ t)))"
  by (auto simp: auth_check_def strip_prefix_Some strip_prefix_append simp del: append.simps
      split: option.splits if_splits)

lemma header_matches_iff: "header_matches t header \<longleftrightarrow> header = Some (Some (''Bearer '' @ t))"
  by (auto simp: header_matches_def strip_prefix_Some strip_prefix_append simp del: append.simps split: option.splits)

lemma check_request_or_token_iff:
  "check_request_or_token a header payload = Inr () \<longleftrightarrow>
     (\<forall>t. token a = Some t \<longrightarrow>
        header = Some (Some (''Bearer '' @ t)) \<or> payload = Some t \<and> t \<noteq> [])"
  by (auto simp: check_request_or_token_def header_matches_iff simp del: append.simps
      split: option.splits)

end
