(* ===== verification/Gateway_Server.thy ===== *)
theory Gateway_Server
  imports Engine Ha Auth
begin

text \<open>
  The SQL gateway service (\<open>src/src/gateway/server.rs\<close>): the access checks against the shared
  high-availability state, and one handler per call, over the engine of \<open>Engine\<close>. The requests
  and responses are those of \<open>sqlite.proto\<close>; header names are those of
  \<open>src/crates/rsqlite-rsync-proto/src/lib.rs\<close>.

  A handler takes the clock and the state it reads under the lock. Tonic decides which strings
  are header values (\<open>header_value\<close>); a blocking task that does not join gives \<open>join_error\<close>.
  A query that never ends has the value \<open>None\<close>, as in the engine.

  Shown: a handler that needs the writer leaves the databases of a node alone unless the node is
  the writer, and then names the leader; a read is marked as a replica read exactly when it is
  one, and only where replica reads are allowed.
\<close>

section \<open>Access\<close>

definition HEADER_RSQLITE_CODE :: string where
  "HEADER_RSQLITE_CODE = ''x-rsqlite-code''"

definition HEADER_RSQLITE_LEADER_ID :: string where
  "HEADER_RSQLITE_LEADER_ID = ''x-rsqlite-leader-id''"

definition HEADER_RSQLITE_GENERATION :: string where
  "HEADER_RSQLITE_GENERATION = ''x-rsqlite-generation''"

definition HEADER_RSQLITE_LEADER_ENDPOINT :: string where
  "HEADER_RSQLITE_LEADER_ENDPOINT = ''x-rsqlite-leader-endpoint''"

definition CODE_NOT_LEADER :: string where
  "CODE_NOT_LEADER = ''NOT_LEADER''"

lemmas header_defs = HEADER_RSQLITE_CODE_def HEADER_RSQLITE_LEADER_ID_def
  HEADER_RSQLITE_GENERATION_def HEADER_RSQLITE_LEADER_ENDPOINT_def CODE_NOT_LEADER_def

record gateway_env =
  header_value :: "string \<Rightarrow> bool"
  join_error :: "string option"
  server_version :: string
  uptime :: u64

text \<open>\<open>metadata.insert\<close> of a value that parses.\<close>

definition insert_header ::
  "gateway_env \<Rightarrow> string \<Rightarrow> string option \<Rightarrow> (string \<rightharpoonup> string) \<Rightarrow> (string \<rightharpoonup> string)" where
  "insert_header G key v m =
     (case v of
        Some s \<Rightarrow> if header_value G s then m(key \<mapsto> s) else m
      | None \<Rightarrow> m)"

definition not_leader_status :: "gateway_env \<Rightarrow> ha_shared_state \<Rightarrow> status" where
  "not_leader_status G state =
     \<lparr>st_code = FailedPrecondition, st_message = ''node is not the active writer'',
      st_metadata =
        insert_header G HEADER_RSQLITE_LEADER_ENDPOINT (active_leader_endpoint state)
          (insert_header G HEADER_RSQLITE_GENERATION (Some (show_word (sh_generation state)))
            (insert_header G HEADER_RSQLITE_LEADER_ID (active_leader_id state)
              (insert_header G HEADER_RSQLITE_CODE (Some CODE_NOT_LEADER) Map.empty)))\<rparr>"

definition check_write_access :: "gateway_env \<Rightarrow> u64 \<Rightarrow> ha_shared_state \<Rightarrow> status + u64" where
  "check_write_access G now state =
     (if \<not> is_writer now state then Inl (not_leader_status G state)
      else Inr (sh_generation state))"

datatype consistency_level = Strong | Eventual

definition check_read_access ::
  "gateway_env \<Rightarrow> u64 \<Rightarrow> consistency_level \<Rightarrow> ha_shared_state \<Rightarrow> status + (u64 \<times> bool)" where
  "check_read_access G now consistency state =
     (case consistency of
        Strong \<Rightarrow>
          if \<not> is_writer now state then Inl (not_leader_status G state)
          else Inr (sh_generation state, False)
      | Eventual \<Rightarrow>
          if is_writer now state then Inr (sh_generation state, False)
          else if allow_replica_reads state then Inr (sh_generation state, True)
          else Inl (not_leader_status G state))"

section \<open>Requests\<close>

record execute_request =
  er_database :: string
  er_statement :: "statement option"

record query_request =
  rq_database :: string
  rq_statement :: "statement option"
  rq_consistency :: int
  rq_max_rows :: u32
  rq_chunk_size :: u32

record batch_request =
  ba_database :: string
  ba_statements :: "statement list"
  ba_transaction_mode :: int
  ba_stop_on_error :: bool

record drop_response =
  dr_existed :: bool
  dr_generation :: u64

text \<open>\<open>try_from\<close> of the two enumerations, with the defaults of the handlers.\<close>

definition consistency_of :: "int \<Rightarrow> consistency_level" where
  "consistency_of i = (if i = 1 then Eventual else Strong)"

definition tx_mode_of :: "int \<Rightarrow> batch_transaction_mode" where
  "tx_mode_of i =
     (if i = 0 then Tx_None else if i = 1 then Tx_Deferred
      else if i = 2 then Tx_Immediate else if i = 3 then Tx_Exclusive else Tx_Deferred)"

text \<open>The result of a blocking task: a failed join, an error of the engine, or its value.\<close>

definition joined :: "gateway_env \<Rightarrow> 'a res \<Rightarrow> status + 'a" where
  "joined G r =
     (case join_error G of
        Some e \<Rightarrow> Inl (status_new Internal (''task join error: '' @ e))
      | None \<Rightarrow>
          (case r of
             Inl e \<Rightarrow> Inl (status_new Internal (display_error e))
           | Inr a \<Rightarrow> Inr a))"

section \<open>Handlers\<close>

definition gw_execute ::
  "gateway_env \<Rightarrow> ('w, 's) engine_env \<Rightarrow> u64 \<Rightarrow> ha_shared_state \<Rightarrow> execute_request \<Rightarrow>
     engine \<Rightarrow> 'w \<Rightarrow> engine \<times> 'w \<times> (status + execute_response)" where
  "gw_execute G E now state req eng w =
     (case check_write_access G now state of
        Inl e \<Rightarrow> (eng, w, Inl e)
      | Inr generation \<Rightarrow>
          (case er_statement req of
             None \<Rightarrow>
               (eng, w, Inl (status_new InvalidArgument ''missing statement in execute request''))
           | Some stmt \<Rightarrow>
               (let (eng', w', r) = execute E eng (er_database req) stmt generation w
                in (eng', w', joined G r))))"

definition gw_query ::
  "gateway_env \<Rightarrow> ('w, 's) engine_env \<Rightarrow> u64 \<Rightarrow> ha_shared_state \<Rightarrow> query_request \<Rightarrow>
     engine \<Rightarrow> 'w \<Rightarrow> ('w \<times> (status + query_response)) option" where
  "gw_query G E now state req eng w =
     (case check_read_access G now (consistency_of (rq_consistency req)) state of
        Inl e \<Rightarrow> Some (w, Inl e)
      | Inr (generation, is_replica) \<Rightarrow>
          (case rq_statement req of
             None \<Rightarrow>
               Some (w, Inl (status_new InvalidArgument ''missing statement in query request''))
           | Some stmt \<Rightarrow>
               map_option (\<lambda>(w', r). (w', joined G r))
                 (query E eng (rq_database req) stmt (rq_max_rows req) generation is_replica w)))"

definition chunk_size_of :: "query_request \<Rightarrow> usize" where
  "chunk_size_of req = (if rq_chunk_size req > 0 then ucast (rq_chunk_size req) else 100)"

text \<open>The chunks are sent in order until the receiver goes away.\<close>

definition gw_stream_query ::
  "gateway_env \<Rightarrow> ('w, 's) engine_env \<Rightarrow> u64 \<Rightarrow> ha_shared_state \<Rightarrow> query_request \<Rightarrow>
     engine \<Rightarrow> 'w \<Rightarrow> ('w \<times> (status + query_chunk list)) option" where
  "gw_stream_query G E now state req eng w =
     (case check_read_access G now (consistency_of (rq_consistency req)) state of
        Inl e \<Rightarrow> Some (w, Inl e)
      | Inr _ \<Rightarrow>
          (case rq_statement req of
             None \<Rightarrow>
               Some (w, Inl (status_new InvalidArgument
                 ''missing statement in stream query request''))
           | Some stmt \<Rightarrow>
               map_option (\<lambda>(w', r). (w', joined G r))
                 (stream_query_chunks E eng (rq_database req) stmt (rq_max_rows req)
                   (chunk_size_of req) w)))"

definition gw_batch ::
  "gateway_env \<Rightarrow> ('w, 's) engine_env \<Rightarrow> u64 \<Rightarrow> ha_shared_state \<Rightarrow> batch_request \<Rightarrow>
     engine \<Rightarrow> 'w \<Rightarrow> (engine \<times> 'w \<times> (status + batch_response)) option" where
  "gw_batch G E now state req eng w =
     (case check_write_access G now state of
        Inl e \<Rightarrow> Some (eng, w, Inl e)
      | Inr generation \<Rightarrow>
          map_option (\<lambda>(eng', w', r). (eng', w', joined G r))
            (batch E eng (ba_database req) (ba_statements req) (tx_mode_of (ba_transaction_mode req))
              (ba_stop_on_error req) generation w))"

definition gw_drop_database ::
  "gateway_env \<Rightarrow> ('w, 's) engine_env \<Rightarrow> u64 \<Rightarrow> ha_shared_state \<Rightarrow> string \<Rightarrow>
     engine \<Rightarrow> 'w \<Rightarrow> engine \<times> 'w \<times> (status + drop_response)" where
  "gw_drop_database G E now state db_name eng w =
     (case check_write_access G now state of
        Inl e \<Rightarrow> (eng, w, Inl e)
      | Inr generation \<Rightarrow>
          (let (eng', w', r) = drop_database E eng db_name w
           in (eng', w',
               case joined G r of
                 Inl e \<Rightarrow> Inl e
               | Inr existed \<Rightarrow> Inr \<lparr>dr_existed = existed, dr_generation = generation\<rparr>)))"

section \<open>Cluster status\<close>

record lease_status =
  ls_is_held :: bool
  ls_holder :: string
  ls_generation :: u64
  ls_renewed_at :: u64
  ls_ttl :: u64
  ls_is_expired :: bool

record cluster_status =
  cs_node_id :: string
  cs_role :: node_role
  cs_local_generation :: u64
  cs_lease :: "lease_status option"
  cs_leader_id :: string
  cs_leader_endpoint :: string
  cs_databases :: "database_info list"
  cs_uptime :: u64
  cs_version :: string

definition get_cluster_status ::
  "gateway_env \<Rightarrow> u64 \<Rightarrow> ha_shared_state \<Rightarrow> fs_node option \<Rightarrow> status + cluster_status" where
  "get_cluster_status G now state root =
     (case join_error G of
        Some e \<Rightarrow> Inl (status_new Internal (''task join error: '' @ e))
      | None \<Rightarrow>
          Inr \<lparr>cs_node_id = sh_node_id state,
               cs_role = (if is_writer now state then Writer else Replica),
               cs_local_generation = sh_generation state,
               cs_lease = map_option
                 (\<lambda>l. \<lparr>ls_is_held = True, ls_holder = holder_node_id l,
                       ls_generation = lease_generation l, ls_renewed_at = renewed_at_secs l,
                       ls_ttl = ttl_secs l, ls_is_expired = is_expired l now\<rparr>) (lease_of state),
               cs_leader_id = (case active_leader_id state of None \<Rightarrow> [] | Some i \<Rightarrow> i),
               cs_leader_endpoint = (case active_leader_endpoint state of None \<Rightarrow> [] | Some p \<Rightarrow> p),
               cs_databases = (case list_databases root of Inl _ \<Rightarrow> [] | Inr ds \<Rightarrow> ds),
               cs_uptime = uptime G, cs_version = server_version G\<rparr>)"

section \<open>Facts\<close>

lemma write_access_iff:
  "check_write_access G now state = Inr g \<longleftrightarrow> is_writer now state \<and> g = sh_generation state"
  by (auto simp: check_write_access_def)

lemma refused_write:
  assumes "\<not> is_writer now state"
  shows "gw_execute G E now state er eng w = (eng, w, Inl (not_leader_status G state))"
    and "gw_batch G E now state br eng w = Some (eng, w, Inl (not_leader_status G state))"
    and "gw_drop_database G E now state db eng w = (eng, w, Inl (not_leader_status G state))"
  using assms by (simp_all add: gw_execute_def gw_batch_def gw_drop_database_def check_write_access_def)

lemma read_access_replica:
  "check_read_access G now level state = Inr (g, rep) \<Longrightarrow>
     g = sh_generation state \<and> rep = (\<not> is_writer now state) \<and>
     (rep \<longrightarrow> level = Eventual \<and> allow_replica_reads state)"
  by (auto simp: check_read_access_def split: consistency_level.splits if_splits)

lemma res_case_Inr:
  "(case r of Inl e \<Rightarrow> Inl (f e) | Inr v \<Rightarrow> h v) = Inr x \<longleftrightarrow> (\<exists>v. r = Inr v \<and> h v = Inr x)"
  by (cases r) auto

lemma query_replica_flag:
  "query E eng db stmt m g rep w = Some (w', Inr resp) \<Longrightarrow>
     qr_replica_read resp = rep \<and> qr_generation resp = g"
  by (auto simp: query_def res_case_Inr split: prod.splits sum.splits)

lemma gw_query_flag:
  assumes "gw_query G E now state req eng w = Some (w', Inr resp)"
  shows "qr_generation resp = sh_generation state \<and>
    qr_replica_read resp = (\<not> is_writer now state) \<and>
    (qr_replica_read resp \<longrightarrow> consistency_of (rq_consistency req) = Eventual \<and> allow_replica_reads state)"
proof -
  obtain g rep stmt r where a: "check_read_access G now (consistency_of (rq_consistency req)) state =
      Inr (g, rep)"
    and q: "query E eng (rq_database req) stmt (rq_max_rows req) g rep w = Some (w', r)"
    and j: "joined G r = Inr resp"
    using assms by (auto simp: gw_query_def split: sum.splits option.splits)
  from j have "r = Inr resp" by (auto simp: joined_def split: option.splits sum.splits)
  from query_replica_flag [OF q [unfolded this]]
  have "qr_replica_read resp = rep \<and> qr_generation resp = g" .
  with read_access_replica [OF a] show ?thesis by simp
qed

end
