(* ===== verification/Replication.thy ===== *)
theory Replication
  imports Grpc_Transport Gateway_Server
begin

text \<open>
  Replication over gRPC: the service \<open>ReplicationServer\<close> of \<open>src/src/gateway/replication.rs\<close> and
  the two client entry points of \<open>src/src/lib.rs\<close> that dial it. A session is the protocol
  handler of one side on a \<open>GrpcTransport\<close>, followed by the error report of the service.

  A timeout fires after some number of sends and receives of the session (\<open>timed\<close>); \<open>None\<close> is a
  timer that does not fire. What a side does once its peer has gone is \<open>after_close\<close>. Tonic's
  part in dialling (parsing the URL, TLS, connecting, header values, printing a status) is the
  record \<open>dialer\<close>. Channels are unbounded, while the code's hold 64 messages: the protocol
  has at most one message of each side under way.

  Shown: which requests get a session; an accepted push or pull ends with success and the
  replica's file equal to the origin's snapshot; a session that fails on the server is reported
  to the client.
\<close>

section \<open>Sequential composition and timeouts\<close>

primrec bind_proc ::
  "('m, 'e, 'a) proc \<Rightarrow> ('a \<Rightarrow> ('m, 'e, 'b) proc) \<Rightarrow> ('m, 'e, 'b) proc" where
  "bind_proc (Ret r) f = f r"
| "bind_proc (Send m k) f = Send m (\<lambda>x. bind_proc (k x) f)"
| "bind_proc (Recv k) f = Recv (\<lambda>x. bind_proc (k x) f)"

text \<open>\<open>tokio::time::timeout\<close>: the value is \<open>None\<close> when the timer fires first.\<close>

primrec timed :: "('m, 'e, 'r) proc \<Rightarrow> nat option \<Rightarrow> ('m, 'e, 'r option) proc" where
  "timed (Ret r) = (\<lambda>timer. Ret (Some r))"
| "timed (Send m k) = (\<lambda>timer.
     case timer of
       Some 0 \<Rightarrow> Ret None
     | Some (Suc n) \<Rightarrow> Send m (\<lambda>x. timed (k x) (Some n))
     | None \<Rightarrow> Send m (\<lambda>x. timed (k x) None))"
| "timed (Recv k) = (\<lambda>timer.
     case timer of
       Some 0 \<Rightarrow> Ret None
     | Some (Suc n) \<Rightarrow> Recv (\<lambda>x. timed (k x) (Some n))
     | None \<Rightarrow> Recv (\<lambda>x. timed (k x) None))"

text \<open>The rest of a handler whose peer closed the stream.\<close>

primrec after_close :: "(sync_message, stream_end, 'r) proc \<Rightarrow> 'r" where
  "after_close (Ret r) = r"
| "after_close (Send m k) = after_close (k (Some Stream_Closed))"
| "after_close (Recv k) = after_close (k (Inl Stream_Closed))"

section \<open>The service\<close>

datatype client_role = Role_Replica | Role_Origin

text \<open>\<open>ClientRole\<close> of the protocol: 0 is unspecified.\<close>

definition client_role_of :: "int \<Rightarrow> client_role option" where
  "client_role_of i = (if i = 1 then Some Role_Replica else if i = 2 then Some Role_Origin else None)"

definition role_number :: "client_role \<Rightarrow> int" where
  "role_number r = (case r of Role_Replica \<Rightarrow> 1 | Role_Origin \<Rightarrow> 2)"

record replication_server =
  rs_engine :: engine
  rs_auth :: auth_config
  rs_tuning :: sync_tuning
  rs_state :: "ha_shared_state option"

text \<open>
  What precedes a session: the first item of the stream (an error, its end, or a message) and
  the authorization entry of the request. The result is a status, or the database name, its
  path and the role of the client.
\<close>

definition sync_admission ::
  "('w, 's) engine_env \<Rightarrow> replication_server \<Rightarrow> u64 \<Rightarrow> string option option \<Rightarrow>
     stream_end + sync_message \<Rightarrow> status + (string \<times> string \<times> client_role)" where
  "sync_admission E R now header first =
     (case first of
        Inl (Stream_Error e) \<Rightarrow>
          Inl (status_new Internal (''failed to receive initial sync message: '' @ e))
      | Inl Stream_Closed \<Rightarrow>
          Inl (status_new InvalidArgument ''client closed stream before sending SyncInit'')
      | Inr (Some (P_Init init)) \<Rightarrow>
          (case check_request_or_token (rs_auth R) header (Some (init_auth_token init)) of
             Inl e \<Rightarrow> Inl e
           | Inr _ \<Rightarrow>
               (case resolve_db_path E (rs_engine R) (init_database init) of
                  Inl e \<Rightarrow>
                    Inl (status_new InvalidArgument (''invalid database name '' @ [CHR 0x27] @
                      init_database init @ [CHR 0x27] @ '': '' @ display_error e))
                | Inr path \<Rightarrow>
                    (case client_role_of (client_role init) of
                       None \<Rightarrow>
                         Inl (status_new InvalidArgument
                           ''client_role must be CLIENT_ROLE_REPLICA or CLIENT_ROLE_ORIGIN'')
                     | Some r \<Rightarrow>
                         if r = Role_Origin \<and>
                            (case rs_state R of None \<Rightarrow> False | Some state \<Rightarrow> is_writer now state) then
                           Inl (status_new FailedPrecondition
                             ''cannot push replication to an active writer node'')
                         else Inr (init_database init, path, r))))
      | _ \<Rightarrow>
          Inl (status_new InvalidArgument ''first message on replication stream must be SyncInit''))"

text \<open>The report of a session that failed or timed out; a panic of the handler reports nothing.\<close>

definition report_end ::
  "'c \<Rightarrow> unit outcome option \<Rightarrow> (message, sync_error, 'c) proc" where
  "report_end c r =
     (case r of
        None \<Rightarrow> Send (Error ''replication session timed out'') (\<lambda>_. Ret c)
      | Some (Failed e) \<Rightarrow> Send (Error (display_error e)) (\<lambda>_. Ret c)
      | Some _ \<Rightarrow> Ret c)"

definition origin_session ::
  "extern \<Rightarrow> sync_tuning \<Rightarrow> nat option \<Rightarrow> open_env \<Rightarrow> (message, sync_error, unit) proc" where
  "origin_session X t timer env =
     (case open_connection env SQLITE_OPEN_READONLY of
        Inl e \<Rightarrow> Send (Error (display_error e)) (\<lambda>_. Ret ())
      | Inr conn \<Rightarrow>
          (case snapshot_begin conn of
             Inl e \<Rightarrow> Send (Error (display_error e)) (\<lambda>_. Ret ())
           | Inr snap \<Rightarrow>
               bind_proc (timed (origin_run_with_tuning X t snap) timer) (report_end ())))"

text \<open>The replica's connection is known when its handler returned.\<close>

definition replica_session ::
  "extern \<Rightarrow> sync_tuning \<Rightarrow> nat option \<Rightarrow> open_env \<Rightarrow>
     (message, sync_error, connection option) proc" where
  "replica_session X t timer env =
     (case open_connection env (SQLITE_OPEN_READWRITE + SQLITE_OPEN_CREATE) of
        Inl e \<Rightarrow> Send (Error (display_error e)) (\<lambda>_. Ret None)
      | Inr conn \<Rightarrow>
          bind_proc (timed (replica_run_with_tuning X t conn) timer)
            (\<lambda>r. report_end (map_option fst r) (map_option snd r)))"

text \<open>
  The method \<open>sync\<close>: a status, or the session of the server, as origin when the client is the
  replica and as replica when it is the origin. \<open>files\<close> is what opening a path finds.
\<close>

definition replication_sync ::
  "extern \<Rightarrow> (string \<Rightarrow> open_env) \<Rightarrow> nat option \<Rightarrow> ('w, 's) engine_env \<Rightarrow> replication_server \<Rightarrow> u64 \<Rightarrow>
     string option option \<Rightarrow> stream_end + sync_message \<Rightarrow>
     status + ((sync_message, stream_end, unit) proc +
               (sync_message, stream_end, connection option) proc)" where
  "replication_sync X files timer E R now header first =
     (case sync_admission E R now header first of
        Inl e \<Rightarrow> Inl e
      | Inr (db_name, path, r) \<Rightarrow>
          Inr (case r of
                 Role_Replica \<Rightarrow> Inl (over_grpc (origin_session X (rs_tuning R) timer (files path)))
               | Role_Origin \<Rightarrow> Inr (over_grpc (replica_session X (rs_tuning R) timer (files path)))))"

section \<open>The clients\<close>

record dialer =
  url_error :: "string \<Rightarrow> string option"
  tls_error :: "string option"
  connect_error :: "string \<Rightarrow> string option"
  header_error :: "string \<Rightarrow> string option"
  status_text :: "status \<Rightarrow> string"

definition starts_with_https :: "string \<Rightarrow> bool" where
  "starts_with_https url \<longleftrightarrow> take 8 url = ''https://''"

text \<open>The channel to the server, its first message, and the request with its entry.\<close>

definition dial :: "dialer \<Rightarrow> string \<Rightarrow> unit res" where
  "dial D url =
     (let normalized = normalize_grpc_url url in
      case url_error D normalized of
        Some e \<Rightarrow> Inl (Network (''invalid gRPC URL: '' @ e))
      | None \<Rightarrow>
          (case (if starts_with_https normalized then tls_error D else None) of
             Some e \<Rightarrow> Inl (Network (''failed to configure TLS: '' @ e))
           | None \<Rightarrow>
               (case connect_error D normalized of
                  Some e \<Rightarrow> Inl (Network (''failed to connect to gRPC server: '' @ e))
                | None \<Rightarrow> Inr ())))"

definition init_msg :: "string \<Rightarrow> client_role \<Rightarrow> string option \<Rightarrow> sync_message" where
  "init_msg database r auth =
     Some (P_Init \<lparr>init_database = database, client_role = role_number r,
       init_auth_token = (case auth of None \<Rightarrow> [] | Some t \<Rightarrow> t)\<rparr>)"

definition auth_entry :: "dialer \<Rightarrow> string option \<Rightarrow> string option option res" where
  "auth_entry D auth =
     (case auth of
        None \<Rightarrow> Inr None
      | Some t \<Rightarrow>
          (case header_error D (''Bearer '' @ t) of
             Some e \<Rightarrow> Inl (Protocol (''invalid auth token: '' @ e))
           | None \<Rightarrow> Inr (Some (Some (''Bearer '' @ t)))))"

text \<open>
  Establishing the stream: \<open>serve\<close> is the service's answer to the entry and the first message.
\<close>

definition establish ::
  "dialer \<Rightarrow> string \<Rightarrow> string \<Rightarrow> client_role \<Rightarrow> string option \<Rightarrow>
     (string option option \<Rightarrow> sync_message \<Rightarrow> status + 'a) \<Rightarrow> 'a res" where
  "establish D url database r auth serve =
     (case dial D url of
        Inl e \<Rightarrow> Inl e
      | Inr _ \<Rightarrow>
          (case auth_entry D auth of
             Inl e \<Rightarrow> Inl e
           | Inr entry \<Rightarrow>
               (case serve entry (init_msg database r auth) of
                  Inl status \<Rightarrow>
                    Inl (Network (''failed to establish gRPC stream: '' @ status_text D status))
                | Inr a \<Rightarrow> Inr a)))"

text \<open>
  \<open>grpc_push_sync_with_tuning\<close> and \<open>grpc_pull_sync_with_tuning\<close>: an error before the stream
  stands, or what the service gave with the client's handler on the stream.
\<close>

definition grpc_push_sync_with_tuning ::
  "extern \<Rightarrow> sync_tuning \<Rightarrow> open_env \<Rightarrow> dialer \<Rightarrow> string \<Rightarrow> string \<Rightarrow> string option \<Rightarrow>
     (string option option \<Rightarrow> sync_message \<Rightarrow> status + 'a) \<Rightarrow>
     ((sync_message, stream_end, unit outcome) proc \<times> 'a) res" where
  "grpc_push_sync_with_tuning X t env D url database auth serve =
     (case open_connection env SQLITE_OPEN_READONLY of
        Inl e \<Rightarrow> Inl e
      | Inr conn \<Rightarrow>
          (case snapshot_begin conn of
             Inl e \<Rightarrow> Inl e
           | Inr snap \<Rightarrow>
               (case establish D url database Role_Origin auth serve of
                  Inl e \<Rightarrow> Inl e
                | Inr a \<Rightarrow>
                    Inr (bind_proc (over_grpc (origin_run_with_tuning X t snap))
                           (\<lambda>r. Ret (finish r (Inr ()) (snapshot_commit snap))), a))))"

definition grpc_pull_sync_with_tuning ::
  "extern \<Rightarrow> sync_tuning \<Rightarrow> open_env \<Rightarrow> dialer \<Rightarrow> string \<Rightarrow> string \<Rightarrow> string option \<Rightarrow>
     (string option option \<Rightarrow> sync_message \<Rightarrow> status + 'a) \<Rightarrow>
     ((sync_message, stream_end, connection \<times> unit outcome) proc \<times> 'a) res" where
  "grpc_pull_sync_with_tuning X t env D url database auth serve =
     (case open_connection env (SQLITE_OPEN_READWRITE + SQLITE_OPEN_CREATE) of
        Inl e \<Rightarrow> Inl e
      | Inr conn \<Rightarrow>
          (case establish D url database Role_Replica auth serve of
             Inl e \<Rightarrow> Inl e
           | Inr a \<Rightarrow>
               Inr (bind_proc (over_grpc (replica_run_with_tuning X t conn))
                      (\<lambda>(c, r). Ret (c, finish r (Inr ()) (Inr ()))), a)))"

definition grpc_push_sync ::
  "extern \<Rightarrow> (string \<Rightarrow> string option) \<Rightarrow> open_env \<Rightarrow> dialer \<Rightarrow> string \<Rightarrow> string \<Rightarrow> string option \<Rightarrow>
     (string option option \<Rightarrow> sync_message \<Rightarrow> status + 'a) \<Rightarrow>
     ((sync_message, stream_end, unit outcome) proc \<times> 'a) res" where
  "grpc_push_sync X vars = grpc_push_sync_with_tuning X (from_env vars)"

definition grpc_pull_sync ::
  "extern \<Rightarrow> (string \<Rightarrow> string option) \<Rightarrow> open_env \<Rightarrow> dialer \<Rightarrow> string \<Rightarrow> string \<Rightarrow> string option \<Rightarrow>
     (string option option \<Rightarrow> sync_message \<Rightarrow> status + 'a) \<Rightarrow>
     ((sync_message, stream_end, connection \<times> unit outcome) proc \<times> 'a) res" where
  "grpc_pull_sync X vars = grpc_pull_sync_with_tuning X (from_env vars)"

section \<open>Facts about composed handlers\<close>

lemma bind_assoc: "bind_proc (bind_proc p f) g = bind_proc p (\<lambda>r. bind_proc (f r) g)"
  by (induction p) simp_all

lemma timed_None: "timed p None = bind_proc p (\<lambda>r. Ret (Some r))"
  by (induction p) simp_all

lemma over_grpc_bind: "over_grpc (bind_proc p f) = bind_proc (over_grpc p) (\<lambda>r. over_grpc (f r))"
  by (induction p) simp_all

text \<open>Two handlers, each followed by what comes after it.\<close>

definition then_sys ::
  "('a \<Rightarrow> ('m, 'e, 'c) proc) \<Rightarrow> ('b \<Rightarrow> ('m, 'e, 'd) proc) \<Rightarrow> ('m, 'e, 'a, 'b) system \<Rightarrow>
     ('m, 'e, 'c, 'd) system" where
  "then_sys f g s =
     \<lparr>left = bind_proc (left s) f, right = bind_proc (right s) g, l2r = l2r s, r2l = r2l s\<rparr>"

lemma then_sys_step: "sys_step s t \<Longrightarrow> sys_step (then_sys f g s) (then_sys f g t)"
proof (induction rule: sys_step.induct)
  case (left_step s t)
  then show ?case
    by (intro sys_step.left_step)
       (auto simp: left_move_def then_sys_def split: proc.splits list.splits)
next
  case (right_step s t)
  then show ?case
    by (intro sys_step.right_step)
       (auto simp: right_move_def then_sys_def split: proc.splits list.splits)
qed

lemma then_sys_run:
  assumes "run_sys s = pair_of (Ret a) (Ret b)"
  shows "run_sys (then_sys f g s) = run_sys (pair_of (f a) (g b))"
proof -
  have "sys_step\<^sup>*\<^sup>* (then_sys f g s) (then_sys f g (run_sys s))"
    using run_sys_reached [of s]
    by (induction rule: rtranclp_induct) (auto intro: then_sys_step rtranclp.rtrancl_into_rtrancl)
  from run_sys_after [OF this] show ?thesis by (simp add: assms then_sys_def)
qed

section \<open>A session that succeeds\<close>

lemma grpc_run:
  assumes "sync_setting X Blake3V2 snap c rpc" and "rpc \<le> snap_page_count snap"
    and "digest_size (digests_of X)"
  obtains c' where "run_sys (grpc_system (sync_system X t snap c)) =
      pair_of (Ret (Returned ())) (Ret (c', Returned ()))" and "db_file c' = snap_bytes snap"
proof -
  have "run_sys (grpc_system (sync_system X t snap c)) = grpc_system (run_sys (sync_system X t snap c))"
    by (rule grpc_simulates [OF sync_system_faithful]) (use assms in \<open>simp_all add: sync_setting_def\<close>)
  with sync_completes [OF assms(1,2), of t] that show ?thesis by (auto simp: grpc_system_def)
qed

lemma mixed_tuning:
  assumes "rayon_ordered (rayon_of X)"
  shows "pair_of (bind_proc (over_grpc (origin_run_with_tuning X t snap)) f)
      (bind_proc (over_grpc (replica_run_with_tuning X t' c)) g) =
    then_sys f g (grpc_system (sync_system X t snap c))"
  using replica_tuning [OF assms, of t' c t]
  by (simp add: then_sys_def grpc_system_def sync_system_def)

lemma push_runs:
  assumes "sync_setting X Blake3V2 snap c rpc" and "rpc \<le> snap_page_count snap"
    and "digest_size (digests_of X)" and "snapshot_commit snap = Inr ()"
    and "open_connection env (SQLITE_OPEN_READWRITE + SQLITE_OPEN_CREATE) = Inr c"
  shows "\<exists>c'. run_sys (pair_of
      (bind_proc (over_grpc (origin_run_with_tuning X t snap))
        (\<lambda>r. Ret (finish r (Inr ()) (snapshot_commit snap))))
      (over_grpc (replica_session X t' None env))) =
    pair_of (Ret (Returned ())) (Ret (Some c')) \<and> db_file c' = snap_bytes snap"
proof -
  obtain c' where r: "run_sys (grpc_system (sync_system X t snap c)) =
      pair_of (Ret (Returned ())) (Ret (c', Returned ()))" and eq: "db_file c' = snap_bytes snap"
    by (rule grpc_run [OF assms(1-3)])
  have "rayon_ordered (rayon_of X)" using assms(1) by (simp add: sync_setting_def)
  with eq show ?thesis
    by (simp add: then_sys_run [OF r] replica_session_def assms(4,5) timed_None bind_assoc over_grpc_bind
        mixed_tuning [OF \<open>rayon_ordered _\<close>] finish_def report_end_def both_returned)
qed

lemma pull_runs:
  assumes "sync_setting X Blake3V2 snap c rpc" and "rpc \<le> snap_page_count snap"
    and "digest_size (digests_of X)"
    and "open_connection env SQLITE_OPEN_READONLY = Inr oc" and "snapshot_begin oc = Inr snap"
  shows "\<exists>c'. run_sys (pair_of (over_grpc (origin_session X t None env))
      (bind_proc (over_grpc (replica_run_with_tuning X t' c))
        (\<lambda>(c, r). Ret (c, finish r (Inr ()) (Inr ()))))) =
    pair_of (Ret ()) (Ret (c', Returned ())) \<and> db_file c' = snap_bytes snap"
proof -
  obtain c' where r: "run_sys (grpc_system (sync_system X t snap c)) =
      pair_of (Ret (Returned ())) (Ret (c', Returned ()))" and eq: "db_file c' = snap_bytes snap"
    by (rule grpc_run [OF assms(1-3)])
  have "rayon_ordered (rayon_of X)" using assms(1) by (simp add: sync_setting_def)
  with eq show ?thesis
    by (simp add: then_sys_run [OF r] origin_session_def assms(4,5) timed_None bind_assoc over_grpc_bind
        mixed_tuning [OF \<open>rayon_ordered _\<close>] finish_def report_end_def both_returned)
qed

section \<open>Admission\<close>

lemma admission_iff:
  "sync_admission E R now header first = Inr (db, path, r) \<longleftrightarrow>
     (\<exists>init. first = Inr (Some (P_Init init)) \<and> db = init_database init \<and>
        check_request_or_token (rs_auth R) header (Some (init_auth_token init)) = Inr () \<and>
        resolve_db_path E (rs_engine R) db = Inr path \<and>
        client_role_of (client_role init) = Some r \<and>
        \<not> (r = Role_Origin \<and> (\<exists>state. rs_state R = Some state \<and> is_writer now state)))"
  by (auto simp: sync_admission_def split: sum.splits stream_end.splits option.splits payload.splits)

lemma role_number_inverse [simp]: "client_role_of (role_number r) = Some r"
  by (cases r) (simp_all add: role_number_def client_role_of_def)

lemma established:
  assumes "dial D url = Inr ()" and "header_error D (''Bearer '' @ tok) = None"
    and "serve (Some (Some (''Bearer '' @ tok))) (init_msg db r (Some tok)) = Inr a"
  shows "establish D url db r (Some tok) serve = Inr a"
  using assms by (simp add: establish_def auth_entry_def)

lemma bearer_accepted:
  "check_request_or_token (auth_required tok) (Some (Some (''Bearer '' @ tok))) payload = Inr ()"
  by (simp add: check_request_or_token_iff auth_required_def)

lemma admitted:
  assumes "rs_auth R = auth_required tok" and "resolve_db_path E (rs_engine R) db = Inr path"
    and "r = Role_Origin \<Longrightarrow> \<forall>state. rs_state R = Some state \<longrightarrow> \<not> is_writer now state"
  shows "sync_admission E R now (Some (Some (''Bearer '' @ tok))) (Inr (init_msg db r (Some tok))) =
    Inr (db, path, r)"
  unfolding admission_iff using assms 
  by (auto simp: init_msg_def bearer_accepted simp del: append.simps)

section \<open>Failures of the server\<close>

lemma reported_to_origin:
  "left (run_sys (pair_of (bind_proc (over_grpc (origin_run_with_tuning X t snap)) (\<lambda>r. Ret (f r)))
      (over_grpc (Send (Error m) (\<lambda>_. Ret c))))) = Ret (f (Failed (Protocol m)))"
  (is "left (run_sys ?s) = _")
proof -
  let ?u = "?s\<lparr>right := Ret c, r2l := [Some (P_Error m)]\<rparr>"
  let ?v = "?s\<lparr>left := Ret (f (Failed (Protocol m))), right := Ret c\<rparr>"
  have "sys_step ?s ?u" by (rule right_step) (simp add: right_move_def)
  moreover have "sys_step ?u ?v"
    by (rule left_step)
       (simp add: left_move_def origin_run_with_tuning_def recv_or_def grpc_recv_def from_proto_def)
  ultimately have "sys_step\<^sup>*\<^sup>* ?s ?v" by simp
  from run_sys_after [OF this, symmetric] show ?thesis by (simp add: both_returned)
qed

lemma reported_to_replica:
  assumes "page_count c = Inr n"
  shows "right (run_sys (pair_of (over_grpc (Send (Error m) (\<lambda>_. Ret a)))
      (bind_proc (over_grpc (replica_run_with_tuning X t c)) (\<lambda>(c, r). Ret (c, f r))))) =
    Ret (c, f (Failed (Protocol m)))"
  (is "right (run_sys ?s) = _")
proof -
  let ?u = "?s\<lparr>left := Ret a, l2r := [Some (P_Error m)]\<rparr>"
  let ?v = "\<lparr>left = Ret a, right = Ret (c, f (Failed (Protocol m))), l2r = [],
    r2l = [Some (P_Hello PROTOCOL_VERSION (conn_page_size c) n)]\<rparr>"
  have u: "sys_step ?s ?u" by (rule left_step) (simp add: left_move_def)
  obtain w where w: "right_move ?u = Some w"
    by (simp add: right_move_def replica_run_with_tuning_def assms send_or_def)
  then have v: "right_move w = Some ?v"
    by (auto simp: right_move_def replica_run_with_tuning_def assms send_or_def recv_or_def
        grpc_send_error_def grpc_recv_def from_proto_def)
  have "sys_step\<^sup>*\<^sup>* ?s ?v"
    by (rule converse_rtranclp_into_rtranclp [of _ _ ?u], rule u,
        rule converse_rtranclp_into_rtranclp [of _ _ w], rule right_step, rule w,
        rule r_into_rtranclp, rule right_step, rule v)
  from run_sys_after [OF this] have "run_sys ?s = run_sys ?v" ..
  also have "\<dots> = ?v" by (rule run_sys_end) (simp_all add: left_move_def right_move_def)
  finally show ?thesis by simp
qed

end
