(* ===== verification/Batch.thy ===== *)
theory Batch
  imports Endpoint Replication "HOL-Library.Multiset"
begin

text \<open>
  Batch mode (\<open>src/src/batch.rs\<close>): loading and checking a manifest, one entry with its attempts,
  timeouts and back-off, and the run of all entries with a bounded number in flight. The
  parsers of serde are the record \<open>manifest_parsers\<close>.

  What the outside does during one attempt is \<open>attempt_env\<close>: what opening a path finds, how the
  transports answer, and whether the attempt outlives its limit. \<open>None\<close> is an attempt that never
  ends. A batch is a step relation: any entry in flight may finish next.

  Shown: the checks of a manifest; bounds of the back-off; how often an entry is tried; and
  that, whatever the order in which entries finish, every entry runs exactly once, never more
  than the allowed number at once, and the report is the same.
\<close>

type_synonym u128 = "128 word"

section \<open>Manifests\<close>

datatype manifest_format = Format_Auto | Format_Json | Format_Yaml | Format_Toml

record batch_sync_spec =
  spec_name :: "string option"
  spec_origin :: string
  spec_replica :: string
  spec_dry_run :: "bool option"
  spec_retries :: "u32 option"
  spec_timeout_secs :: "u64 option"
  spec_backoff_ms :: "u64 option"
  spec_backoff_max_ms :: "u64 option"
  spec_jitter_pct :: "u8 option"
  spec_auth_token :: "string option"

definition spec_identifier :: "batch_sync_spec \<Rightarrow> string" where
  "spec_identifier spec =
     (case spec_name spec of
        Some name \<Rightarrow> name
      | None \<Rightarrow> spec_origin spec @ '' -> '' @ spec_replica spec)"

text \<open>A parsed manifest is the list of its entries, which have the fields of a specification.\<close>

record manifest_parsers =
  from_json :: "string \<Rightarrow> string + batch_sync_spec list"
  from_yaml :: "string \<Rightarrow> string + batch_sync_spec list"
  from_toml :: "string \<Rightarrow> string + batch_sync_spec list"

definition parse_as ::
  "string \<Rightarrow> string \<Rightarrow> string + batch_sync_spec list \<Rightarrow> string + batch_sync_spec list" where
  "parse_as path kind r =
     (case r of
        Inl e \<Rightarrow> Inl (''failed parsing batch manifest '' @ path @ '' as '' @ kind @ '': '' @ e)
      | Inr m \<Rightarrow> Inr m)"

definition parse_json ::
  "manifest_parsers \<Rightarrow> string \<Rightarrow> string \<Rightarrow> string + batch_sync_spec list" where
  "parse_json M path s = parse_as path ''json'' (from_json M s)"

definition parse_yaml ::
  "manifest_parsers \<Rightarrow> string \<Rightarrow> string \<Rightarrow> string + batch_sync_spec list" where
  "parse_yaml M path s = parse_as path ''yaml'' (from_yaml M s)"

definition parse_toml ::
  "manifest_parsers \<Rightarrow> string \<Rightarrow> string \<Rightarrow> string + batch_sync_spec list" where
  "parse_toml M path s = parse_as path ''toml'' (from_toml M s)"

text \<open>\<open>Path::extension\<close>: after the last dot of the file name, unless only that dot starts it.\<close>

definition path_extension :: "string \<Rightarrow> string option" where
  "path_extension path =
     (case rev (components path) of
        Normal name # _ \<Rightarrow>
          (case split_once (CHR ''.'') (rev name) of
             Some (ext, stem) \<Rightarrow> if stem = [] then None else Some (rev ext)
           | None \<Rightarrow> None)
      | _ \<Rightarrow> None)"

definition detect_manifest ::
  "manifest_parsers \<Rightarrow> string \<Rightarrow> string \<Rightarrow> batch_sync_spec list res" where
  "detect_manifest M path s =
     (case parse_json M path s of
        Inr m \<Rightarrow> Inr m
      | Inl json_error \<Rightarrow>
          (case parse_yaml M path s of
             Inr m \<Rightarrow> Inr m
           | Inl yaml_error \<Rightarrow>
               (case parse_toml M path s of
                  Inr m \<Rightarrow> Inr m
                | Inl toml_error \<Rightarrow>
                    Inl (Protocol (''failed parsing batch manifest '' @ path @
                      '' with auto format detection; json error: '' @ json_error @
                      ''; yaml error: '' @ yaml_error @ ''; toml error: '' @ toml_error)))))"

definition as_protocol :: "string + 'a \<Rightarrow> 'a res" where
  "as_protocol r = (case r of Inl e \<Rightarrow> Inl (Protocol e) | Inr a \<Rightarrow> Inr a)"

definition parse_manifest ::
  "manifest_parsers \<Rightarrow> string \<Rightarrow> manifest_format \<Rightarrow> string \<Rightarrow> batch_sync_spec list res" where
  "parse_manifest M path format s =
     (case format of
        Format_Json \<Rightarrow> as_protocol (parse_json M path s)
      | Format_Yaml \<Rightarrow> as_protocol (parse_yaml M path s)
      | Format_Toml \<Rightarrow> as_protocol (parse_toml M path s)
      | Format_Auto \<Rightarrow>
          (case map_option to_ascii_lowercase (path_extension path) of
             Some ext \<Rightarrow>
               if ext = ''json'' then as_protocol (parse_json M path s)
               else if ext = ''yaml'' \<or> ext = ''yml'' then as_protocol (parse_yaml M path s)
               else if ext = ''toml'' then as_protocol (parse_toml M path s)
               else detect_manifest M path s
           | None \<Rightarrow> detect_manifest M path s))"

definition entry_error :: "string \<Rightarrow> nat \<Rightarrow> string \<Rightarrow> sync_error" where
  "entry_error path idx m =
     Protocol (''batch manifest '' @ path @ '' entry '' @ show_nat idx @ m)"

definition check_entry :: "string \<Rightarrow> nat \<Rightarrow> batch_sync_spec \<Rightarrow> unit res" where
  "check_entry path idx entry =
     (if trim (spec_origin entry) = [] then Inl (entry_error path idx '' has empty origin'')
      else if trim (spec_replica entry) = [] then Inl (entry_error path idx '' has empty replica'')
      else if spec_timeout_secs entry = Some 0 then
        Inl (entry_error path idx '' timeout_secs must be greater than 0'')
      else if (case spec_jitter_pct entry of Some pct \<Rightarrow> pct > 100 | None \<Rightarrow> False) then
        Inl (entry_error path idx '' retry_jitter_pct must be between 0 and 100'')
      else if (case (spec_backoff_ms entry, spec_backoff_max_ms entry) of
                 (Some base, Some m) \<Rightarrow> m > 0 \<and> base > m
               | _ \<Rightarrow> False) then
        Inl (entry_error path idx '' retry_backoff_max_ms must be >= retry_backoff_ms'')
      else Inr ())"

fun check_entries ::
  "string \<Rightarrow> nat \<Rightarrow> batch_sync_spec list \<Rightarrow> batch_sync_spec list res" where
  "check_entries path idx [] = Inr []"
| "check_entries path idx (entry # entries) =
     (case check_entry path idx entry of
        Inl e \<Rightarrow> Inl e
      | Inr _ \<Rightarrow>
          (case check_entries path (Suc idx) entries of
             Inl e \<Rightarrow> Inl e
           | Inr specs \<Rightarrow> Inr (entry # specs)))"

definition load_manifest ::
  "manifest_parsers \<Rightarrow> string \<Rightarrow> manifest_format \<Rightarrow> string + string \<Rightarrow> batch_sync_spec list res" where
  "load_manifest M path format read =
     (case read of
        Inl e \<Rightarrow> Inl (Protocol (''failed reading batch manifest '' @ path @ '': '' @ e))
      | Inr s \<Rightarrow>
          (case parse_manifest M path format s of
             Inl e \<Rightarrow> Inl e
           | Inr syncs \<Rightarrow>
               if syncs = [] then
                 Inl (Protocol (''batch manifest '' @ path @ '' has no sync entries''))
               else check_entries path 0 syncs))"

lemma check_entries_ok:
  "check_entries path idx entries = Inr specs \<longleftrightarrow>
     specs = entries \<and> (\<forall>k < length entries. check_entry path (idx + k) (entries ! k) = Inr ())"
proof (induction entries arbitrary: idx specs)
  case (Cons e es)
  have "(\<forall>k < length (e # es). check_entry path (idx + k) ((e # es) ! k) = Inr ()) \<longleftrightarrow>
      check_entry path idx e = Inr () \<and> (\<forall>k < length es. check_entry path (Suc idx + k) (es ! k) = Inr ())"
    by (auto simp: All_less_Suc2)
  with Cons.IH [of "Suc idx"] show ?case
    by (cases "check_entry path idx e"; cases "check_entries path (Suc idx) es") auto
qed auto

section \<open>Back-off\<close>

text \<open>
  Durations are milliseconds (\<open>u128\<close>). The signed arithmetic of the jitter cannot overflow: the
  delay is below \<open>2 ^ 106\<close>; it is written on \<open>int\<close>.
\<close>

definition retry_delay_for_attempt_core ::
  "u128 \<Rightarrow> u128 option \<Rightarrow> u8 \<Rightarrow> u32 \<Rightarrow> u128 \<Rightarrow> u64 option" where
  "retry_delay_for_attempt_core base mx jitter_pct attempt entropy_nanos =
     (let exponent = min (saturating_sub attempt 1) 31;
          factor = push_bit (unat exponent) (1 :: u128);
          full = saturating_mul base factor;
          delay_ms = (case mx of Some m \<Rightarrow> min full m | None \<Rightarrow> full)
      in if delay_ms = 0 then None
         else
           (let jitter_span = saturating_mul delay_ms (ucast jitter_pct) div 100;
                rng = saturating_add (saturating_mul jitter_span 2) 1;
                offset = uint (entropy_nanos mod rng) - uint jitter_span;
                adjusted = (if jitter_pct > 0 \<and> jitter_span > 0
                            then nat (max (uint delay_ms + offset) 0) else unat delay_ms)
            in Some (if adjusted < 2 ^ 64 then of_nat adjusted else - 1)))"

section \<open>One entry\<close>

record batch_options =
  jobs :: usize
  default_dry_run :: bool
  default_retries :: u32
  default_timeout_secs :: "u64 option"
  backoff_base_ms :: "u64 option"
  backoff_max_ms :: "u64 option"
  jitter_pct :: u8
  options_tuning :: sync_tuning
  options_auth_token :: "string option"

text \<open>
  What an attempt meets. The SSH transport is a script for a host and a path, as in \<open>Sync\<close>; a
  gRPC stream is the answers to sends and what arrives.
\<close>

record attempt_env =
  ae_extern :: extern
  ae_open :: "string \<Rightarrow> open_env"
  ae_exists :: "string \<Rightarrow> bool"
  ae_ssh :: "string \<Rightarrow> string \<Rightarrow> script"
  ae_dialer :: dialer
  ae_serve :: "string option option \<Rightarrow> sync_message \<Rightarrow> status + unit"
  ae_sent :: "stream_end option list"
  ae_arrives :: "(stream_end + sync_message) list"
  ae_slow :: bool
  ae_entropy :: u128

definition dry_run_local :: "attempt_env \<Rightarrow> string \<Rightarrow> string \<Rightarrow> unit res" where
  "dry_run_local A origin replica =
     (case open_connection (ae_open A origin) SQLITE_OPEN_READONLY of
        Inl e \<Rightarrow> Inl e
      | Inr o1 \<Rightarrow>
          if ae_exists A replica then
            (case open_connection (ae_open A replica) SQLITE_OPEN_READONLY of
               Inl e \<Rightarrow> Inl e
             | Inr r \<Rightarrow>
                 if conn_page_size o1 \<noteq> conn_page_size r then
                   Inl (PageSizeMismatch (conn_page_size o1) (conn_page_size r))
                 else Inr ())
          else Inr ())"

definition to_outcome :: "'a res \<Rightarrow> 'a outcome" where
  "to_outcome r = (case r of Inl e \<Rightarrow> Failed e | Inr a \<Rightarrow> Returned a)"

definition spec_token :: "batch_sync_spec \<Rightarrow> batch_options \<Rightarrow> string option" where
  "spec_token spec opts =
     (case spec_auth_token spec of Some t \<Rightarrow> Some t | None \<Rightarrow> options_auth_token opts)"

definition grpc_push_attempt ::
  "attempt_env \<Rightarrow> sync_tuning \<Rightarrow> string option \<Rightarrow> string \<Rightarrow> string \<Rightarrow> string \<Rightarrow> unit outcome option" where
  "grpc_push_attempt A t tok origin url database =
     (case grpc_push_sync_with_tuning (ae_extern A) t (ae_open A origin) (ae_dialer A) url database
             tok (ae_serve A) of
        Inl e \<Rightarrow> Some (Failed e)
      | Inr (client, _) \<Rightarrow> snd (drive_io client (ae_sent A) (ae_arrives A)))"

definition grpc_pull_attempt ::
  "attempt_env \<Rightarrow> sync_tuning \<Rightarrow> string option \<Rightarrow> string \<Rightarrow> string \<Rightarrow> string \<Rightarrow> unit outcome option" where
  "grpc_pull_attempt A t tok replica url database =
     (case grpc_pull_sync_with_tuning (ae_extern A) t (ae_open A replica) (ae_dialer A) url database
             tok (ae_serve A) of
        Inl e \<Rightarrow> Some (Failed e)
      | Inr (client, _) \<Rightarrow> map_option snd (snd (drive_io client (ae_sent A) (ae_arrives A))))"

definition run_one_inner ::
  "attempt_env \<Rightarrow> batch_sync_spec \<Rightarrow> bool \<Rightarrow> batch_options \<Rightarrow> unit outcome option" where
  "run_one_inner A spec dry_run opts =
     (case (parse_endpoint (spec_origin spec), parse_endpoint (spec_replica spec)) of
        (Local o1, Local r) \<Rightarrow>
          Some (if \<not> dry_run then
                  snd (sync_local_with_tuning (ae_extern A) (ae_open A o1) (ae_open A r)
                         (options_tuning opts))
                else to_outcome (dry_run_local A o1 r))
      | (Local o1, Remote user_host path) \<Rightarrow>
          if dry_run then Some (Returned ())
          else push_sync_with_tuning (ae_extern A) (ae_open A o1) (ae_ssh A user_host path)
                 (options_tuning opts)
      | (Remote user_host path, Local r) \<Rightarrow>
          if dry_run then Some (Returned ())
          else map_option snd
                 (pull_sync_with_tuning (ae_extern A) (ae_open A r) (ae_ssh A user_host path)
                   (options_tuning opts))
      | (Local o1, Grpc url database) \<Rightarrow>
          if dry_run then Some (Returned ())
          else grpc_push_attempt A (options_tuning opts) (spec_token spec opts) o1 url database
      | (Grpc url database, Local r) \<Rightarrow>
          if dry_run then Some (Returned ())
          else grpc_pull_attempt A (options_tuning opts) (spec_token spec opts) r url database
      | (Grpc _ _, Grpc _ _) \<Rightarrow> Some (Failed (Protocol ''gRPC to gRPC sync not supported''))
      | _ \<Rightarrow> Some (Failed (Protocol ''at least one of ORIGIN or REPLICA must be local'')))"

record batch_item_result =
  item_index :: nat
  item_id :: string
  item_error :: "string option"

definition item_success :: "batch_item_result \<Rightarrow> bool" where
  "item_success r \<longleftrightarrow> item_error r = None"

text \<open>\<open>tokio::time::timeout\<close> around an attempt, when there is a limit.\<close>

definition limited :: "u64 option \<Rightarrow> attempt_env \<Rightarrow> unit outcome option \<Rightarrow> unit outcome option" where
  "limited limit A r =
     (case limit of
        Some secs \<Rightarrow>
          if r = None \<or> ae_slow A
          then Some (Failed (Protocol (''sync attempt timed out after '' @ show_word secs @ ''s'')))
          else r
      | None \<Rightarrow> r)"

definition effective :: "u64 option \<Rightarrow> u64 option \<Rightarrow> u64 option" where
  "effective own dflt =
     (case (case own of Some v \<Rightarrow> Some v | None \<Rightarrow> dflt) of
        Some ms \<Rightarrow> if ms > 0 then Some ms else None
      | None \<Rightarrow> None)"

definition entry_delay :: "batch_sync_spec \<Rightarrow> batch_options \<Rightarrow> attempt_env \<Rightarrow> u32 \<Rightarrow> u64 option" where
  "entry_delay spec opts A attempt =
     (case effective (spec_backoff_ms spec) (backoff_base_ms opts) of
        None \<Rightarrow> None
      | Some base \<Rightarrow>
          retry_delay_for_attempt_core (ucast base)
            (map_option ucast (effective (spec_backoff_max_ms spec) (backoff_max_ms opts)))
            (case spec_jitter_pct spec of Some p \<Rightarrow> p | None \<Rightarrow> jitter_pct opts)
            attempt (ae_entropy A))"

text \<open>
  The attempts from number \<open>k\<close> on, when \<open>n\<close> are left: how the loop ends and the delays slept.
  \<open>env\<close> is what the attempt of each number meets.
\<close>

datatype attempts_end = Succeeded | Gave_Up "sync_error option" | Attempt_Panicked

fun attempts ::
  "(nat \<Rightarrow> attempt_env) \<Rightarrow> batch_sync_spec \<Rightarrow> batch_options \<Rightarrow> bool \<Rightarrow> u64 option \<Rightarrow> nat \<Rightarrow> nat \<Rightarrow>
     sync_error option \<Rightarrow> (attempts_end \<times> u64 list) option" where
  "attempts env spec opts dry_run limit k 0 last_error = Some (Gave_Up last_error, [])"
| "attempts env spec opts dry_run limit k (Suc n) last_error =
     (case limited limit (env k) (run_one_inner (env k) spec dry_run opts) of
        None \<Rightarrow> None
      | Some Panicked \<Rightarrow> Some (Attempt_Panicked, [])
      | Some (Returned _) \<Rightarrow> Some (Succeeded, [])
      | Some (Failed e) \<Rightarrow>
          (let delay = (if n > 0 then entry_delay spec opts (env k) (of_nat k) else None) in
           map_option (\<lambda>(r, ds). (r, (case delay of Some d \<Rightarrow> d # ds | None \<Rightarrow> ds)))
             (attempts env spec opts dry_run limit (Suc k) n (Some e))))"

definition attempt_count :: "batch_sync_spec \<Rightarrow> batch_options \<Rightarrow> u32" where
  "attempt_count spec opts =
     saturating_add (case spec_retries spec of Some r \<Rightarrow> r | None \<Rightarrow> default_retries opts) 1"

definition final_error :: "u32 \<Rightarrow> sync_error option \<Rightarrow> string" where
  "final_error tries last_error =
     ''after '' @ show_word tries @ '' attempt(s): '' @
       (case last_error of Some e \<Rightarrow> display_error e | None \<Rightarrow> ''unknown batch error'')"

definition run_one ::
  "(nat \<Rightarrow> attempt_env) \<Rightarrow> nat \<Rightarrow> batch_sync_spec \<Rightarrow> batch_options \<Rightarrow>
     (batch_item_result outcome \<times> u64 list) option" where
  "run_one env index spec opts =
     (let dry_run = (case spec_dry_run spec of Some b \<Rightarrow> b | None \<Rightarrow> default_dry_run opts);
          limit = (case spec_timeout_secs spec of Some t \<Rightarrow> Some t | None \<Rightarrow> default_timeout_secs opts);
          tries = attempt_count spec opts;
          item = (\<lambda>e. \<lparr>item_index = index, item_id = spec_identifier spec, item_error = e\<rparr>)
      in map_option (\<lambda>(r, ds).
           (case r of
              Attempt_Panicked \<Rightarrow> Panicked
            | Succeeded \<Rightarrow> Returned (item None)
            | Gave_Up e \<Rightarrow> Returned (item (Some (final_error tries e))), ds))
           (attempts env spec opts dry_run limit 1 (unat tries) None))"

lemma attempts_end_Returned:
  "(case a of Succeeded \<Rightarrow> Returned x | Gave_Up e \<Rightarrow> Returned (f e) | Attempt_Panicked \<Rightarrow> Panicked) =
     Returned r \<longleftrightarrow> a = Succeeded \<and> r = x \<or> (\<exists>e. a = Gave_Up e \<and> r = f e)"
  by (cases a) auto

lemma run_one_index:
  "run_one env i spec opts = Some (Returned r, ds) \<Longrightarrow> item_index r = i \<and> item_id r = spec_identifier spec"
  by (auto simp: run_one_def Let_def attempts_end_Returned)

section \<open>The whole batch\<close>

text \<open>
  The results are those of the entries: \<open>run i\<close> is what \<open>run_one\<close> yields for entry \<open>i\<close>. A state
  has the entries not yet started, those in flight, and the results in the order of arrival.
\<close>

record batch_state =
  waiting :: "nat list"
  in_flight :: "nat list"
  arrived :: "batch_item_result list"

definition batch_start :: "usize \<Rightarrow> nat \<Rightarrow> batch_state" where
  "batch_start max_jobs n =
     (let m = unat (max max_jobs 1)
      in \<lparr>waiting = drop m [0 ..< n], in_flight = take m [0 ..< n], arrived = []\<rparr>)"

definition next_started :: "nat list \<Rightarrow> nat list" where
  "next_started ws = (case ws of [] \<Rightarrow> [] | w # _ \<Rightarrow> [w])"

inductive batch_step :: "(nat \<Rightarrow> batch_item_result) \<Rightarrow> batch_state \<Rightarrow> batch_state \<Rightarrow> bool"
  for run :: "nat \<Rightarrow> batch_item_result" where
  finish: "in_flight s = as @ i # bs \<Longrightarrow>
    batch_step run s
      \<lparr>waiting = tl (waiting s), in_flight = as @ bs @ next_started (waiting s),
       arrived = arrived s @ [run i]\<rparr>"

inductive_cases batch_stepE: "batch_step run s t"

record batch_run_report =
  report_total :: nat
  report_succeeded :: nat
  report_failed :: nat
  report_results :: "batch_item_result list"

definition batch_report :: "batch_item_result list \<Rightarrow> batch_run_report" where
  "batch_report items =
     (let sorted_results = sort_key item_index items;
          n = length sorted_results;
          ok = length (filter item_success sorted_results)
      in \<lparr>report_total = n, report_succeeded = ok, report_failed = n - ok,
          report_results = sorted_results\<rparr>)"

definition any_failed :: "batch_run_report \<Rightarrow> bool" where
  "any_failed r \<longleftrightarrow> report_failed r > 0"

text \<open>
  The run itself, with \<open>pick\<close> as the order in which futures become ready: among the entries in
  flight that end at all, one is next. None of them ending is a batch that never ends; a panic
  of an entry unwinds the batch.
\<close>

fun entries_loop ::
  "(nat \<Rightarrow> batch_item_result outcome option) \<Rightarrow> (nat \<Rightarrow> nat) \<Rightarrow> nat \<Rightarrow> batch_state \<Rightarrow>
     batch_state outcome option" where
  "entries_loop run pick 0 s = Some (Returned s)"
| "entries_loop run pick (Suc k) s =
     (let live = filter (\<lambda>i. run i \<noteq> None) (in_flight s);
          i = live ! (pick k mod length live)
      in if in_flight s = [] then Some (Returned s)
         else if live = [] then None
         else
           (case run i of
              None \<Rightarrow> None
            | Some Panicked \<Rightarrow> Some Panicked
            | Some (Failed e) \<Rightarrow> Some (Failed e)
            | Some (Returned r) \<Rightarrow>
                entries_loop run pick k
                  \<lparr>waiting = tl (waiting s), in_flight = remove1 i (in_flight s) @ next_started (waiting s),
                   arrived = arrived s @ [r]\<rparr>))"

definition run_batch_sync ::
  "(nat \<Rightarrow> nat \<Rightarrow> attempt_env) \<Rightarrow> (nat \<Rightarrow> nat) \<Rightarrow> batch_sync_spec list \<Rightarrow> batch_options \<Rightarrow>
     batch_run_report outcome option" where
  "run_batch_sync env pick specs opts =
     (case entries_loop (\<lambda>i. map_option fst (run_one (env i) i (specs ! i) opts)) pick (length specs)
             (batch_start (jobs opts) (length specs)) of
        None \<Rightarrow> None
      | Some Panicked \<Rightarrow> Some Panicked
      | Some (Failed e) \<Rightarrow> Some (Failed e)
      | Some (Returned s) \<Rightarrow> Some (Returned (batch_report (arrived s))))"

section \<open>Facts about the back-off\<close>

lemma unat_two_power: "n < 128 \<Longrightarrow> unat (2 ^ n :: u128) = 2 ^ n"
proof -
  assume "n < 128"
  then have "(2 :: nat) ^ n < 2 ^ 128" by (rule power_strict_increasing) simp
  moreover have "(2 ^ n :: u128) = of_nat (2 ^ n)" by simp
  ultimately show ?thesis by (simp only: unat_of_nat) simp
qed

definition backoff_ms :: "u128 \<Rightarrow> u128 option \<Rightarrow> u32 \<Rightarrow> nat" where
  "backoff_ms base mx attempt =
     (let full = unat base * 2 ^ min (unat attempt - 1) 31
      in case mx of Some m \<Rightarrow> min full (unat m) | None \<Rightarrow> full)"

lemma backoff_small:
  assumes "unat base < 2 ^ 74"
  shows "unat base * 2 ^ min (unat attempt - 1) 31 < 2 ^ 105" and "backoff_ms base mx attempt < 2 ^ 105"
proof -
  have "(2 :: nat) ^ min (unat attempt - 1) 31 \<le> 2 ^ 31" by (rule power_increasing) simp_all
  then have "unat base * 2 ^ min (unat attempt - 1) 31 \<le> unat base * 2 ^ 31" by simp
  also have "\<dots> < 2 ^ 74 * 2 ^ 31" using assms by simp
  finally show "unat base * 2 ^ min (unat attempt - 1) 31 < 2 ^ 105" by simp
  then show "backoff_ms base mx attempt < 2 ^ 105"
    by (simp add: backoff_ms_def Let_def min.strict_coboundedI1 split: option.split)
qed

lemma delay_core:
  fixes base mx attempt pct
  assumes "unat base < 2 ^ 74"
  defines "d \<equiv> backoff_ms base mx attempt"
  defines "span \<equiv> d * unat pct div 100"
  shows "retry_delay_for_attempt_core base mx pct attempt ent =
    (if d = 0 then None
     else
       (let a = (if span > 0 then d + unat ent mod (2 * span + 1) - span else d)
        in Some (if a < 2 ^ 64 then of_nat a else - 1)))"
proof -
  note small = backoff_small(1) [OF assms(1), of attempt] backoff_small(2) [OF assms(1), of mx attempt]
  define e where "e = unat (min (saturating_sub attempt 1) 31)"
  define delay where "delay = (case mx of Some m \<Rightarrow> min (saturating_mul base (push_bit e 1)) m
    | None \<Rightarrow> saturating_mul base (push_bit e 1))"
  have e: "e = min (unat attempt - 1) 31" by (simp add: e_def unat_saturating_sub)
  then have "unat (saturating_mul base (push_bit e 1)) = unat base * 2 ^ e"
    using small(1) by (simp add: unat_saturating_mul unat_two_power)
  then have delay: "unat delay = d"
    by (simp add: delay_def d_def backoff_ms_def e Let_def split: option.split)
  have "unat pct < 256" using unsigned_less [of pct] by simp
  then have u: "unat (ucast pct :: u128) = unat pct"
    by (simp add: unsigned_ucast_eq take_bit_nat_eq_self_iff)
  have "d * unat pct \<le> d * 256" using \<open>unat pct < 256\<close> by simp
  also have "\<dots> < 2 ^ 113" using small(2) by (simp add: d_def)
  finally have p: "d * unat pct < 2 ^ 113" .
  define js where "js = saturating_mul delay (ucast pct) div 100"
  have js: "unat js = span"
    using p by (simp add: js_def span_def unat_div_distrib unat_saturating_mul delay u)
  have span: "span < 2 ^ 113" using p by (simp add: span_def)
  then have rng: "unat (saturating_add (saturating_mul js 2) 1) = 2 * span + 1"
    by (simp add: unat_saturating_add unat_saturating_mul js)
  have z: "delay = 0 \<longleftrightarrow> d = 0" "js > 0 \<longleftrightarrow> span > 0"
    by (simp_all flip: delay js add: unat_eq_0 word_less_nat_alt)
  have pct: "pct > 0" if "span > 0"
    using that by (cases "pct = 0") (auto simp: span_def word_neq_0_conv)
  have nat_diff: "nat (max (int a + (int b - int c)) 0) = a + b - c" for a b c :: nat by linarith
  have adj: "nat (max (uint delay + (uint (ent mod saturating_add (saturating_mul js 2) 1) - uint js)) 0) =
      d + unat ent mod (2 * span + 1) - span"
    by (simp only: uint_nat unat_mod_distrib rng js delay nat_diff)
  show ?thesis
    unfolding retry_delay_for_attempt_core_def Let_def e_def [symmetric] delay_def [symmetric]
      js_def [symmetric]
    using pct by (auto simp: z adj delay)
qed

section \<open>Facts about one entry\<close>

abbreviation attempt_result ::
  "(nat \<Rightarrow> attempt_env) \<Rightarrow> batch_sync_spec \<Rightarrow> batch_options \<Rightarrow> bool \<Rightarrow> u64 option \<Rightarrow> nat \<Rightarrow>
     unit outcome option" where
  "attempt_result env spec opts dry_run limit k \<equiv>
     limited limit (env k) (run_one_inner (env k) spec dry_run opts)"

lemma limited_ends: "limited (Some secs) A r \<noteq> None"
  by (cases r) (simp_all add: limited_def)

lemma attempts_end: "attempts env spec opts dry_run (Some secs) k n e \<noteq> None"
proof (induction n arbitrary: k e)
  case (Suc n)
  obtain r where "attempt_result env spec opts dry_run (Some secs) k = Some r"
    using limited_ends by blast
  with Suc.IH show ?case by (cases r) (simp_all add: Let_def)
qed simp

lemma attempts_delays:
  "attempts env spec opts dry_run limit k n e = Some (r, ds) \<Longrightarrow> n > 0 \<Longrightarrow> length ds < n"
proof (induction n arbitrary: k e r ds)
  case (Suc n)
  show ?case
  proof (cases "n = 0")
    case True
    with Suc.prems show ?thesis by (auto split: option.splits outcome.splits)
  next
    case False
    with Suc.prems Suc.IH show ?thesis
      by (auto simp: Let_def split: option.splits outcome.splits) fastforce+
  qed
qed simp

lemma attempts_succeed_iff:
  "(\<exists>ds. attempts env spec opts dry_run limit k n e = Some (Succeeded, ds)) \<longleftrightarrow>
     (\<exists>j < n. attempt_result env spec opts dry_run limit (k + j) = Some (Returned ()) \<and>
        (\<forall>i < j. \<exists>e. attempt_result env spec opts dry_run limit (k + i) = Some (Failed e)))"
proof (induction n arbitrary: k e)
  case (Suc n)
  let ?R = "attempt_result env spec opts dry_run limit"
  have split: "(\<exists>j < Suc n. P j \<and> (\<forall>i < j. Q i)) \<longleftrightarrow> P 0 \<or> Q 0 \<and> (\<exists>j < n. P (Suc j) \<and> (\<forall>i < j. Q (Suc i)))"
    for P Q :: "nat \<Rightarrow> bool"
    by (auto simp: Ex_less_Suc2 All_less_Suc2)
  show ?case
  proof (cases "\<exists>e. ?R k = Some (Failed e)")
    case True
    then obtain e' where f: "?R k = Some (Failed e')" by blast
    have "(\<exists>ds. attempts env spec opts dry_run limit k (Suc n) e = Some (Succeeded, ds)) \<longleftrightarrow>
        (\<exists>ds. attempts env spec opts dry_run limit (Suc k) n (Some e') = Some (Succeeded, ds))"
      by (auto simp: f Let_def)
    with Suc.IH [of "Suc k" "Some e'"] f show ?thesis by (subst split) simp
  next
    case False
    then show ?thesis
      by (subst split) (auto split: option.splits outcome.splits)
  qed
qed simp

lemma attempt_count_pos: "unat (attempt_count spec opts) > 0"
  by (simp add: attempt_count_def unat_saturating_add)

section \<open>Facts about the schedule\<close>

definition batch_ok :: "(nat \<Rightarrow> batch_item_result) \<Rightarrow> nat \<Rightarrow> nat \<Rightarrow> batch_state \<Rightarrow> bool" where
  "batch_ok run m n s \<longleftrightarrow>
     (\<exists>ds. arrived s = map run ds \<and>
        mset ds + mset (in_flight s) + mset (waiting s) = mset [0 ..< n]) \<and>
     length (in_flight s) \<le> m \<and> (waiting s \<noteq> [] \<longrightarrow> length (in_flight s) = m)"

lemma batch_ok_start: "batch_ok run (unat (max mj 1)) n (batch_start mj n)"
proof -
  let ?m = "unat (max mj 1)"
  have "mset (take ?m [0 ..< n]) + mset (drop ?m [0 ..< n]) = mset [0 ..< n]"
    by (metis append_take_drop_id mset_append)
  then show ?thesis by (auto simp: batch_ok_def batch_start_def Let_def)
qed

lemma batch_ok_step:
  assumes "batch_step run s t" and "batch_ok run m n s"
  shows "batch_ok run m n t"
  using assms(1)
proof (rule batch_stepE)
  fix as i bs
  assume f: "in_flight s = as @ i # bs"
    and t: "t = \<lparr>waiting = tl (waiting s), in_flight = as @ bs @ next_started (waiting s),
      arrived = arrived s @ [run i]\<rparr>"
  from assms(2) obtain ds where ds: "arrived s = map run ds"
    "mset ds + mset (in_flight s) + mset (waiting s) = mset [0 ..< n]"
    unfolding batch_ok_def by blast
  have "arrived t = map run (ds @ [i])" by (simp add: t ds)
  moreover have "mset (ds @ [i]) + mset (in_flight t) + mset (waiting t) = mset [0 ..< n]"
    using ds(2) by (cases "waiting s") (simp_all add: t f next_started_def)
  moreover have "length (in_flight t) \<le> m \<and> (waiting t \<noteq> [] \<longrightarrow> length (in_flight t) = m)"
    using assms(2) by (cases "waiting s") (auto simp: t f next_started_def batch_ok_def)
  ultimately show ?thesis unfolding batch_ok_def by blast
qed

lemma batch_ok_reached:
  "(batch_step run)\<^sup>*\<^sup>* (batch_start mj n) s \<Longrightarrow> batch_ok run (unat (max mj 1)) n s"
  by (induction rule: rtranclp_induct) (blast intro: batch_ok_start batch_ok_step)+

lemma one_job: "unat (max mj 1 :: usize) > 0"
  by (simp add: max_def word_le_nat_alt) 

lemma batch_ended:
  assumes "batch_ok run m n s" and "m > 0" and "in_flight s = []"
    and "\<And>i. i < n \<Longrightarrow> item_index (run i) = i"
  shows "sort_key item_index (arrived s) = map run [0 ..< n]"
proof -
  from assms(1-3) obtain ds where ds: "arrived s = map run ds" "mset ds = mset [0 ..< n]"
    unfolding batch_ok_def by auto
  have s: "set ds = {0 ..< n}" using ds(2) by (metis set_mset_mset set_upt)
  have "mset (map run ds) = mset (map run [0 ..< n])" using ds(2) by (simp only: mset_map)
  moreover have "inj_on item_index (set (map run ds))" using assms(4) s by (auto intro!: inj_onI)
  moreover have "map item_index (map run [0 ..< n]) = [0 ..< n]"
    unfolding map_map by (rule map_idI) (use assms(4) in simp)
  then have "sorted (map item_index (map run [0 ..< n]))" by simp
  ultimately show ?thesis unfolding ds(1) by (rule sort_key_inj_key_eq)
qed

lemma batch_steps_count:
  "(batch_step run ^^ k) (batch_start mj n) s \<Longrightarrow>
     k + length (in_flight s) + length (waiting s) = n"
proof (induction k arbitrary: s)
  case 0
  then show ?case by (auto simp: batch_start_def Let_def)
next
  case (Suc k)
  then obtain t where "(batch_step run ^^ k) (batch_start mj n) t" "batch_step run t s" by auto
  with Suc.IH [of t] show ?case
    by (auto elim!: batch_stepE simp: next_started_def split: list.splits)
qed

text \<open>The loop follows the step relation, and as much fuel as there are entries is enough.\<close>

lemma entries_loop_steps:
  assumes "\<forall>i \<in> set (in_flight s) \<union> set (waiting s). run i = Some (Returned (f i))"
    and "length (in_flight s) + length (waiting s) \<le> k" and "waiting s \<noteq> [] \<longrightarrow> in_flight s \<noteq> []"
  shows "\<exists>t. entries_loop run pick k s = Some (Returned t) \<and> (batch_step f)\<^sup>*\<^sup>* s t \<and> in_flight t = []"
  using assms
proof (induction k arbitrary: s)
  case (Suc k)
  show ?case
  proof (cases "in_flight s = []")
    case False
    define i where "i = in_flight s ! (pick k mod length (in_flight s))"
    have live: "filter (\<lambda>i. run i \<noteq> None) (in_flight s) = in_flight s"
      using Suc.prems(1) by (auto intro!: filter_True)
    have i: "i \<in> set (in_flight s)" using False by (simp add: i_def)
    then obtain as bs where f: "in_flight s = as @ i # bs" "i \<notin> set as" by (meson split_list_first)
    define t where "t = \<lparr>waiting = tl (waiting s), in_flight = as @ bs @ next_started (waiting s),
      arrived = arrived s @ [f i]\<rparr>"
    have "batch_step f s t" unfolding t_def by (rule batch_step.finish [OF f(1)])
    moreover have "\<exists>u. entries_loop run pick k t = Some (Returned u) \<and> (batch_step f)\<^sup>*\<^sup>* t u \<and> in_flight u = []"
      using Suc.prems f by (intro Suc.IH) (cases "waiting s"; auto simp: t_def next_started_def)+
    moreover have "entries_loop run pick (Suc k) s = entries_loop run pick k t"
    proof -
      have "run i = Some (Returned (f i))" using Suc.prems(1) i by blast
      moreover have "remove1 i (in_flight s) = as @ bs" using f by (simp add: remove1_append)
      ultimately show ?thesis using False by (simp add: live Let_def t_def del: not_None_eq flip: i_def)
    qed
    ultimately show ?thesis by (metis converse_rtranclp_into_rtranclp)
  qed simp
qed auto

end
