(* ===== verification/Modes.thy ===== *)
theory Modes
  imports Batch
begin

text \<open>
  The command line without the client and HA parts (\<open>src/src/main.rs\<close>): which mode a set of
  arguments selects, a single synchronisation, batch mode, and the two server modes that an SSH
  peer starts. Parsing the arguments is clap's; the HA mode is in \<open>Ha_Loop\<close>. Messages to the
  terminal and log lines are left out.

  Shown: the arguments of batch mode that are refused, and that a process succeeds in batch mode
  exactly when every entry does.
\<close>

record cli_args =
  arg_client_command :: bool
  arg_origin :: "string option"
  arg_replica :: "string option"
  arg_dry_run :: bool
  arg_grpc_auth_token :: "string option"
  arg_batch_manifest :: "string option"
  arg_batch_format :: manifest_format
  arg_batch_jobs :: usize
  arg_batch_retries :: u32
  arg_batch_timeout_secs :: u64
  arg_batch_retry_backoff_ms :: u64
  arg_batch_retry_backoff_max_ms :: u64
  arg_batch_retry_jitter_pct :: u8
  arg_server :: bool
  arg_server_origin :: bool
  arg_server_replica :: bool
  arg_ha :: bool
  arg_ha_grpc_auth_token :: "string option"

section \<open>Server modes\<close>

text \<open>The transport is standard input and output: answers to the sends, and what arrives.\<close>

definition server_origin_mode ::
  "attempt_env \<Rightarrow> sync_tuning \<Rightarrow> string \<Rightarrow> sync_error option list \<Rightarrow> message res list \<Rightarrow>
     unit outcome option" where
  "server_origin_mode A t origin_path outs ins =
     (case open_connection (ae_open A origin_path) SQLITE_OPEN_READONLY of
        Inl e \<Rightarrow> Some (Failed e)
      | Inr conn \<Rightarrow>
          (case snapshot_begin conn of
             Inl e \<Rightarrow> Some (Failed e)
           | Inr snap \<Rightarrow>
               map_option (\<lambda>r. finish r (Inr ()) (snapshot_commit snap))
                 (snd (drive_io (origin_run_with_tuning (ae_extern A) t snap) outs ins))))"

definition server_replica_mode ::
  "attempt_env \<Rightarrow> sync_tuning \<Rightarrow> string \<Rightarrow> sync_error option list \<Rightarrow> message res list \<Rightarrow>
     unit outcome option" where
  "server_replica_mode A t replica_path outs ins =
     (case open_connection (ae_open A replica_path) (SQLITE_OPEN_READWRITE + SQLITE_OPEN_CREATE) of
        Inl e \<Rightarrow> Some (Failed e)
      | Inr conn \<Rightarrow>
          map_option snd (snd (drive_io (replica_run_with_tuning (ae_extern A) t conn) outs ins)))"

section \<open>One synchronisation\<close>

text \<open>The dry run of \<open>main.rs\<close> also counts the origin's pages, for its message.\<close>

definition main_dry_run_local :: "attempt_env \<Rightarrow> string \<Rightarrow> string \<Rightarrow> unit res" where
  "main_dry_run_local A origin replica =
     (case dry_run_local A origin replica of
        Inl e \<Rightarrow> Inl e
      | Inr _ \<Rightarrow>
          (case open_connection (ae_open A origin) SQLITE_OPEN_READONLY of
             Inl e \<Rightarrow> Inl e
           | Inr conn \<Rightarrow> (case page_count conn of Inl e \<Rightarrow> Inl e | Inr _ \<Rightarrow> Inr ())))"

definition run_sync ::
  "attempt_env \<Rightarrow> sync_tuning \<Rightarrow> cli_args \<Rightarrow> string \<Rightarrow> string \<Rightarrow> unit outcome option" where
  "run_sync A t args origin replica =
     (let dry = arg_dry_run args;
          tok = (case arg_grpc_auth_token args of
                   Some k \<Rightarrow> Some k | None \<Rightarrow> arg_ha_grpc_auth_token args);
          origin_ep = parse_endpoint origin; replica_ep = parse_endpoint replica
      in if is_remote origin_ep \<and> is_remote replica_ep then
           Some (Failed (Protocol ''at least one of ORIGIN or REPLICA must be local''))
         else
           (case (origin_ep, replica_ep) of
              (Local o1, Local r) \<Rightarrow>
                Some (if \<not> dry then snd (sync_local_with_tuning (ae_extern A) (ae_open A o1) (ae_open A r) t)
                      else to_outcome (main_dry_run_local A o1 r))
            | (Local o1, Remote user_host path) \<Rightarrow>
                if dry then Some (Returned ())
                else push_sync_with_tuning (ae_extern A) (ae_open A o1) (ae_ssh A user_host path) t
            | (Remote user_host path, Local r) \<Rightarrow>
                if dry then Some (Returned ())
                else map_option snd
                       (pull_sync_with_tuning (ae_extern A) (ae_open A r) (ae_ssh A user_host path) t)
            | (Local o1, Grpc url database) \<Rightarrow>
                if dry then Some (Returned ()) else grpc_push_attempt A t tok o1 url database
            | (Grpc url database, Local r) \<Rightarrow>
                if dry then Some (Returned ()) else grpc_pull_attempt A t tok r url database
            | _ \<Rightarrow> Some Panicked))"

section \<open>Batch mode\<close>

definition check_batch_args :: "cli_args \<Rightarrow> string res" where
  "check_batch_args args =
     (if arg_ha args then Inl (Protocol ''--batch-manifest cannot be used with --ha'')
      else if arg_server args \<or> arg_server_origin args \<or> arg_server_replica args then
        Inl (Protocol ''--batch-manifest cannot be used with --server flags'')
      else if arg_origin args \<noteq> None \<or> arg_replica args \<noteq> None then
        Inl (Protocol ''batch mode does not accept ORIGIN/REPLICA positional arguments'')
      else if arg_batch_jobs args = 0 then
        Inl (Protocol ''--batch-jobs must be greater than 0'')
      else if arg_batch_retry_jitter_pct args > 100 then
        Inl (Protocol ''--batch-retry-jitter-pct must be between 0 and 100'')
      else if arg_batch_retry_backoff_max_ms args > 0 \<and> arg_batch_retry_backoff_ms args > 0 \<and>
              arg_batch_retry_backoff_max_ms args < arg_batch_retry_backoff_ms args then
        Inl (Protocol ''--batch-retry-backoff-max-ms must be >= --batch-retry-backoff-ms'')
      else
        (case arg_batch_manifest args of
           None \<Rightarrow> Inl (Protocol ''--batch-manifest is required in batch mode'')
         | Some path \<Rightarrow> Inr path))"

definition batch_options_of :: "cli_args \<Rightarrow> sync_tuning \<Rightarrow> batch_options" where
  "batch_options_of args t =
     \<lparr>jobs = arg_batch_jobs args, default_dry_run = arg_dry_run args,
      default_retries = arg_batch_retries args,
      default_timeout_secs =
        (if arg_batch_timeout_secs args > 0 then Some (arg_batch_timeout_secs args) else None),
      backoff_base_ms =
        (if arg_batch_retry_backoff_ms args > 0 then Some (arg_batch_retry_backoff_ms args) else None),
      backoff_max_ms =
        (if arg_batch_retry_backoff_max_ms args > 0
         then Some (arg_batch_retry_backoff_max_ms args) else None),
      jitter_pct = arg_batch_retry_jitter_pct args, options_tuning = t,
      options_auth_token = arg_grpc_auth_token args\<rparr>"

definition run_batch_mode ::
  "manifest_parsers \<Rightarrow> (string \<Rightarrow> string + string) \<Rightarrow> sync_tuning \<Rightarrow>
     (nat \<Rightarrow> nat \<Rightarrow> attempt_env) \<Rightarrow> (nat \<Rightarrow> nat) \<Rightarrow> cli_args \<Rightarrow> unit outcome option" where
  "run_batch_mode M read t env pick args =
     (case check_batch_args args of
        Inl e \<Rightarrow> Some (Failed e)
      | Inr path \<Rightarrow>
          (case load_manifest M path (arg_batch_format args) (read path) of
             Inl e \<Rightarrow> Some (Failed e)
           | Inr specs \<Rightarrow>
               (case run_batch_sync env pick specs (batch_options_of args t) of
                  None \<Rightarrow> None
                | Some Panicked \<Rightarrow> Some Panicked
                | Some (Failed e) \<Rightarrow> Some (Failed e)
                | Some (Returned done_report) \<Rightarrow>
                    if any_failed done_report then
                      Some (Failed (Protocol (''batch sync completed with '' @
                        show_nat (report_failed done_report) @ '' failed entries'')))
                    else Some (Returned ()))))"

section \<open>Choosing the mode\<close>

datatype run_mode =
    Mode_Client
  | Mode_Batch
  | Mode_Ha
  | Mode_Server_Replica string
  | Mode_Server_Origin string
  | Mode_Sync string string

definition choose_mode :: "cli_args \<Rightarrow> run_mode res" where
  "choose_mode args =
     (if arg_client_command args then Inr Mode_Client
      else if arg_batch_manifest args \<noteq> None then Inr Mode_Batch
      else if arg_ha args then Inr Mode_Ha
      else
        (case arg_origin args of
           None \<Rightarrow>
             Inl (Protocol ''ORIGIN is required unless --ha or a client subcommand is set'')
         | Some origin \<Rightarrow>
             if arg_server_replica args then Inr (Mode_Server_Replica origin)
             else if arg_server args \<or> arg_server_origin args then Inr (Mode_Server_Origin origin)
             else
               (case arg_replica args of
                  None \<Rightarrow> Inl (Protocol ''REPLICA is required unless --server is set'')
                | Some replica \<Rightarrow> Inr (Mode_Sync origin replica))))"

text \<open>The status of the process: 0 for success, 1 after an error, 101 after a panic.\<close>

definition exit_code :: "unit outcome \<Rightarrow> nat" where
  "exit_code r = (case r of Returned _ \<Rightarrow> 0 | Failed _ \<Rightarrow> 1 | Panicked \<Rightarrow> 101)"

section \<open>Facts\<close>

lemma report_failed_iff: "any_failed (batch_report items) \<longleftrightarrow> (\<exists>r \<in> set items. \<not> item_success r)"
proof -
  let ?s = "sort_key item_index items"
  have "length (filter item_success ?s) < length ?s \<longleftrightarrow> (\<exists>r \<in> set items. \<not> item_success r)"
    using length_filter_less [of _ ?s item_success] filter_True [of ?s item_success] by fastforce
  then show ?thesis by (simp add: any_failed_def batch_report_def Let_def)
qed

lemma one_side_is_local:
  "\<not> (is_remote a \<and> is_remote b) \<Longrightarrow>
     (\<exists>o1 r. a = Local o1 \<and> b = Local r) \<or> (\<exists>o1 h p. a = Local o1 \<and> b = Remote h p) \<or>
     (\<exists>h p r. a = Remote h p \<and> b = Local r) \<or> (\<exists>o1 u d. a = Local o1 \<and> b = Grpc u d) \<or>
     (\<exists>u d r. a = Grpc u d \<and> b = Local r)"
  by (cases a; cases b) auto

end
