(* ===== verification/Client.thy ===== *)
theory Client
  imports Gateway_Server
begin

text \<open>
  The gateway client (\<open>src/crates/rsqlite-rsync-client/src\<close>: \<open>config.rs\<close>, \<open>error.rs\<close>,
  \<open>discovery.rs\<close>, \<open>client.rs\<close>) and the conversion of its errors (\<open>src/src/error.rs\<close>). What stands
  on it is in \<open>Unified_Client\<close>.

  The network is a state \<open>'w\<close> that every call passes on: \<open>client_env\<close> has what tonic does of it.
  A channel is the endpoint it was connected to. A call is a function of the channel and of the
  authorization header.

  Every call ends within the allowed attempts, as the termination of \<open>retry_from\<close> shows. What the
  retries mean for a network of gateways is in \<open>Client_Gateway\<close> and \<open>Client_Properties\<close>.
\<close>

section \<open>Configuration and errors\<close>

datatype 'w discovery_mode =
    Direct string
  | Candidates "string list"
  | Custom "'w \<Rightarrow> 'w \<times> (string + string)"

record 'w client_config =
  discovery :: "'w discovery_mode"
  max_retries :: usize
  initial_backoff_ms :: u64
  max_backoff_ms :: u64
  timeout_secs :: u64
  auth_token :: "string option"

definition default_config :: "'w client_config" where
  "default_config =
     \<lparr>discovery = Direct ''http://127.0.0.1:50051'', max_retries = 5, initial_backoff_ms = 100,
      max_backoff_ms = 2000, timeout_secs = 15, auth_token = None\<rparr>"

definition config_new :: "'w discovery_mode \<Rightarrow> 'w client_config" where
  "config_new mode = default_config\<lparr>discovery := mode\<rparr>"

text \<open>The builders; a duration is its number of milliseconds, of which \<open>as u64\<close> keeps 64 bits.\<close>

definition with_max_retries :: "usize \<Rightarrow> 'w client_config \<Rightarrow> 'w client_config" where
  "with_max_retries n cfg = cfg\<lparr>max_retries := n\<rparr>"

definition with_initial_backoff :: "128 word \<Rightarrow> 'w client_config \<Rightarrow> 'w client_config" where
  "with_initial_backoff ms cfg = cfg\<lparr>initial_backoff_ms := ucast ms\<rparr>"

definition with_max_backoff :: "128 word \<Rightarrow> 'w client_config \<Rightarrow> 'w client_config" where
  "with_max_backoff ms cfg = cfg\<lparr>max_backoff_ms := ucast ms\<rparr>"

definition with_timeout :: "u64 \<Rightarrow> 'w client_config \<Rightarrow> 'w client_config" where
  "with_timeout secs cfg = cfg\<lparr>timeout_secs := secs\<rparr>"

definition with_auth_token :: "string \<Rightarrow> 'w client_config \<Rightarrow> 'w client_config" where
  "with_auth_token tok cfg = cfg\<lparr>auth_token := Some tok\<rparr>"

datatype runtime_mode = Mode_Cluster | Mode_Local | Mode_Auto

datatype 'w client_target = Target_Remote "'w client_config" | Target_Local string

text \<open>The source of an error is its text; that of exhausted retries is the error itself.\<close>

datatype client_error =
    InvalidEndpoint string string
  | Connect string string
  | Discovery string "string option"
  | Rpc status
  | RetriesExhausted nat client_error

fun debug_code :: "rpc_code \<Rightarrow> string" where
  "debug_code Code_Ok = ''Ok''"
| "debug_code Cancelled = ''Cancelled''"
| "debug_code Unknown = ''Unknown''"
| "debug_code InvalidArgument = ''InvalidArgument''"
| "debug_code DeadlineExceeded = ''DeadlineExceeded''"
| "debug_code NotFound = ''NotFound''"
| "debug_code AlreadyExists = ''AlreadyExists''"
| "debug_code PermissionDenied = ''PermissionDenied''"
| "debug_code ResourceExhausted = ''ResourceExhausted''"
| "debug_code FailedPrecondition = ''FailedPrecondition''"
| "debug_code Aborted = ''Aborted''"
| "debug_code OutOfRange = ''OutOfRange''"
| "debug_code Unimplemented = ''Unimplemented''"
| "debug_code Internal = ''Internal''"
| "debug_code Unavailable = ''Unavailable''"
| "debug_code DataLoss = ''DataLoss''"
| "debug_code Unauthenticated = ''Unauthenticated''"

fun display_client_error :: "client_error \<Rightarrow> string" where
  "display_client_error (InvalidEndpoint ep src) =
     ''invalid endpoint '' @ [CHR 0x27] @ ep @ [CHR 0x27] @ '': '' @ src"
| "display_client_error (Connect ep src) =
     ''failed to connect to '' @ [CHR 0x27] @ ep @ [CHR 0x27] @ '': '' @ src"
| "display_client_error (Discovery m _) = ''leader discovery failed: '' @ m"
| "display_client_error (Rpc st) =
     ''gRPC call failed (code: '' @ debug_code (st_code st) @ ''): '' @ st_message st"
| "display_client_error (RetriesExhausted n e) =
     ''gave up after '' @ show_nat n @ '' attempt(s): '' @ display_client_error e"

fun error_status :: "client_error \<Rightarrow> status option" where
  "error_status (Rpc st) = Some st"
| "error_status (RetriesExhausted _ e) = error_status e"
| "error_status _ = None"

definition error_code :: "client_error \<Rightarrow> rpc_code option" where
  "error_code e = map_option st_code (error_status e)"

definition is_not_leader_status :: "status \<Rightarrow> bool" where
  "is_not_leader_status st \<longleftrightarrow>
     st_code st = FailedPrecondition \<and>
     (case st_metadata st HEADER_RSQLITE_CODE of Some v \<Rightarrow> v = CODE_NOT_LEADER | None \<Rightarrow> False)"

definition is_not_leader :: "client_error \<Rightarrow> bool" where
  "is_not_leader e \<longleftrightarrow>
     (case error_status e of Some st \<Rightarrow> is_not_leader_status st | None \<Rightarrow> False)"

definition transient :: "rpc_code \<Rightarrow> bool" where
  "transient c \<longleftrightarrow> (case c of Unavailable \<Rightarrow> True | DeadlineExceeded \<Rightarrow> True | _ \<Rightarrow> False)"

definition is_retryable :: "client_error \<Rightarrow> bool" where
  "is_retryable e \<longleftrightarrow>
     is_not_leader e \<or> (case error_code e of Some c \<Rightarrow> transient c | None \<Rightarrow> False)"

text \<open>The conversion into the error of the main crate.\<close>

definition sync_error_of :: "client_error \<Rightarrow> sync_error" where
  "sync_error_of e =
     (case e of
        Connect _ _ \<Rightarrow> Network (display_client_error e)
      | RetriesExhausted _ (Connect _ _) \<Rightarrow> Network (display_client_error e)
      | _ \<Rightarrow> Protocol (display_client_error e))"

section \<open>Discovery\<close>

record 'w client_env =
  uri_error :: "string \<Rightarrow> string option"
  dial :: "string \<Rightarrow> 'w \<Rightarrow> 'w \<times> string option"
  status_call :: "string \<Rightarrow> string option \<Rightarrow> 'w \<Rightarrow> 'w \<times> (status + cluster_status)"
  metadata_value :: "string \<Rightarrow> bool"
  readable :: "string \<Rightarrow> bool"
  pause :: "u64 \<Rightarrow> 'w \<Rightarrow> 'w"

text \<open>The authorization header of a request, when the token makes a header value.\<close>

definition authorized_request :: "'w client_env \<Rightarrow> string option \<Rightarrow> string option" where
  "authorized_request E tok =
     (case tok of
        Some k \<Rightarrow>
          (let v = ''Bearer '' @ k in if metadata_value E v then Some v else None)
      | None \<Rightarrow> None)"

definition normalize_endpoint :: "string \<Rightarrow> string" where
  "normalize_endpoint ep =
     (let trimmed = trim ep in
      if starts_with ''http://'' trimmed \<or> starts_with ''https://'' trimmed then trimmed
      else ''http://'' @ trimmed)"

fun probe_candidates ::
  "'w client_env \<Rightarrow> string option \<Rightarrow> string list \<Rightarrow> 'w \<Rightarrow> 'w \<times> string option" where
  "probe_candidates E tok [] w = (w, None)"
| "probe_candidates E tok (candidate # rest) w =
     (let norm = normalize_endpoint candidate in
      if uri_error E norm \<noteq> None then probe_candidates E tok rest w
      else
        (case dial E norm w of
           (w1, Some _) \<Rightarrow> probe_candidates E tok rest w1
         | (w1, None) \<Rightarrow>
             (case status_call E norm (authorized_request E tok) w1 of
                (w2, Inr st) \<Rightarrow>
                  if cs_role st = Writer then (w2, Some norm) else probe_candidates E tok rest w2
              | (w2, Inl _) \<Rightarrow> probe_candidates E tok rest w2)))"

definition discover_leader ::
  "'w client_env \<Rightarrow> 'w discovery_mode \<Rightarrow> string option \<Rightarrow> 'w \<Rightarrow> 'w \<times> (client_error + string)" where
  "discover_leader E mode tok w =
     (case mode of
        Direct ep \<Rightarrow> (w, Inr (normalize_endpoint ep))
      | Candidates candidates \<Rightarrow>
          (case probe_candidates E tok candidates w of
             (w1, Some norm) \<Rightarrow> (w1, Inr norm)
           | (w1, None) \<Rightarrow>
               (w1,
                case find (\<lambda>norm. uri_error E norm = None) (map normalize_endpoint candidates) of
                  Some norm \<Rightarrow> Inr norm
                | None \<Rightarrow>
                    Inl (Discovery ''no syntactically valid candidates configured for discovery'' None)))
      | Custom resolve \<Rightarrow>
          (case resolve w of
             (w1, Inr ep) \<Rightarrow> (w1, Inr (normalize_endpoint ep))
           | (w1, Inl src) \<Rightarrow> (w1, Inl (Discovery ''custom resolver failed'' (Some src)))))"

section \<open>The client\<close>

record 'w gateway_client =
  config :: "'w client_config"
  current_endpoint :: "string option"
  tonic_client :: "string option"

definition client_new :: "'w client_config \<Rightarrow> 'w gateway_client" where
  "client_new cfg = \<lparr>config = cfg, current_endpoint = None, tonic_client = None\<rparr>"

definition reset_connection :: "'w gateway_client \<Rightarrow> 'w gateway_client" where
  "reset_connection c = c\<lparr>tonic_client := None, current_endpoint := None\<rparr>"

definition get_or_connect ::
  "'w client_env \<Rightarrow> 'w gateway_client \<Rightarrow> 'w \<Rightarrow> 'w \<times> 'w gateway_client \<times> (client_error + string)" where
  "get_or_connect E c w =
     (case tonic_client c of
        Some channel \<Rightarrow> (w, c, Inr channel)
      | None \<Rightarrow>
          (case (case current_endpoint c of
                   Some ep \<Rightarrow> (w, Inr ep)
                 | None \<Rightarrow> discover_leader E (discovery (config c)) (auth_token (config c)) w) of
             (w1, Inl e) \<Rightarrow> (w1, c, Inl e)
           | (w1, Inr ep) \<Rightarrow>
               (case uri_error E ep of
                  Some src \<Rightarrow> (w1, c, Inl (InvalidEndpoint ep src))
                | None \<Rightarrow>
                    (case dial E ep w1 of
                       (w2, Some src) \<Rightarrow> (w2, c, Inl (Connect ep src))
                     | (w2, None) \<Rightarrow>
                         (w2, c\<lparr>current_endpoint := Some ep, tonic_client := Some ep\<rparr>, Inr ep)))))"

definition next_backoff :: "u64 \<Rightarrow> u64 \<Rightarrow> u64" where
  "next_backoff current_ms max_ms = min (saturating_mul current_ms 2) max_ms"

definition process_leader_header ::
  "'w client_env \<Rightarrow> status \<Rightarrow> 'w gateway_client \<Rightarrow> 'w gateway_client" where
  "process_leader_header E st c =
     (case st_metadata st HEADER_RSQLITE_LEADER_ENDPOINT of
        Some ep \<Rightarrow>
          if readable E ep \<and> ep \<noteq> [] then
            c\<lparr>current_endpoint := Some (normalize_endpoint ep), tonic_client := None\<rparr>
          else reset_connection c
      | None \<Rightarrow> reset_connection c)"

lemma get_or_connect_config: "get_or_connect E c w = (w1, c1, r) \<Longrightarrow> config c1 = config c"
  by (auto simp: get_or_connect_def split: option.splits prod.splits sum.splits)

lemma client_config_kept [simp]:
  "config (reset_connection c) = config c" "config (process_leader_header E st c) = config c"
  by (simp_all add: reset_connection_def process_leader_header_def split: option.split)

type_synonym ('w, 'a) rpc = "string \<Rightarrow> string option \<Rightarrow> 'w \<Rightarrow> 'w \<times> (status + 'a)"

type_synonym ('w, 'a) call_result = "'w \<times> 'w gateway_client \<times> (client_error + 'a)"

text \<open>The loop of \<open>retry_loop\<close>, entered with the number of attempts made so far.\<close>

function retry_from ::
  "'w client_env \<Rightarrow> bool \<Rightarrow> ('w, 'a) rpc \<Rightarrow> nat \<Rightarrow> u64 \<Rightarrow> 'w gateway_client \<Rightarrow> 'w \<Rightarrow>
     ('w, 'a) call_result" where
  "retry_from E idempotent rpc made backoff_ms c w =
     (let attempts = Suc made; limit = unat (max_retries (config c));
          backoff' = next_backoff backoff_ms (max_backoff_ms (config c))
      in case get_or_connect E c w of
           (w1, c1, Inl e) \<Rightarrow>
             (case e of
                InvalidEndpoint _ _ \<Rightarrow> (w1, c1, Inl e)
              | _ \<Rightarrow>
                  if attempts \<ge> limit then (w1, c1, Inl (RetriesExhausted attempts e))
                  else retry_from E idempotent rpc attempts backoff' (reset_connection c1)
                         (pause E backoff_ms w1))
         | (w1, c1, Inr channel) \<Rightarrow>
             (case rpc channel (authorized_request E (auth_token (config c))) w1 of
                (w2, Inr res) \<Rightarrow> (w2, c1, Inr res)
              | (w2, Inl st) \<Rightarrow>
                  if \<not> (is_not_leader_status st \<or> idempotent \<and> transient (st_code st)) then
                    (w2, c1, Inl (Rpc st))
                  else if attempts \<ge> limit then
                    (w2, c1, Inl (RetriesExhausted attempts (Rpc st)))
                  else retry_from E idempotent rpc attempts backoff' (process_leader_header E st c1)
                         (pause E backoff_ms w2)))"
  by pat_completeness auto
termination
  by (relation "measure (\<lambda>(_, _, _, made, _, c, _). unat (max_retries (config c)) - made)")
     (auto dest!: sym [of _ "get_or_connect _ _ _"] get_or_connect_config)

declare retry_from.simps [simp del]

definition retry_loop ::
  "'w client_env \<Rightarrow> bool \<Rightarrow> ('w, 'a) rpc \<Rightarrow> 'w gateway_client \<Rightarrow> 'w \<Rightarrow> ('w, 'a) call_result" where
  "retry_loop E idempotent rpc c w =
     retry_from E idempotent rpc 0 (initial_backoff_ms (config c)) c w"

section \<open>The calls\<close>

text \<open>The generated stub. A stream of chunks is what arrives on it.\<close>

record 'w gateway_stub =
  execute_rpc :: "execute_request \<Rightarrow> ('w, execute_response) rpc"
  query_rpc :: "query_request \<Rightarrow> ('w, query_response) rpc"
  stream_query_rpc :: "query_request \<Rightarrow> ('w, (status + query_chunk) list) rpc"
  batch_rpc :: "batch_request \<Rightarrow> ('w, batch_response) rpc"
  drop_database_rpc :: "string \<Rightarrow> ('w, drop_response) rpc"

definition consistency_int :: "consistency_level \<Rightarrow> int" where
  "consistency_int l = (case l of Strong \<Rightarrow> 0 | Eventual \<Rightarrow> 1)"

definition tx_mode_int :: "batch_transaction_mode \<Rightarrow> int" where
  "tx_mode_int m =
     (case m of Tx_None \<Rightarrow> 0 | Tx_Deferred \<Rightarrow> 1 | Tx_Immediate \<Rightarrow> 2 | Tx_Exclusive \<Rightarrow> 3)"

definition client_execute ::
  "'w client_env \<Rightarrow> 'w gateway_stub \<Rightarrow> string \<Rightarrow> string \<Rightarrow> parameters option \<Rightarrow>
     'w gateway_client \<Rightarrow> 'w \<Rightarrow> ('w, execute_response) call_result" where
  "client_execute E S database sql parameters c w =
     retry_loop E False
       (execute_rpc S \<lparr>er_database = database,
          er_statement = Some \<lparr>st_sql = sql, st_parameters = parameters\<rparr>\<rparr>) c w"

definition client_query ::
  "'w client_env \<Rightarrow> 'w gateway_stub \<Rightarrow> string \<Rightarrow> string \<Rightarrow> parameters option \<Rightarrow> u32 \<Rightarrow>
     consistency_level \<Rightarrow> 'w gateway_client \<Rightarrow> 'w \<Rightarrow> ('w, query_response) call_result" where
  "client_query E S database sql parameters max_rows consistency c w =
     retry_loop E True
       (query_rpc S \<lparr>rq_database = database,
          rq_statement = Some \<lparr>st_sql = sql, st_parameters = parameters\<rparr>,
          rq_consistency = consistency_int consistency, rq_max_rows = max_rows, rq_chunk_size = 0\<rparr>) c w"

definition client_stream_query ::
  "'w client_env \<Rightarrow> 'w gateway_stub \<Rightarrow> string \<Rightarrow> string \<Rightarrow> parameters option \<Rightarrow> u32 \<Rightarrow> u32 \<Rightarrow>
     consistency_level \<Rightarrow> 'w gateway_client \<Rightarrow> 'w \<Rightarrow> ('w, (status + query_chunk) list) call_result" where
  "client_stream_query E S database sql parameters max_rows chunk consistency c w =
     retry_loop E True
       (stream_query_rpc S \<lparr>rq_database = database,
          rq_statement = Some \<lparr>st_sql = sql, st_parameters = parameters\<rparr>,
          rq_consistency = consistency_int consistency, rq_max_rows = max_rows,
          rq_chunk_size = chunk\<rparr>) c w"

definition client_batch ::
  "'w client_env \<Rightarrow> 'w gateway_stub \<Rightarrow> string \<Rightarrow> statement list \<Rightarrow> batch_transaction_mode \<Rightarrow> bool \<Rightarrow>
     'w gateway_client \<Rightarrow> 'w \<Rightarrow> ('w, batch_response) call_result" where
  "client_batch E S database statements tx_mode stop_on_error c w =
     retry_loop E False
       (batch_rpc S \<lparr>ba_database = database, ba_statements = statements,
          ba_transaction_mode = tx_mode_int tx_mode, ba_stop_on_error = stop_on_error\<rparr>) c w"

definition client_drop_database ::
  "'w client_env \<Rightarrow> 'w gateway_stub \<Rightarrow> string \<Rightarrow> 'w gateway_client \<Rightarrow> 'w \<Rightarrow>
     ('w, drop_response) call_result" where
  "client_drop_database E S database c w = retry_loop E True (drop_database_rpc S database) c w"

definition client_cluster_status ::
  "'w client_env \<Rightarrow> 'w gateway_client \<Rightarrow> 'w \<Rightarrow> ('w, cluster_status) call_result" where
  "client_cluster_status E c w = retry_loop E True (status_call E) c w"

section \<open>Facts\<close>

lemma sent_enums_arrive:
  "consistency_of (consistency_int l) = l" "tx_mode_of (tx_mode_int m) = m"
  by (cases l; simp add: consistency_of_def consistency_int_def)
     (cases m; simp add: tx_mode_of_def tx_mode_int_def)

lemma connected:
  "tonic_client c = Some ch \<Longrightarrow> get_or_connect E c w = (w, c, Inr ch)"
  by (simp add: get_or_connect_def)

lemma dialled:
  assumes "tonic_client c = None" and "current_endpoint c = Some ep" and "uri_error E ep = None"
    and "dial E ep w = (w1, None)"
  shows "get_or_connect E c w = (w1, c\<lparr>tonic_client := Some ep\<rparr>, Inr ep)"
  using assms by (simp add: get_or_connect_def)

lemma not_leader_recognised:
  assumes "header_value G CODE_NOT_LEADER"
  shows "is_not_leader_status (not_leader_status G state)"
  using assms
  by (simp add: is_not_leader_status_def not_leader_status_def insert_header_def header_defs
      split: option.split)

lemma not_leader_endpoint:
  assumes "active_leader_endpoint state = Some ep" and "header_value G ep"
  shows "st_metadata (not_leader_status G state) HEADER_RSQLITE_LEADER_ENDPOINT = Some ep"
  using assms by (simp add: not_leader_status_def insert_header_def)

text \<open>A candidate that is found answered as the writer, and none before it did.\<close>

lemma probe_finds_writer:
  "probe_candidates E tok cs w = (w', Some ep) \<Longrightarrow>
     \<exists>c \<in> set cs. ep = normalize_endpoint c \<and>
       (\<exists>w1 w2 st. status_call E ep (authorized_request E tok) w1 = (w2, Inr st) \<and> cs_role st = Writer)"
proof (induction cs arbitrary: w)
  case (Cons c cs)
  let ?n = "normalize_endpoint c" and ?a = "authorized_request E tok"
  have "(\<exists>w1. probe_candidates E tok cs w1 = (w', Some ep)) \<or>
      (\<exists>w1 w2 st. status_call E ?n ?a w1 = (w2, Inr st) \<and> cs_role st = Writer) \<and> ep = ?n"
    using Cons.prems
    by (simp add: Let_def split: if_split_asm prod.split_asm option.split_asm sum.split_asm) blast+
  then show ?case using Cons.IH by (metis list.set_intros)
qed simp

end
