(* ===== verification/Unified_Client.thy ===== *)
theory Unified_Client
  imports Client
begin

text \<open>
  What stands on the client of \<open>Client\<close>: the blocking client
  (\<open>src/crates/rsqlite-rsync-client/src/blocking.rs\<close>), the managers of the pools
  (\<open>src/crates/rsqlite-rsync-pool/src\<close>), and the client that is either remote or an engine in the
  same process (\<open>src/src/gateway/client.rs\<close>).
\<close>

section \<open>Blocking\<close>

text \<open>
  A blocking call inside an asynchronous context panics (\<open>None\<close>); \<open>in_async\<close> is the verdict of
  the probe runtime. Elsewhere it is the call itself.
\<close>

definition block_on :: "bool \<Rightarrow> 'a \<Rightarrow> 'a option" where
  "block_on in_async r = (if in_async then None else Some r)"

definition blocking_new :: "bool \<Rightarrow> 'w client_config \<Rightarrow> 'w gateway_client option" where
  "blocking_new in_async cfg = block_on in_async (client_new cfg)"

definition blocking_discover_leader ::
  "bool \<Rightarrow> 'w client_env \<Rightarrow> 'w gateway_client \<Rightarrow> 'w \<Rightarrow> ('w \<times> (client_error + string)) option" where
  "blocking_discover_leader in_async E c w =
     block_on in_async (discover_leader E (discovery (config c)) (auth_token (config c)) w)"

definition blocking_execute ::
  "bool \<Rightarrow> 'w client_env \<Rightarrow> 'w gateway_stub \<Rightarrow> string \<Rightarrow> string \<Rightarrow> parameters option \<Rightarrow>
     'w gateway_client \<Rightarrow> 'w \<Rightarrow> ('w, execute_response) call_result option" where
  "blocking_execute in_async E S database sql parameters c w =
     block_on in_async (client_execute E S database sql parameters c w)"

definition blocking_query ::
  "bool \<Rightarrow> 'w client_env \<Rightarrow> 'w gateway_stub \<Rightarrow> string \<Rightarrow> string \<Rightarrow> parameters option \<Rightarrow> u32 \<Rightarrow>
     consistency_level \<Rightarrow> 'w gateway_client \<Rightarrow> 'w \<Rightarrow> ('w, query_response) call_result option" where
  "blocking_query in_async E S database sql parameters max_rows consistency c w =
     block_on in_async (client_query E S database sql parameters max_rows consistency c w)"

definition blocking_stream_query ::
  "bool \<Rightarrow> 'w client_env \<Rightarrow> 'w gateway_stub \<Rightarrow> string \<Rightarrow> string \<Rightarrow> parameters option \<Rightarrow> u32 \<Rightarrow> u32 \<Rightarrow>
     consistency_level \<Rightarrow> 'w gateway_client \<Rightarrow> 'w \<Rightarrow>
     ('w, (status + query_chunk) list) call_result option" where
  "blocking_stream_query in_async E S database sql parameters max_rows chunk consistency c w =
     block_on in_async (client_stream_query E S database sql parameters max_rows chunk consistency c w)"

definition blocking_batch ::
  "bool \<Rightarrow> 'w client_env \<Rightarrow> 'w gateway_stub \<Rightarrow> string \<Rightarrow> statement list \<Rightarrow> batch_transaction_mode \<Rightarrow>
     bool \<Rightarrow> 'w gateway_client \<Rightarrow> 'w \<Rightarrow> ('w, batch_response) call_result option" where
  "blocking_batch in_async E S database statements tx_mode stop_on_error c w =
     block_on in_async (client_batch E S database statements tx_mode stop_on_error c w)"

definition blocking_drop_database ::
  "bool \<Rightarrow> 'w client_env \<Rightarrow> 'w gateway_stub \<Rightarrow> string \<Rightarrow> 'w gateway_client \<Rightarrow> 'w \<Rightarrow>
     ('w, drop_response) call_result option" where
  "blocking_drop_database in_async E S database c w =
     block_on in_async (client_drop_database E S database c w)"

definition blocking_cluster_status ::
  "bool \<Rightarrow> 'w client_env \<Rightarrow> 'w gateway_client \<Rightarrow> 'w \<Rightarrow> ('w, cluster_status) call_result option" where
  "blocking_cluster_status in_async E c w = block_on in_async (client_cluster_status E c w)"

text \<open>A stream read by blocking calls: what is left of it, and the next message.\<close>

definition stream_message :: "(status + 'a) list \<Rightarrow> (status + 'a) list \<times> (status + 'a option)" where
  "stream_message xs =
     (case xs of
        [] \<Rightarrow> ([], Inr None)
      | Inr v # rest \<Rightarrow> (rest, Inr (Some v))
      | Inl e # rest \<Rightarrow> (rest, Inl e))"

definition stream_next :: "(status + 'a) list \<Rightarrow> (status + 'a) list \<times> (status + 'a) option" where
  "stream_next xs =
     (case stream_message xs of
        (rest, Inr (Some v)) \<Rightarrow> (rest, Some (Inr v))
      | (rest, Inr None) \<Rightarrow> (rest, None)
      | (rest, Inl e) \<Rightarrow> (rest, Some (Inl e)))"

section \<open>Pool managers\<close>

text \<open>
  The managers of bb8, deadpool and r2d2 make and check clients in the same way, the last with
  the blocking client.
\<close>

definition pool_check ::
  "'w client_env \<Rightarrow> 'w gateway_client \<Rightarrow> 'w \<Rightarrow> 'w \<times> 'w gateway_client \<times> (client_error + unit)" where
  "pool_check E c w =
     (case client_cluster_status E c w of
        (w', c', Inl e) \<Rightarrow> (w', c', Inl e)
      | (w', c', Inr _) \<Rightarrow> (w', c', Inr ()))"

definition pool_connect ::
  "'w client_env \<Rightarrow> 'w client_config \<Rightarrow> 'w \<Rightarrow> 'w \<times> (client_error + 'w gateway_client)" where
  "pool_connect E cfg w =
     (case pool_check E (client_new cfg) w of
        (w', _, Inl e) \<Rightarrow> (w', Inl e)
      | (w', c', Inr _) \<Rightarrow> (w', Inr c'))"

definition has_broken :: "'w gateway_client \<Rightarrow> bool" where
  "has_broken c = False"

definition deadpool_create ::
  "'w client_env \<Rightarrow> 'w client_config \<Rightarrow> 'w \<Rightarrow> 'w \<times> (client_error + 'w gateway_client)" where
  "deadpool_create E cfg w = pool_connect E cfg w"

definition deadpool_recycle ::
  "'w client_env \<Rightarrow> 'w gateway_client \<Rightarrow> 'w \<Rightarrow> 'w \<times> 'w gateway_client \<times> (client_error + unit)" where
  "deadpool_recycle E c w = pool_check E c w"

definition r2d2_connect ::
  "bool \<Rightarrow> 'w client_env \<Rightarrow> 'w client_config \<Rightarrow> 'w \<Rightarrow> ('w \<times> (client_error + 'w gateway_client)) option" where
  "r2d2_connect in_async E cfg w =
     Option.bind (blocking_new in_async cfg) (\<lambda>c.
       map_option (\<lambda>(w', c', r). (w', case r of Inl e \<Rightarrow> Inl e | Inr _ \<Rightarrow> Inr c'))
         (blocking_cluster_status in_async E c w))"

definition r2d2_is_valid ::
  "bool \<Rightarrow> 'w client_env \<Rightarrow> 'w gateway_client \<Rightarrow> 'w \<Rightarrow>
     ('w \<times> 'w gateway_client \<times> (client_error + unit)) option" where
  "r2d2_is_valid in_async E c w =
     map_option (\<lambda>(w', c', r). (w', c', case r of Inl e \<Rightarrow> Inl e | Inr _ \<Rightarrow> Inr ()))
       (blocking_cluster_status in_async E c w)"

section \<open>Remote or local\<close>

datatype 'w client_backend = Backend_Remote "'w gateway_client" | Backend_Local engine

text \<open>\<open>v\<close> is the state below the local engine, as in \<open>Engine\<close>; \<open>made\<close> is the error of making its directory.\<close>

definition unified_new :: "string option \<Rightarrow> 'w client_target \<Rightarrow> 'w client_backend res" where
  "unified_new made target =
     (case target of
        Target_Remote cfg \<Rightarrow> Inr (Backend_Remote (client_new cfg))
      | Target_Local dir \<Rightarrow>
          (case engine_new made dir of
             Inl e \<Rightarrow> Inl e
           | Inr eng \<Rightarrow> Inr (Backend_Local eng)))"

definition from_local_dir :: "string option \<Rightarrow> string \<Rightarrow> 'w client_backend res" where
  "from_local_dir made dir =
     (case engine_new made dir of Inl e \<Rightarrow> Inl e | Inr eng \<Rightarrow> Inr (Backend_Local eng))"

definition is_local_backend :: "'w client_backend \<Rightarrow> bool" where
  "is_local_backend b = (case b of Backend_Local _ \<Rightarrow> True | Backend_Remote _ \<Rightarrow> False)"

definition is_remote_backend :: "'w client_backend \<Rightarrow> bool" where
  "is_remote_backend b = (case b of Backend_Remote _ \<Rightarrow> True | Backend_Local _ \<Rightarrow> False)"

definition into_sync :: "client_error + 'a \<Rightarrow> 'a res" where
  "into_sync r = (case r of Inl e \<Rightarrow> Inl (sync_error_of e) | Inr a \<Rightarrow> Inr a)"

definition task_result :: "string option \<Rightarrow> 'a res \<Rightarrow> 'a res" where
  "task_result join r =
     (case join of Some e \<Rightarrow> Inl (Protocol (''task join error: '' @ e)) | None \<Rightarrow> r)"

definition unified_execute ::
  "'w client_env \<Rightarrow> 'w gateway_stub \<Rightarrow> ('v, 's) engine_env \<Rightarrow> string option \<Rightarrow> string \<Rightarrow> string \<Rightarrow>
     parameters option \<Rightarrow> 'w client_backend \<times> 'w \<times> 'v \<Rightarrow>
     ('w client_backend \<times> 'w \<times> 'v) \<times> execute_response res" where
  "unified_execute E S L join database sql parameters s =
     (case s of
        (Backend_Remote c, w, v) \<Rightarrow>
          (let (w', c', r) = client_execute E S database sql parameters c w
           in ((Backend_Remote c', w', v), into_sync r))
      | (Backend_Local eng, w, v) \<Rightarrow>
          (let (eng', v', r) = execute L eng database \<lparr>st_sql = sql, st_parameters = parameters\<rparr> 1 v
           in ((Backend_Local eng', w, v'), task_result join r)))"

definition unified_query ::
  "'w client_env \<Rightarrow> 'w gateway_stub \<Rightarrow> ('v, 's) engine_env \<Rightarrow> string option \<Rightarrow> string \<Rightarrow> string \<Rightarrow>
     parameters option \<Rightarrow> u32 \<Rightarrow> consistency_level \<Rightarrow> 'w client_backend \<times> 'w \<times> 'v \<Rightarrow>
     (('w client_backend \<times> 'w \<times> 'v) \<times> query_response res) option" where
  "unified_query E S L join database sql parameters max_rows consistency s =
     (case s of
        (Backend_Remote c, w, v) \<Rightarrow>
          (let (w', c', r) = client_query E S database sql parameters max_rows consistency c w
           in Some ((Backend_Remote c', w', v), into_sync r))
      | (Backend_Local eng, w, v) \<Rightarrow>
          map_option (\<lambda>(v', r). ((Backend_Local eng, w, v'), task_result join r))
            (query L eng database \<lparr>st_sql = sql, st_parameters = parameters\<rparr> max_rows 1 False v))"

definition unified_batch ::
  "'w client_env \<Rightarrow> 'w gateway_stub \<Rightarrow> ('v, 's) engine_env \<Rightarrow> string option \<Rightarrow> string \<Rightarrow>
     statement list \<Rightarrow> batch_transaction_mode \<Rightarrow> bool \<Rightarrow> 'w client_backend \<times> 'w \<times> 'v \<Rightarrow>
     (('w client_backend \<times> 'w \<times> 'v) \<times> batch_response res) option" where
  "unified_batch E S L join database statements tx_mode stop_on_error s =
     (case s of
        (Backend_Remote c, w, v) \<Rightarrow>
          (let (w', c', r) = client_batch E S database statements tx_mode stop_on_error c w
           in Some ((Backend_Remote c', w', v), into_sync r))
      | (Backend_Local eng, w, v) \<Rightarrow>
          map_option (\<lambda>(eng', v', r). ((Backend_Local eng', w, v'), task_result join r))
            (batch L eng database statements tx_mode stop_on_error 1 v))"

definition unified_drop_database ::
  "'w client_env \<Rightarrow> 'w gateway_stub \<Rightarrow> ('v, 's) engine_env \<Rightarrow> string option \<Rightarrow> string \<Rightarrow>
     'w client_backend \<times> 'w \<times> 'v \<Rightarrow> ('w client_backend \<times> 'w \<times> 'v) \<times> drop_response res" where
  "unified_drop_database E S L join database s =
     (case s of
        (Backend_Remote c, w, v) \<Rightarrow>
          (let (w', c', r) = client_drop_database E S database c w
           in ((Backend_Remote c', w', v), into_sync r))
      | (Backend_Local eng, w, v) \<Rightarrow>
          (let (eng', v', r) = drop_database L eng database v
           in ((Backend_Local eng', w, v'),
               case task_result join r of
                 Inl e \<Rightarrow> Inl e
               | Inr existed \<Rightarrow> Inr \<lparr>dr_existed = existed, dr_generation = 1\<rparr>)))"

text \<open>\<open>root\<close> is what is found under the data directory; \<open>version\<close> that of the package.\<close>

definition unified_cluster_status ::
  "'w client_env \<Rightarrow> string option \<Rightarrow> string \<Rightarrow> fs_node option \<Rightarrow> 'w client_backend \<times> 'w \<Rightarrow>
     ('w client_backend \<times> 'w) \<times> cluster_status res" where
  "unified_cluster_status E join version root s =
     (case s of
        (Backend_Remote c, w) \<Rightarrow>
          (let (w', c', r) = client_cluster_status E c w in ((Backend_Remote c', w'), into_sync r))
      | (Backend_Local eng, w) \<Rightarrow>
          ((Backend_Local eng, w),
           case task_result join (list_databases root) of
             Inl e \<Rightarrow> Inl e
           | Inr databases \<Rightarrow>
               Inr \<lparr>cs_node_id = ''standalone-edge'', cs_role = Writer, cs_local_generation = 1,
                    cs_lease = None, cs_leader_id = ''standalone-edge'',
                    cs_leader_endpoint = ''local://in-process'', cs_databases = databases,
                    cs_uptime = 0, cs_version = version\<rparr>))"

end
