(* ===== verification/Cli_Text.thy ===== *)
theory Cli_Text
  imports Unified_Client Endpoint
begin

text \<open>
  The text side of the client command line (\<open>src/src/cli/client.rs\<close>): parameters, SQL scripts,
  the formats of values and rows.

  The Unicode case tables, the decimal notation of floating-point numbers, the drawing of tables
  (comfy-table) and the printing of JSON (serde_json) are the record \<open>cli_lib\<close>. A floating-point
  number is its bits, as in \<open>Statements\<close>.
\<close>

section \<open>Libraries\<close>

datatype json =
    J_Null
  | J_Int i64
  | J_Nat u64
  | J_Float f64
  | J_Bool bool
  | J_String string
  | J_Array "json list"
  | J_Object "(string \<times> json) list"

datatype colour = Cyan | DarkGrey

type_synonym cell = "string \<times> colour option"

text \<open>A table is drawn from whether it adapts to the terminal, its header and its rows.\<close>

record cli_lib =
  parse_f64 :: "string \<Rightarrow> f64 option"
  show_f64 :: "f64 \<Rightarrow> string"
  to_uppercase :: "string \<Rightarrow> string"
  to_lowercase :: "string \<Rightarrow> string"
  to_string_pretty :: "json \<Rightarrow> string option"
  table_text :: "bool \<Rightarrow> cell list \<Rightarrow> cell list list \<Rightarrow> string"

section \<open>Numbers\<close>

definition show_i64 :: "i64 \<Rightarrow> string" where
  "show_i64 i = show_i32 (sint i)"

definition parse_i64 :: "string \<Rightarrow> i64 option" where
  "parse_i64 s =
     (case s of
        c # r \<Rightarrow>
          if c = CHR ''-'' then
            if r = [] then None
            else
              (case digits_value 0 r of
                 Some n \<Rightarrow> if n \<le> 9223372036854775808 then Some (- of_nat n) else None
               | None \<Rightarrow> None)
          else map_option of_nat (parse_uint 9223372036854775807 s)
      | [] \<Rightarrow> None)"

definition hex_digit :: "nat \<Rightarrow> char" where
  "hex_digit d = (if d < 10 then char_of (48 + d) else char_of (87 + d))"

definition hex_encode :: "bytes \<Rightarrow> string" where
  "hex_encode data = concat (map (\<lambda>b. [hex_digit (unat b div 16), hex_digit (unat b mod 16)]) data)"

text \<open>
  \<open>as f64\<close> keeps 53 bits and rounds ties to even; \<open>{:.d}\<close> writes the exact value with \<open>d\<close>
  decimals, again rounding ties to even. Division by a power of two is exact.
\<close>

definition round_half_even :: "nat \<Rightarrow> nat \<Rightarrow> nat" where
  "round_half_even n d =
     (let q = n div d; r = n mod d in if 2 * r > d \<or> 2 * r = d \<and> odd q then Suc q else q)"

fun bit_length :: "nat \<Rightarrow> nat" where
  "bit_length n = (if n = 0 then 0 else Suc (bit_length (n div 2)))"

declare bit_length.simps [simp del]

definition as_f64 :: "u64 \<Rightarrow> nat" where
  "as_f64 w =
     (let n = unat w; k = bit_length n - 53 in round_half_even n (2 ^ k) * 2 ^ k)"

definition fixed :: "nat \<Rightarrow> nat \<Rightarrow> nat \<Rightarrow> string" where
  "fixed d n den =
     (let m = round_half_even (n * 10 ^ d) den; frac = show_nat (m mod 10 ^ d)
      in show_nat (m div 10 ^ d) @ ''.'' @ replicate (d - length frac) (CHR ''0'') @ frac)"

definition format_bytes :: "u64 \<Rightarrow> string" where
  "format_bytes b =
     (if b < 1024 then show_word b @ '' B''
      else if b < 1024 * 1024 then fixed 1 (as_f64 b) 1024 @ '' KB''
      else if b < 1024 * 1024 * 1024 then fixed 1 (as_f64 b) (1024 * 1024) @ '' MB''
      else fixed 2 (as_f64 b) (1024 * 1024 * 1024) @ '' GB'')"

section \<open>Parameters\<close>

definition quoted_text :: "string \<Rightarrow> string" where
  "quoted_text s = [CHR 0x27] @ s @ [CHR 0x27]"

definition blob_literal :: "string \<Rightarrow> string option" where
  "blob_literal s =
     (case strip_prefix (''x'' @ [CHR 0x27]) s of
        None \<Rightarrow> None
      | Some h \<Rightarrow> if ends_with [CHR 0x27] h then Some (butlast h) else None)"

fun hex_bytes :: "string \<Rightarrow> bytes option" where
  "hex_bytes (a # b # s) =
     (case (hex_digit_of a, hex_digit_of b) of
        (Some x, Some y) \<Rightarrow> map_option (\<lambda>bs. of_nat (16 * x + y) # bs) (hex_bytes s)
      | _ \<Rightarrow> None)"
| "hex_bytes [] = Some []"
| "hex_bytes [_] = None"

definition parse_string_to_value :: "cli_lib \<Rightarrow> string \<Rightarrow> proto_value option res" where
  "parse_string_to_value U s =
     (if eq_ignore_ascii_case s ''null'' then Inr (Some (PV_Null True))
      else
        (case parse_i64 s of
           Some i \<Rightarrow> Inr (Some (PV_Int i))
         | None \<Rightarrow>
             (case parse_f64 U s of
                Some f \<Rightarrow> Inr (Some (PV_Float f))
              | None \<Rightarrow>
                  (case blob_literal s of
                     Some hex \<Rightarrow>
                       if \<not> list_all (\<lambda>c. hex_digit_of c \<noteq> None) hex then
                         Inl (Protocol (''invalid hex blob literal '' @ quoted_text s @
                           '': contains non-hex characters''))
                       else
                         (case hex_bytes hex of
                            None \<Rightarrow>
                              Inl (Protocol (''invalid hex blob literal '' @ quoted_text s @
                                '': odd number of hex digits''))
                          | Some bs \<Rightarrow> Inr (Some (PV_Blob bs)))
                   | None \<Rightarrow> Inr (Some (PV_Text s))))))"

fun cli_parameters ::
  "cli_lib \<Rightarrow> string list \<Rightarrow> parameters \<Rightarrow> parameters res" where
  "cli_parameters U [] ps = Inr ps"
| "cli_parameters U (p # rest) ps =
     (case split_once (CHR ''='') p of
        Some (k, v) \<Rightarrow>
          (case parse_string_to_value U (trim v) of
             Inl e \<Rightarrow> Inl e
           | Inr x \<Rightarrow> cli_parameters U rest (ps\<lparr>named := named ps @ [(trim k, Some x)]\<rparr>))
      | None \<Rightarrow>
          (case parse_string_to_value U (trim p) of
             Inl e \<Rightarrow> Inl e
           | Inr x \<Rightarrow> cli_parameters U rest (ps\<lparr>positional := positional ps @ [x]\<rparr>)))"

definition parse_cli_parameters :: "cli_lib \<Rightarrow> string list \<Rightarrow> parameters option res" where
  "parse_cli_parameters U raw =
     (if raw = [] then Inr None
      else
        (case cli_parameters U raw \<lparr>positional = [], named = []\<rparr> of
           Inl e \<Rightarrow> Inl e
         | Inr ps \<Rightarrow> Inr (Some ps)))"

section \<open>Scripts\<close>

definition finish_statement :: "string \<Rightarrow> statement list" where
  "finish_statement current =
     (let trimmed = trim current
      in if trimmed = [] then [] else [\<lparr>st_sql = trimmed, st_parameters = None\<rparr>])"

fun split_from :: "string \<Rightarrow> bool \<Rightarrow> bool \<Rightarrow> string \<Rightarrow> statement list" where
  "split_from current single dbl [] = finish_statement current"
| "split_from current single dbl (c # s) =
     (if c = CHR 0x27 \<and> \<not> dbl then split_from (current @ [c]) (\<not> single) dbl s
      else if c = CHR 0x22 \<and> \<not> single then split_from (current @ [c]) single (\<not> dbl) s
      else if c = CHR '';'' \<and> \<not> single \<and> \<not> dbl then
        finish_statement current @ split_from [] single dbl s
      else split_from (current @ [c]) single dbl s)"

definition split_sql_statements :: "string \<Rightarrow> statement list" where
  "split_sql_statements sql = split_from [] False False sql"

definition is_query_sql :: "cli_lib \<Rightarrow> string \<Rightarrow> bool" where
  "is_query_sql U sql \<longleftrightarrow>
     (let s = to_uppercase U (trim sql)
      in starts_with ''SELECT'' s \<or> starts_with ''PRAGMA'' s \<or> starts_with ''EXPLAIN'' s \<or>
         starts_with ''WITH'' s)"

section \<open>Rows\<close>

fun format_sql_value :: "cli_lib \<Rightarrow> sql_value \<Rightarrow> string" where
  "format_sql_value U V_Null = ''NULL''"
| "format_sql_value U (V_Integer i) = show_i64 i"
| "format_sql_value U (V_Float f) = show_f64 U f"
| "format_sql_value U (V_Text t) = t"
| "format_sql_value U (V_Blob b) = ''x'' @ quoted_text (hex_encode b)"

text \<open>\<open>Number::from_f64\<close> has no value for infinities and NaN, whose exponent bits are all ones.\<close>

definition finite_f64 :: "f64 \<Rightarrow> bool" where
  "finite_f64 f \<longleftrightarrow> (unat f div 2 ^ 52) mod 2 ^ 11 \<noteq> 2047"

fun sql_value_to_json :: "sql_value \<Rightarrow> json" where
  "sql_value_to_json V_Null = J_Null"
| "sql_value_to_json (V_Integer i) = J_Int i"
| "sql_value_to_json (V_Float f) = (if finite_f64 f then J_Float f else J_Null)"
| "sql_value_to_json (V_Text t) = J_String t"
| "sql_value_to_json (V_Blob b) = J_String (''x'' @ quoted_text (hex_encode b))"

text \<open>\<open>Map::insert\<close> replaces the value of a key that is present.\<close>

fun object_insert :: "string \<Rightarrow> json \<Rightarrow> (string \<times> json) list \<Rightarrow> (string \<times> json) list" where
  "object_insert k v [] = [(k, v)]"
| "object_insert k v ((k', v') # m) = (if k = k' then (k, v) # m else (k', v') # object_insert k v m)"

definition row_object :: "column_header list \<Rightarrow> row \<Rightarrow> json" where
  "row_object cols vs =
     J_Object (fold (\<lambda>(i, v). object_insert
         (if i < length cols then ch_name (cols ! i) else ''col_'' @ show_nat i)
         (sql_value_to_json (proto_value_to_sql v)))
       (List.enumerate 0 vs) [])"

definition rows_json :: "query_response \<Rightarrow> json" where
  "rows_json resp = J_Array (map (row_object (qr_columns resp)) (qr_rows resp))"

text \<open>\<open>join\<close> and \<open>replace\<close> of a quotation mark by two.\<close>

fun join_with :: "string \<Rightarrow> string list \<Rightarrow> string" where
  "join_with d [] = []"
| "join_with d [x] = x"
| "join_with d (x # y # xs) = x @ d @ join_with d (y # xs)"

definition double_quotes :: "string \<Rightarrow> string" where
  "double_quotes s = concat (map (\<lambda>c. if c = CHR 0x22 then [c, c] else [c]) s)"

definition delimited_field :: "char \<Rightarrow> string \<Rightarrow> string" where
  "delimited_field d s =
     (if d = CHR '','' \<and> (CHR '','' \<in> set s \<or> CHR 0x22 \<in> set s \<or> CHR 0x0A \<in> set s)
      then [CHR 0x22] @ double_quotes s @ [CHR 0x22] else s)"

definition delimited_value :: "cli_lib \<Rightarrow> char \<Rightarrow> proto_value option \<Rightarrow> string" where
  "delimited_value U d v =
     (case proto_value_to_sql v of
        V_Null \<Rightarrow> []
      | x \<Rightarrow> delimited_field d (format_sql_value U x))"

definition delimited_lines :: "cli_lib \<Rightarrow> query_response \<Rightarrow> char \<Rightarrow> string list" where
  "delimited_lines U resp d =
     join_with [d] (map ch_name (qr_columns resp)) #
     map (\<lambda>r. join_with [d] (map (delimited_value U d) r)) (qr_rows resp)"

end
