(* ===== verification/Cli.thy ===== *)
theory Cli
  imports Cli_Text Ha_Lease
begin

text \<open>
  The client command line (\<open>src/src/cli/client.rs\<close>): its options, the choice of the target, the
  printers, the commands and the interactive shell.

  A command passes on the state of \<open>Unified_Client\<close>: the client, the world \<open>'w\<close> outside the
  process and the state \<open>'v\<close> below a local engine. What it prints is a list. The record \<open>cli_env\<close>
  has the parameters of the unified client and what the command line reads: environment
  variables, files, the clock, the terminal.
\<close>

section \<open>Options\<close>

datatype cli_runtime_mode = Cli_Auto | Cli_Local | Cli_Cluster

datatype output_format = Fmt_Table | Fmt_Json | Fmt_Csv | Fmt_Tsv | Fmt_Raw

datatype cli_tx_mode = Cli_Deferred | Cli_Immediate | Cli_Exclusive | Cli_None

fun batch_mode_of :: "cli_tx_mode \<Rightarrow> batch_transaction_mode" where
  "batch_mode_of Cli_Deferred = Tx_Deferred"
| "batch_mode_of Cli_Immediate = Tx_Immediate"
| "batch_mode_of Cli_Exclusive = Tx_Exclusive"
| "batch_mode_of Cli_None = Tx_None"

datatype cli_consistency = Cli_Strong | Cli_Eventual

fun consistency_level_of :: "cli_consistency \<Rightarrow> consistency_level" where
  "consistency_level_of Cli_Strong = Strong"
| "consistency_level_of Cli_Eventual = Eventual"

record client_connection_args =
  ca_mode :: cli_runtime_mode
  ca_data_dir :: "string option"
  ca_endpoint :: "string option"
  ca_endpoints :: "string list"
  ca_kube_lease :: "string option"
  ca_kube_namespace :: string
  ca_kube_service :: string
  ca_kube_context :: "string option"
  ca_kubeconfig :: "string option"
  ca_kubectl_path :: string
  ca_grpc_port :: u16
  ca_max_retries :: usize
  ca_timeout :: u64
  ca_token :: "string option"

datatype client_command =
    Exec string string "string list"
  | Query string string "string list" output_format u32 cli_consistency
  | Batch string "string option" "string option" cli_tx_mode bool
  | Status output_format
  | Repl string output_format
  | DropDatabase string bool

datatype readline = Read_Line string | Read_Interrupted | Read_Eof | Read_Error string

text \<open>
  \<open>time_text\<close> is the time of a response in milliseconds, which the responses of \<open>Engine\<close> leave
  out; \<open>dir_error\<close> the error of making the data directory; \<open>confirmation\<close> the line typed at the
  prompt, \<open>typed\<close> the lines of the shell.
\<close>

record ('w, 'v, 's, 'j) cli_env =
  ce_client :: "'w client_env"
  ce_stub :: "'w gateway_stub"
  ce_engine :: "('v, 's) engine_env"
  ce_join :: "string option"
  ce_version :: string
  ce_root :: "string \<Rightarrow> 'v \<Rightarrow> fs_node option"
  ce_lib :: cli_lib
  env_var :: "string \<Rightarrow> string option"
  dir_error :: "string option"
  read_to_string :: "string \<Rightarrow> 'w \<Rightarrow> string + string"
  json_of :: "'j json_api"
  kubectl_run :: "'w \<Rightarrow> string \<Rightarrow> string list \<Rightarrow> string + command_output"
  clock_secs :: "'w \<Rightarrow> u64"
  time_text :: "'w \<Rightarrow> 'v \<Rightarrow> string"
  flush_error :: "string option"
  confirmation :: "string + string"
  editor_error :: "string option"
  typed :: "readline list"

section \<open>The target\<close>

definition non_blank :: "string option \<Rightarrow> string option" where
  "non_blank v =
     (case v of None \<Rightarrow> None | Some s \<Rightarrow> if trim s = [] then None else Some (trim s))"

definition kube_resolve ::
  "('w, 'v, 's, 'j) cli_env \<Rightarrow> kubectl_reader \<Rightarrow> string \<Rightarrow> u16 \<Rightarrow> 'w \<Rightarrow> 'w \<times> (string + string)" where
  "kube_resolve C reader service_name grpc_port w =
     (w,
      case ce_join C of
        Some e \<Rightarrow> Inl e
      | None \<Rightarrow>
          (case kubectl_read_lease (json_of C) (kubectl_run C w) reader of
             Inl e \<Rightarrow> Inl e
           | Inr None \<Rightarrow> Inl ''k8s lease has no active holder''
           | Inr (Some lease) \<Rightarrow>
               (let host =
                      (if service_name = [] then holder_node_id lease
                       else holder_node_id lease @ ''.'' @ service_name)
                in Inr (''http://'' @ host @ '':'' @ show_word grpc_port))))"

definition to_client_config ::
  "('w, 'v, 's, 'j) cli_env \<Rightarrow> client_connection_args \<Rightarrow> 'w client_config" where
  "to_client_config C a =
     (let valid_endpoints = filter (\<lambda>s. s \<noteq> []) (map trim (ca_endpoints a));
          mode =
            (case non_blank (ca_endpoint a) of
               Some ep \<Rightarrow> Direct ep
             | None \<Rightarrow>
                 (case non_blank (ca_kube_lease a) of
                    Some name \<Rightarrow>
                      Custom (kube_resolve C
                        (set_kubeconfig (ca_kubeconfig a)
                          (set_kube_context (ca_kube_context a)
                            (kubectl_new (ca_kubectl_path a) (ca_kube_namespace a) name)))
                        (ca_kube_service a) (ca_grpc_port a))
                  | None \<Rightarrow>
                      if valid_endpoints \<noteq> [] then Candidates valid_endpoints
                      else Direct ''http://127.0.0.1:50051''))
      in \<lparr>discovery = mode, max_retries = ca_max_retries a, initial_backoff_ms = 100,
          max_backoff_ms = 2000, timeout_secs = ca_timeout a, auth_token = non_blank (ca_token a)\<rparr>)"

definition LOCAL_NEEDS_DIR :: string where
  "LOCAL_NEEDS_DIR =
     ''local mode requires a data directory via --data-dir (-D) or RSQLITE_DATA_DIR''"

definition to_client_target ::
  "('w, 'v, 's, 'j) cli_env \<Rightarrow> client_connection_args \<Rightarrow> 'w client_target res" where
  "to_client_target C a =
     (let remote = Inr (Target_Remote (to_client_config C a));
          env_set = (\<lambda>k. non_blank (env_var C k) \<noteq> None)
      in case ca_mode a of
           Cli_Local \<Rightarrow>
             (case ca_data_dir a of
                Some dir \<Rightarrow> Inr (Target_Local dir)
              | None \<Rightarrow>
                  (case env_var C ''RSQLITE_DATA_DIR'' of
                     Some dir \<Rightarrow>
                       if trim dir \<noteq> [] then Inr (Target_Local (trim dir))
                       else Inl (Protocol LOCAL_NEEDS_DIR)
                   | None \<Rightarrow> Inl (Protocol LOCAL_NEEDS_DIR)))
         | Cli_Cluster \<Rightarrow> remote
         | Cli_Auto \<Rightarrow>
             if non_blank (ca_endpoint a) \<noteq> None \<or> list_ex (\<lambda>s. trim s \<noteq> []) (ca_endpoints a) \<or>
                non_blank (ca_kube_lease a) \<noteq> None then remote
             else
               (case ca_data_dir a of
                  Some dir \<Rightarrow> Inr (Target_Local dir)
                | None \<Rightarrow>
                    (case env_var C ''RSQLITE_DATA_DIR'' of
                       Some dir \<Rightarrow>
                         if trim dir \<noteq> [] \<and> \<not> env_set ''RSQLITE_ENDPOINT'' \<and>
                            \<not> env_set ''RSQLITE_ENDPOINTS'' \<and> \<not> env_set ''RSQLITE_KUBE_LEASE''
                         then Inr (Target_Local (trim dir)) else remote
                     | None \<Rightarrow> remote)))"

definition to_client ::
  "('w, 'v, 's, 'j) cli_env \<Rightarrow> client_connection_args \<Rightarrow> 'w client_backend res" where
  "to_client C a =
     (case to_client_target C a of
        Inl e \<Rightarrow> Inl e
      | Inr target \<Rightarrow> unified_new (dir_error C) target)"

section \<open>Printers\<close>

text \<open>A line on either stream; \<open>Prompt\<close> has no line feed.\<close>

datatype printed = Stdout string | Stderr string | Prompt string

definition print_execute_response :: "string \<Rightarrow> execute_response \<Rightarrow> printed list" where
  "print_execute_response ms resp =
     [Stdout (''Query executed in '' @ ms @ '' ms. Rows affected: '' @ show_word (rows_affected resp) @
       '', Last Insert RowID: '' @ show_i64 (resp_rowid resp) @ '' (Generation: '' @
       show_word (ex_generation resp) @ '')'')]"

fun statement_error :: "statement_outcome \<Rightarrow> string" where
  "statement_error (Statement_Error e) = e"
| "statement_error _ = []"

definition print_batch_response :: "string \<Rightarrow> batch_response \<Rightarrow> printed list" where
  "print_batch_response ms resp =
     Stdout (''Batch transaction '' @ (if br_committed resp then ''COMMITTED'' else ''FAILED'') @
       '' in '' @ ms @ '' ms. Statements executed: '' @ show_nat (length (br_results resp)) @
       '' (Generation: '' @ show_word (br_generation resp) @ '')'') #
     concat (map (\<lambda>(idx, r).
         if statement_error r = [] then []
         else [Stderr (''Statement '' @ show_nat (idx + 1) @ '': '' @ statement_error r)])
       (List.enumerate 0 (br_results resp)))"

definition header_cell :: "column_header \<Rightarrow> cell" where
  "header_cell col =
     (if ch_declared col = [] then ch_name col
      else ch_name col @ [CHR 0x0A] @ ''('' @ ch_declared col @ '')'', Some Cyan)"

definition value_cell :: "cli_lib \<Rightarrow> proto_value option \<Rightarrow> cell" where
  "value_cell U v =
     (case proto_value_to_sql v of
        V_Null \<Rightarrow> (''NULL'', Some DarkGrey)
      | x \<Rightarrow> (format_sql_value U x, None))"

definition print_table :: "cli_lib \<Rightarrow> string \<Rightarrow> query_response \<Rightarrow> printed list" where
  "print_table U ms resp =
     [Stdout (table_text U True (map header_cell (qr_columns resp))
        (map (map (value_cell U)) (qr_rows resp))),
      Stdout (''('' @ show_word (qr_total resp) @ '' '' @
        (if qr_total resp = 1 then ''row'' else ''rows'') @ '' in '' @ ms @ '' ms)'')]"

definition print_pretty :: "cli_lib \<Rightarrow> json \<Rightarrow> printed list" where
  "print_pretty U j = (case to_string_pretty U j of Some s \<Rightarrow> [Stdout s] | None \<Rightarrow> [])"

definition print_json :: "cli_lib \<Rightarrow> query_response \<Rightarrow> printed list" where
  "print_json U resp = print_pretty U (rows_json resp)"

definition print_delimited :: "cli_lib \<Rightarrow> query_response \<Rightarrow> char \<Rightarrow> printed list" where
  "print_delimited U resp d = map Stdout (delimited_lines U resp d)"

definition print_query_response ::
  "cli_lib \<Rightarrow> string \<Rightarrow> query_response \<Rightarrow> output_format \<Rightarrow> printed list" where
  "print_query_response U ms resp f =
     (case f of
        Fmt_Table \<Rightarrow> print_table U ms resp
      | Fmt_Json \<Rightarrow> print_json U resp
      | Fmt_Csv \<Rightarrow> print_delimited U resp (CHR '','')
      | Fmt_Tsv \<Rightarrow> print_delimited U resp (CHR 0x09)
      | Fmt_Raw \<Rightarrow> print_delimited U resp (CHR '' ''))"

text \<open>The role is a number of the protocol; the two roles of \<open>Gateway_Server\<close> have these.\<close>

fun node_role_number :: "node_role \<Rightarrow> int" where
  "node_role_number Writer = 1"
| "node_role_number Replica = 2"

definition node_role_str :: "int \<Rightarrow> string" where
  "node_role_str r =
     (if r = 1 then ''writer'' else if r = 2 then ''replica'' else ''unspecified'')"

definition lease_remaining :: "u64 \<Rightarrow> lease_status \<Rightarrow> u64" where
  "lease_remaining now l = saturating_sub (saturating_add (ls_renewed_at l) (ls_ttl l)) now"

definition lease_line :: "u64 \<Rightarrow> cluster_status \<Rightarrow> string \<times> u64 \<times> bool" where
  "lease_line now st =
     (case cs_lease st of
        Some l \<Rightarrow> (ls_holder l, lease_remaining now l, ls_is_expired l)
      | None \<Rightarrow> ([], 0, False))"

text \<open>Every listed database has the journal mode \<open>wal\<close> (\<open>engine.rs\<close>).\<close>

definition status_json :: "u64 \<Rightarrow> cluster_status \<Rightarrow> json" where
  "status_json now st =
     (let (holder, remaining, expired) = lease_line now st
      in J_Object
        [(''node_id'', J_String (cs_node_id st)),
         (''role'', J_String (node_role_str (node_role_number (cs_role st)))),
         (''current_leader_id'', J_String (cs_leader_id st)),
         (''current_leader_endpoint'', J_String (cs_leader_endpoint st)),
         (''local_generation'', J_Nat (cs_local_generation st)),
         (''lease_holder'', J_String holder),
         (''lease_remaining_secs'', J_Nat remaining),
         (''lease_expired'', J_Bool expired),
         (''uptime_secs'', J_Nat (cs_uptime st)),
         (''version'', J_String (cs_version st)),
         (''databases'', J_Array (map (\<lambda>db. J_Object
            [(''name'', J_String (di_name db)), (''file_size_bytes'', J_Nat (di_size db)),
             (''page_size'', J_Nat (ucast (di_page_size db))),
             (''page_count'', J_Nat (ucast (di_page_count db))),
             (''journal_mode'', J_String ''wal'')]) (cs_databases st)))])"

definition status_table :: "cli_lib \<Rightarrow> database_info list \<Rightarrow> string" where
  "status_table U dbs =
     table_text U False
       (map (\<lambda>t. (t, Some Cyan)) [''Database'', ''Size'', ''Pages'', ''Page Size'', ''Journal Mode''])
       (map (\<lambda>db. map (\<lambda>t. (t, None))
          [di_name db, format_bytes (di_size db), show_word (di_page_count db),
           show_word (di_page_size db) @ '' B'', ''wal'']) dbs)"

definition print_cluster_status ::
  "cli_lib \<Rightarrow> u64 \<Rightarrow> cluster_status \<Rightarrow> output_format \<Rightarrow> printed list" where
  "print_cluster_status U now st f =
     (if f = Fmt_Json then print_pretty U (status_json now st)
      else
        (let (holder, remaining, expired) = lease_line now st
         in map Stdout
           ([''Cluster Node: '' @ cs_node_id st,
             ''Role:         '' @ node_role_str (node_role_number (cs_role st)),
             ''Generation:   '' @ show_word (cs_local_generation st),
             ''Version:      '' @ cs_version st,
             ''Uptime:       '' @ show_word (cs_uptime st) @ ''s'',
             ''Active Leader:'' @ (if cs_leader_id st = [] then ''none'' else cs_leader_id st)] @
            (if cs_leader_endpoint st \<noteq> [] then [''Leader URL:   '' @ cs_leader_endpoint st] else []) @
            (if holder \<noteq> [] then
               [''Lease Holder: '' @ holder @ '' (remaining: '' @ show_word remaining @ ''s'' @
                 (if expired then '', EXPIRED'' else []) @ '')''] else []) @
            [[]] @
            (if cs_databases st = [] then [''No databases registered.'']
             else [status_table U (cs_databases st)]))))"

section \<open>Calls\<close>

type_synonym ('w, 'v) session = "'w client_backend \<times> 'w \<times> 'v"

text \<open>The calls of the unified client on a session; \<open>None\<close> stands for a statement that never ends.\<close>

definition cli_execute ::
  "('w, 'v, 's, 'j) cli_env \<Rightarrow> string \<Rightarrow> string \<Rightarrow> parameters option \<Rightarrow> ('w, 'v) session \<Rightarrow>
     ('w, 'v) session \<times> execute_response res" where
  "cli_execute C = unified_execute (ce_client C) (ce_stub C) (ce_engine C) (ce_join C)"

definition cli_query ::
  "('w, 'v, 's, 'j) cli_env \<Rightarrow> string \<Rightarrow> string \<Rightarrow> parameters option \<Rightarrow> u32 \<Rightarrow> consistency_level \<Rightarrow>
     ('w, 'v) session \<Rightarrow> (('w, 'v) session \<times> query_response res) option" where
  "cli_query C = unified_query (ce_client C) (ce_stub C) (ce_engine C) (ce_join C)"

definition cli_batch ::
  "('w, 'v, 's, 'j) cli_env \<Rightarrow> string \<Rightarrow> statement list \<Rightarrow> batch_transaction_mode \<Rightarrow> bool \<Rightarrow>
     ('w, 'v) session \<Rightarrow> (('w, 'v) session \<times> batch_response res) option" where
  "cli_batch C = unified_batch (ce_client C) (ce_stub C) (ce_engine C) (ce_join C)"

definition cli_drop_database ::
  "('w, 'v, 's, 'j) cli_env \<Rightarrow> string \<Rightarrow> ('w, 'v) session \<Rightarrow> ('w, 'v) session \<times> drop_response res" where
  "cli_drop_database C = unified_drop_database (ce_client C) (ce_stub C) (ce_engine C) (ce_join C)"

definition cli_status ::
  "('w, 'v, 's, 'j) cli_env \<Rightarrow> ('w, 'v) session \<Rightarrow> ('w, 'v) session \<times> cluster_status res" where
  "cli_status C s =
     (let (b, w, v) = s;
          root = (case b of Backend_Local eng \<Rightarrow> ce_root C (data_dir eng) v | Backend_Remote _ \<Rightarrow> None);
          ((b', w'), r) = unified_cluster_status (ce_client C) (ce_join C) (ce_version C) root (b, w)
      in ((b', w', v), r))"

definition ms_of :: "('w, 'v, 's, 'j) cli_env \<Rightarrow> ('w, 'v) session \<Rightarrow> string" where
  "ms_of C s = (case s of (b, w, v) \<Rightarrow> time_text C w v)"

definition now_of :: "('w, 'v, 's, 'j) cli_env \<Rightarrow> ('w, 'v) session \<Rightarrow> u64" where
  "now_of C s = (case s of (b, w, v) \<Rightarrow> clock_secs C w)"

definition file_text :: "('w, 'v, 's, 'j) cli_env \<Rightarrow> string \<Rightarrow> ('w, 'v) session \<Rightarrow> string + string" where
  "file_text C path s = (case s of (b, w, v) \<Rightarrow> read_to_string C path w)"

section \<open>Shell\<close>

text \<open>\<open>shell_history\<close> lists the entries handed to the editor, \<open>saved_to\<close> the file they are saved in.\<close>

record ('w, 'v) shell =
  session_of :: "('w, 'v) session"
  shell_output :: "printed list"
  current_db :: string
  current_format :: output_format
  shell_history :: "string list"
  saved_to :: "string option"

definition say :: "printed list \<Rightarrow> ('w, 'v) shell \<Rightarrow> ('w, 'v) shell" where
  "say ps sh = sh\<lparr>shell_output := shell_output sh @ ps\<rparr>"

definition error_line :: "string \<Rightarrow> sync_error \<Rightarrow> printed list" where
  "error_line what e = [Stderr (what @ '': '' @ display_error e)]"

definition shell_query ::
  "('w, 'v, 's, 'j) cli_env \<Rightarrow> string \<Rightarrow> parameters option \<Rightarrow>
     (string \<Rightarrow> query_response \<Rightarrow> printed list) \<Rightarrow> ('w, 'v) shell \<Rightarrow> ('w, 'v) shell option" where
  "shell_query C sql params show sh =
     map_option (\<lambda>(s', r). say
         (case r of Inr resp \<Rightarrow> show (ms_of C s') resp | Inl e \<Rightarrow> error_line ''Error'' e)
         (sh\<lparr>session_of := s'\<rparr>))
       (cli_query C (current_db sh) sql params 0 Strong (session_of sh))"

definition shell_execute ::
  "('w, 'v, 's, 'j) cli_env \<Rightarrow> string \<Rightarrow> ('w, 'v) shell \<Rightarrow> ('w, 'v) shell" where
  "shell_execute C sql sh =
     (let (s', r) = cli_execute C (current_db sh) sql None (session_of sh)
      in say (case r of
                Inr resp \<Rightarrow> print_execute_response (ms_of C s') resp
              | Inl e \<Rightarrow> error_line ''Error'' e) (sh\<lparr>session_of := s'\<rparr>))"

definition HELP :: "string list" where
  "HELP =
     [''Metacommands:'',
      ''  .help                   Show this help menu'',
      ''  .tables                 List tables in the current database'',
      ''  .schema [TABLE]         Show CREATE statement for table(s)'',
      ''  .database [NAME]        Show or change active database'',
      ''  .mode [table|json|csv|tsv|raw]  Change output display format'',
      ''  .status                 Show cluster leadership & status'',
      ''  .read <FILE>            Execute SQL script from file'',
      ''  .quit                   Exit REPL'']"

definition USER_TABLES :: string where
  "USER_TABLES =
     '' FROM sqlite_master WHERE type='' @ quoted_text ''table'' @ '' AND name NOT LIKE '' @
     quoted_text ''sqlite_%'' @ '' ORDER BY name;''"

definition meta_tables :: "('w, 'v, 's, 'j) cli_env \<Rightarrow> ('w, 'v) shell \<Rightarrow> ('w, 'v) shell option" where
  "meta_tables C sh =
     shell_query C (''SELECT name'' @ USER_TABLES) None
       (\<lambda>ms resp. print_query_response (ce_lib C) ms resp (current_format sh)) sh"

text \<open>Only a text in the first column is shown.\<close>

definition print_schema :: "query_response \<Rightarrow> printed list" where
  "print_schema resp =
     concat (map (\<lambda>r. case r of
         Some (PV_Text t) # _ \<Rightarrow> [Stdout (t @ '';'' @ [CHR 0x0A])]
       | _ \<Rightarrow> []) (qr_rows resp))"

definition meta_schema ::
  "('w, 'v, 's, 'j) cli_env \<Rightarrow> string list \<Rightarrow> ('w, 'v) shell \<Rightarrow> ('w, 'v) shell option" where
  "meta_schema C args sh =
     (let (sql, params) =
        (case args of
           t # _ \<Rightarrow>
             (''SELECT sql FROM sqlite_master WHERE type='' @ quoted_text ''table'' @ '' AND name=?;'',
              Some \<lparr>positional = [Some (PV_Text t)], named = []\<rparr>)
         | [] \<Rightarrow> (''SELECT sql'' @ USER_TABLES, None))
      in shell_query C sql params (\<lambda>_. print_schema) sh)"

definition meta_database :: "string list \<Rightarrow> ('w, 'v) shell \<Rightarrow> ('w, 'v) shell" where
  "meta_database args sh =
     (case args of
        new_db # _ \<Rightarrow>
          say [Stdout (''Switched active database to '' @ quoted_text new_db)]
            (sh\<lparr>current_db := new_db\<rparr>)
      | [] \<Rightarrow> say [Stdout (''Active database: '' @ quoted_text (current_db sh))] sh)"

fun debug_format :: "output_format \<Rightarrow> string" where
  "debug_format Fmt_Table = ''Table''"
| "debug_format Fmt_Json = ''Json''"
| "debug_format Fmt_Csv = ''Csv''"
| "debug_format Fmt_Tsv = ''Tsv''"
| "debug_format Fmt_Raw = ''Raw''"

definition format_of :: "string \<Rightarrow> output_format option" where
  "format_of s =
     (if s = ''table'' then Some Fmt_Table
      else if s = ''json'' then Some Fmt_Json
      else if s = ''csv'' then Some Fmt_Csv
      else if s = ''tsv'' then Some Fmt_Tsv
      else if s = ''raw'' then Some Fmt_Raw else None)"

definition meta_mode :: "cli_lib \<Rightarrow> string list \<Rightarrow> ('w, 'v) shell \<Rightarrow> ('w, 'v) shell" where
  "meta_mode U args sh =
     (case args of
        mode_str # _ \<Rightarrow>
          (let other = to_lowercase U mode_str;
               sh' =
                 (case format_of other of
                    Some f \<Rightarrow> sh\<lparr>current_format := f\<rparr>
                  | None \<Rightarrow>
                      say [Stderr (''Unknown output format: '' @ quoted_text other @
                        ''. Available: table, json, csv, tsv, raw'')] sh)
           in say [Stdout (''Output mode: '' @ debug_format (current_format sh'))] sh')
      | [] \<Rightarrow> say [Stdout (''Current output mode: '' @ debug_format (current_format sh))] sh)"

definition meta_status :: "('w, 'v, 's, 'j) cli_env \<Rightarrow> ('w, 'v) shell \<Rightarrow> ('w, 'v) shell" where
  "meta_status C sh =
     (let (s', r) = cli_status C (session_of sh)
      in say (case r of
                Inr st \<Rightarrow> print_cluster_status (ce_lib C) (now_of C s') st (current_format sh)
              | Inl e \<Rightarrow> error_line ''Error querying status'' e) (sh\<lparr>session_of := s'\<rparr>))"

definition meta_read ::
  "('w, 'v, 's, 'j) cli_env \<Rightarrow> string list \<Rightarrow> ('w, 'v) shell \<Rightarrow> ('w, 'v) shell option" where
  "meta_read C args sh =
     (case args of
        [] \<Rightarrow> Some (say [Stderr ''Usage: .read <PATH_TO_SQL_FILE>''] sh)
      | file_path # _ \<Rightarrow>
          (case file_text C file_path (session_of sh) of
             Inl e \<Rightarrow>
               Some (say [Stderr (''Failed to read file '' @ quoted_text file_path @ '': '' @ e)] sh)
           | Inr content \<Rightarrow>
               (let stmts = split_sql_statements content;
                    sh1 = say [Stdout (''Executing '' @ show_nat (length stmts) @
                      '' statements from '' @ file_path @ ''...'')] sh
                in map_option (\<lambda>(s', r). say
                       (case r of
                          Inr resp \<Rightarrow> print_batch_response (ms_of C s') resp
                        | Inl e \<Rightarrow> error_line ''Batch execution failed'' e)
                       (sh1\<lparr>session_of := s'\<rparr>))
                     (cli_batch C (current_db sh) stmts Tx_Deferred True (session_of sh)))))"

text \<open>The flag says whether the shell ends.\<close>

definition handle_metacommand ::
  "('w, 'v, 's, 'j) cli_env \<Rightarrow> string \<Rightarrow> ('w, 'v) shell \<Rightarrow> (('w, 'v) shell \<times> bool) option" where
  "handle_metacommand C cmd sh =
     (let parts = split_whitespace cmd;
          nm = (case parts of p # _ \<Rightarrow> p | [] \<Rightarrow> []);
          args = drop 1 parts;
          goes_on = map_option (\<lambda>sh'. (sh', False))
      in if nm \<in> {''.quit'', ''.exit'', ''.q''} then Some (sh, True)
         else if nm \<in> {''.help'', ''.h''} then Some (say (map Stdout HELP) sh, False)
         else if nm = ''.tables'' then goes_on (meta_tables C sh)
         else if nm = ''.schema'' then goes_on (meta_schema C args sh)
         else if nm \<in> {''.database'', ''.db''} then Some (meta_database args sh, False)
         else if nm = ''.mode'' then Some (meta_mode (ce_lib C) args sh, False)
         else if nm = ''.status'' then Some (meta_status C sh, False)
         else if nm = ''.read'' then goes_on (meta_read C args sh)
         else Some (say [Stderr (''Unknown metacommand: '' @ quoted_text nm @
           ''. Type .help for available commands.'')] sh, False))"

definition shell_line ::
  "('w, 'v, 's, 'j) cli_env \<Rightarrow> string \<Rightarrow> ('w, 'v) shell \<Rightarrow> (('w, 'v) shell \<times> bool) option" where
  "shell_line C line sh =
     (let trimmed = trim line;
          sh1 = sh\<lparr>shell_history := shell_history sh @ [trimmed]\<rparr>
      in if trimmed = [] then Some (sh, False)
         else if starts_with ''.'' trimmed then handle_metacommand C trimmed sh1
         else if is_query_sql (ce_lib C) trimmed then
           map_option (\<lambda>sh'. (sh', False))
             (shell_query C trimmed None
                (\<lambda>ms resp. print_query_response (ce_lib C) ms resp (current_format sh1)) sh1)
         else Some (shell_execute C trimmed sh1, False))"

text \<open>The loop over the typed lines; it waits (\<open>None\<close>) when there are no more.\<close>

fun repl_loop ::
  "('w, 'v, 's, 'j) cli_env \<Rightarrow> readline list \<Rightarrow> ('w, 'v) shell \<Rightarrow> ('w, 'v) shell option" where
  "repl_loop C [] sh = None"
| "repl_loop C (Read_Line line # rest) sh =
     (case shell_line C line sh of
        None \<Rightarrow> None
      | Some (sh', stop) \<Rightarrow> if stop then Some sh' else repl_loop C rest sh')"
| "repl_loop C (Read_Interrupted # rest) sh = repl_loop C rest (say [Stdout ''^C''] sh)"
| "repl_loop C (Read_Eof # rest) sh = Some (say [Stdout []] sh)"
| "repl_loop C (Read_Error e # rest) sh = Some (say [Stderr (''Readline error: '' @ e)] sh)"

definition dirs_next_history_path :: "('w, 'v, 's, 'j) cli_env \<Rightarrow> string option" where
  "dirs_next_history_path C = map_option (\<lambda>h. path_join h ''.rsqlite_history'') (env_var C ''HOME'')"

definition run_repl ::
  "('w, 'v, 's, 'j) cli_env \<Rightarrow> string \<Rightarrow> output_format \<Rightarrow> ('w, 'v) session \<Rightarrow>
     (('w, 'v) shell \<times> unit res) option" where
  "run_repl C initial_db initial_format s =
     (let sh = \<lparr>session_of = s, shell_output = [], current_db = initial_db,
                current_format = initial_format, shell_history = [], saved_to = None\<rparr>
      in case editor_error C of
           Some e \<Rightarrow> Some (sh, Inl (Protocol (''failed to initialize readline: '' @ e)))
         | None \<Rightarrow>
             map_option (\<lambda>sh'. (sh'\<lparr>saved_to := dirs_next_history_path C\<rparr>, Inr ()))
               (repl_loop C (typed C)
                 (say [Stdout ''rsqlite-rsync SQL Gateway Interactive Shell'',
                       Stdout ''Type .help for instructions, .quit to exit.''] sh)))"

section \<open>Commands\<close>

definition confirm_drop_database :: "('w, 'v, 's, 'j) cli_env \<Rightarrow> string \<Rightarrow> printed list \<times> bool res" where
  "confirm_drop_database C database =
     ([Prompt (''This will permanently delete database '' @ quoted_text database @
        ''. Continue? [y/N] '')],
      case flush_error C of
        Some e \<Rightarrow> Inl (Protocol (''failed to flush stdout: '' @ e))
      | None \<Rightarrow>
          (case confirmation C of
             Inl e \<Rightarrow> Inl (Protocol (''failed to read confirmation: '' @ e))
           | Inr input \<Rightarrow> Inr (to_lowercase (ce_lib C) (trim input) \<in> {''y'', ''yes''})))"

text \<open>What a command leaves: the session, the lines printed, its result.\<close>

type_synonym ('w, 'v) command_end = "('w, 'v) session \<times> printed list \<times> unit res"

definition printed_result ::
  "('w, 'v) session \<Rightarrow> ('a \<Rightarrow> printed list) \<Rightarrow> 'a res \<Rightarrow> ('w, 'v) command_end" where
  "printed_result s show r =
     (case r of Inl e \<Rightarrow> (s, [], Inl e) | Inr a \<Rightarrow> (s, show a, Inr ()))"

definition command_exec ::
  "('w, 'v, 's, 'j) cli_env \<Rightarrow> string \<Rightarrow> string \<Rightarrow> parameters option \<Rightarrow> ('w, 'v) session \<Rightarrow>
     ('w, 'v) command_end" where
  "command_exec C database sql ps s =
     (let (s', r) = cli_execute C database sql ps s
      in printed_result s' (print_execute_response (ms_of C s')) r)"

definition command_query ::
  "('w, 'v, 's, 'j) cli_env \<Rightarrow> string \<Rightarrow> string \<Rightarrow> parameters option \<Rightarrow> output_format \<Rightarrow> u32 \<Rightarrow>
     consistency_level \<Rightarrow> ('w, 'v) session \<Rightarrow> ('w, 'v) command_end option" where
  "command_query C database sql ps f max_rows level s =
     map_option (\<lambda>(s', r). printed_result s'
         (\<lambda>resp. print_query_response (ce_lib C) (ms_of C s') resp f) r)
       (cli_query C database sql ps max_rows level s)"

definition batch_text ::
  "('w, 'v, 's, 'j) cli_env \<Rightarrow> string option \<Rightarrow> string option \<Rightarrow> ('w, 'v) session \<Rightarrow> string res" where
  "batch_text C file sql s =
     (case file of
        Some path \<Rightarrow>
          (case file_text C path s of
             Inl e \<Rightarrow> Inl (Protocol (''failed to read SQL file '' @ path @ '': '' @ e))
           | Inr content \<Rightarrow> Inr content)
      | None \<Rightarrow>
          (case sql of
             Some t \<Rightarrow> Inr t
           | None \<Rightarrow>
               Inl (Protocol ''either --file or --sql must be provided for batch execution'')))"

definition command_batch ::
  "('w, 'v, 's, 'j) cli_env \<Rightarrow> string \<Rightarrow> string option \<Rightarrow> string option \<Rightarrow> cli_tx_mode \<Rightarrow> bool \<Rightarrow>
     ('w, 'v) session \<Rightarrow> ('w, 'v) command_end option" where
  "command_batch C database file sql tx_mode stop_on_error s =
     (case batch_text C file sql s of
        Inl e \<Rightarrow> Some (s, [], Inl e)
      | Inr content \<Rightarrow>
          (let statements = split_sql_statements content
           in if statements = [] then Some (s, [Stdout ''No statements to execute.''], Inr ())
              else
                map_option (\<lambda>(s', r). printed_result s' (print_batch_response (ms_of C s')) r)
                  (cli_batch C database statements (batch_mode_of tx_mode) stop_on_error s)))"

definition command_drop ::
  "('w, 'v, 's, 'j) cli_env \<Rightarrow> string \<Rightarrow> bool \<Rightarrow> ('w, 'v) session \<Rightarrow> ('w, 'v) command_end" where
  "command_drop C database yes s =
     (let (asked, agreed) = (if yes then ([], Inr True) else confirm_drop_database C database)
      in case agreed of
           Inl e \<Rightarrow> (s, asked, Inl e)
         | Inr False \<Rightarrow> (s, asked @ [Stdout ''Aborted.''], Inr ())
         | Inr True \<Rightarrow>
             (let (s', r) = cli_drop_database C database s
              in case r of
                   Inl e \<Rightarrow> (s', asked, Inl e)
                 | Inr resp \<Rightarrow>
                     (s', asked @
                       [Stdout (if dr_existed resp then
                          ''Dropped database '' @ quoted_text database @ '' (generation '' @
                            show_word (dr_generation resp) @ '').''
                        else ''Database '' @ quoted_text database @ '' did not exist.'')], Inr ())))"

definition command_on ::
  "('w, 'v, 's, 'j) cli_env \<Rightarrow> client_command \<Rightarrow> ('w, 'v) session \<Rightarrow> ('w, 'v) command_end option" where
  "command_on C cmd s =
     (case cmd of
        Exec database sql params \<Rightarrow>
          (case parse_cli_parameters (ce_lib C) params of
             Inl e \<Rightarrow> Some (s, [], Inl e)
           | Inr ps \<Rightarrow> Some (command_exec C database sql ps s))
      | Query database sql params f max_rows level \<Rightarrow>
          (case parse_cli_parameters (ce_lib C) params of
             Inl e \<Rightarrow> Some (s, [], Inl e)
           | Inr ps \<Rightarrow> command_query C database sql ps f max_rows (consistency_level_of level) s)
      | Batch database file sql tx_mode stop_on_error \<Rightarrow>
          command_batch C database file sql tx_mode stop_on_error s
      | Status f \<Rightarrow>
          (let (s', r) = cli_status C s
           in Some (printed_result s' (\<lambda>st. print_cluster_status (ce_lib C) (now_of C s') st f) r))
      | Repl database f \<Rightarrow>
          map_option (\<lambda>(sh, r). (session_of sh, shell_output sh, r)) (run_repl C database f s)
      | DropDatabase database yes \<Rightarrow> Some (command_drop C database yes s))"

text \<open>A client that cannot be made is an error before any call.\<close>

definition run_client_command ::
  "('w, 'v, 's, 'j) cli_env \<Rightarrow> client_connection_args \<Rightarrow> client_command \<Rightarrow> 'w \<Rightarrow> 'v \<Rightarrow>
     sync_error + ('w, 'v) command_end option" where
  "run_client_command C a cmd w v =
     (case to_client C a of
        Inl e \<Rightarrow> Inl e
      | Inr client \<Rightarrow> Inr (command_on C cmd (client, w, v)))"

definition run_sql_shorthand ::
  "('w, 'v, 's, 'j) cli_env \<Rightarrow> client_connection_args \<Rightarrow> string \<Rightarrow> string \<Rightarrow> output_format \<Rightarrow> 'w \<Rightarrow> 'v \<Rightarrow>
     sync_error + ('w, 'v) command_end option" where
  "run_sql_shorthand C a database sql f w v =
     (case to_client C a of
        Inl e \<Rightarrow> Inl e
      | Inr client \<Rightarrow>
          Inr (if is_query_sql (ce_lib C) sql
               then command_query C database sql None f 0 Strong (client, w, v)
               else Some (command_exec C database sql None (client, w, v))))"

end
