(* ===== verification/Transport.thy ===== *)
theory Transport
  imports Messages
begin

text \<open>
  The byte-stream transports (\<open>src/src/transport/mod.rs\<close>, \<open>local.rs\<close>, \<open>stdio.rs\<close>,
  \<open>ssh.rs\<close>): a message is sent as one frame, and \<open>recv\<close> accumulates whatever chunks the
  stream delivers until a frame is complete. The stream is a list of read results, each an
  I/O error or the bytes of one \<open>read\<close> (no bytes at end of file). The three transports share
  the loop and differ in the text for a closed connection.

  Shown: a frame decodes to its message whatever follows it (\<open>decode_encode\<close>); an
  incomplete frame is left in the buffer; and however the stream is cut into chunks, the
  receiver yields exactly the messages sent, in order (\<open>recv_n_frames\<close>).
\<close>

section \<open>Operations\<close>

definition try_take_framed_message :: "bincode \<Rightarrow> bytes \<Rightarrow> (message option \<times> bytes) res" where
  "try_take_framed_message B buf =
     (if length buf < 4 then Inr (None, buf)
      else
        let payload_len = from_le_bytes (take 4 buf) in
        if payload_len > MAX_MESSAGE_SIZE then
          Inl (Codec (''message frame exceeds max size: '' @ show_nat payload_len @ '' > '' @
            show_nat MAX_MESSAGE_SIZE))
        else if length buf < 4 + payload_len then Inr (None, buf)
        else
          (case decode B buf of
             Inl e \<Rightarrow> Inl e
           | Inr (msg, consumed) \<Rightarrow> Inr (Some msg, drop consumed buf)))"

text \<open>
  The \<open>recv\<close> loop. \<open>None\<close>: the stream has delivered nothing more yet and the call still
  waits. Otherwise the result, the buffer left in the transport and the reads not done.
\<close>

fun stream_recv ::
  "bincode \<Rightarrow> string \<Rightarrow> bytes \<Rightarrow> (string + bytes) list \<Rightarrow>
     (message res \<times> bytes \<times> (string + bytes) list) option" where
  "stream_recv B closed buf reads =
     (case try_take_framed_message B buf of
        Inl e \<Rightarrow> Some (Inl e, buf, reads)
      | Inr (Some msg, buf') \<Rightarrow> Some (Inr msg, buf', reads)
      | Inr (None, _) \<Rightarrow>
          (case reads of
             [] \<Rightarrow> None
           | Inl e # rest \<Rightarrow> Some (Inl (Io e), buf, rest)
           | Inr tmp # rest \<Rightarrow>
               if tmp = [] then Some (Inl (Protocol closed), buf, rest)
               else stream_recv B closed (buf @ tmp) rest))"

declare stream_recv.simps [simp del]

definition local_recv ::
  "bincode \<Rightarrow> bytes \<Rightarrow> (string + bytes) list \<Rightarrow>
     (message res \<times> bytes \<times> (string + bytes) list) option" where
  "local_recv B = stream_recv B ''connection closed unexpectedly''"

definition stdio_recv ::
  "bincode \<Rightarrow> bytes \<Rightarrow> (string + bytes) list \<Rightarrow>
     (message res \<times> bytes \<times> (string + bytes) list) option" where
  "stdio_recv B = stream_recv B ''connection closed unexpectedly''"

text \<open>The SSH transport drops its child's output on \<open>close\<close>; reading after that is refused.\<close>

definition ssh_recv ::
  "bincode \<Rightarrow> bool \<Rightarrow> bytes \<Rightarrow> (string + bytes) list \<Rightarrow>
     (message res \<times> bytes \<times> (string + bytes) list) option" where
  "ssh_recv B stdout_open buf reads =
     (if stdout_open then stream_recv B ''SSH connection closed unexpectedly'' buf reads
      else
        (case try_take_framed_message B buf of
           Inl e \<Rightarrow> Some (Inl e, buf, reads)
         | Inr (Some msg, buf') \<Rightarrow> Some (Inr msg, buf', reads)
         | Inr (None, _) \<Rightarrow> Some (Inl (Protocol ''SSH transport is closed''), buf, reads)))"

text \<open>
  Sending writes the frame to the stream: the bytes in flight grow by it, unless the codec
  or the stream (\<open>io\<close>) fails.
\<close>

definition local_send :: "bincode \<Rightarrow> string option \<Rightarrow> bytes \<Rightarrow> message \<Rightarrow> bytes res" where
  "local_send B io flight msg =
     (case encode B msg of
        Inl e \<Rightarrow> Inl e
      | Inr bs \<Rightarrow> (case io of Some e \<Rightarrow> Inl (Io e) | None \<Rightarrow> Inr (flight @ bs)))"

definition stdio_send ::
  "bincode \<Rightarrow> string option \<Rightarrow> string option \<Rightarrow> bytes \<Rightarrow> message \<Rightarrow> bytes res" where
  "stdio_send B io_write io_flush flight msg =
     (case encode B msg of
        Inl e \<Rightarrow> Inl e
      | Inr bs \<Rightarrow>
          (case io_write of
             Some e \<Rightarrow> Inl (Io e)
           | None \<Rightarrow> (case io_flush of Some e \<Rightarrow> Inl (Io e) | None \<Rightarrow> Inr (flight @ bs))))"

definition ssh_send ::
  "bincode \<Rightarrow> bool \<Rightarrow> string option \<Rightarrow> bytes \<Rightarrow> message \<Rightarrow> bytes res" where
  "ssh_send B stdin_open io flight msg =
     (case encode B msg of
        Inl e \<Rightarrow> Inl e
      | Inr bs \<Rightarrow>
          if \<not> stdin_open then Inl (Protocol ''SSH transport is closed'')
          else (case io of Some e \<Rightarrow> Inl (Io e) | None \<Rightarrow> Inr (flight @ bs)))"

text \<open>A client of the transport: receive \<open>n\<close> messages one after the other.\<close>

fun recv_n ::
  "bincode \<Rightarrow> string \<Rightarrow> nat \<Rightarrow> bytes \<Rightarrow> (string + bytes) list \<Rightarrow>
     (message list \<times> bytes \<times> (string + bytes) list) option" where
  "recv_n B closed 0 buf reads = Some ([], buf, reads)"
| "recv_n B closed (Suc n) buf reads =
     (case stream_recv B closed buf reads of
        Some (Inr msg, buf', reads') \<Rightarrow>
          (case recv_n B closed n buf' reads' of
             Some (msgs, r) \<Rightarrow> Some (msg # msgs, r) | None \<Rightarrow> None)
      | _ \<Rightarrow> None)"

text \<open>The sending side: messages sent one after the other on a stream that does not fail.\<close>

fun send_n :: "bincode \<Rightarrow> bytes \<Rightarrow> message list \<Rightarrow> bytes res" where
  "send_n B flight [] = Inr flight"
| "send_n B flight (m # ms) =
     (case local_send B None flight m of Inl e \<Rightarrow> Inl e | Inr f \<Rightarrow> send_n B f ms)"

definition within_bound :: "bincode \<Rightarrow> message \<Rightarrow> bool" where
  "within_bound B m \<longleftrightarrow>
     (case encode_to_vec B m of Inr payload \<Rightarrow> length payload \<le> MAX_MESSAGE_SIZE | Inl _ \<Rightarrow> True)"

section \<open>Frames\<close>

text \<open>\<open>frames B msgs bs\<close>: \<open>bs\<close> is what sending \<open>msgs\<close> puts on the stream, each within the bound.\<close>

definition frame_of :: "bincode \<Rightarrow> message \<Rightarrow> bytes \<Rightarrow> bool" where
  "frame_of B msg bs \<longleftrightarrow>
     (\<exists>payload. encode_to_vec B msg = Inr payload \<and> length payload \<le> MAX_MESSAGE_SIZE \<and>
        encode B msg = Inr bs)"

fun frames :: "bincode \<Rightarrow> message list \<Rightarrow> bytes \<Rightarrow> bool" where
  "frames B [] bs \<longleftrightarrow> bs = []"
| "frames B (m # ms) bs \<longleftrightarrow> (\<exists>f rest. bs = f @ rest \<and> frame_of B m f \<and> frames B ms rest)"

lemma frame_shape:
  assumes "frame_of B msg bs"
  obtains payload where "encode_to_vec B msg = Inr payload" "length payload \<le> MAX_MESSAGE_SIZE"
    "bs = to_le_bytes (of_nat (length payload)) @ payload"
    "from_le_bytes (take 4 (bs @ rest)) = length payload"
proof -
  from assms obtain payload where p: "encode_to_vec B msg = Inr payload"
    "length payload \<le> MAX_MESSAGE_SIZE" "encode B msg = Inr bs"
    by (auto simp: frame_of_def)
  then have bs: "bs = to_le_bytes (of_nat (length payload)) @ payload"
    by (simp add: encode_def)
  have "length payload < 4294967296"
    using p(2) by (simp add: MAX_MESSAGE_SIZE_def)
  then have "from_le_bytes (take 4 (bs @ rest)) = length payload"
    by (simp add: bs from_to_le_bytes unat_u32_of_nat)
  with p bs that show thesis by blast
qed

lemma decode_encode:
  assumes "bincode_roundtrip B" and "frame_of B msg bs"
  shows "decode B (bs @ rest) = Inr (msg, length bs)"
proof -
  obtain payload where p: "encode_to_vec B msg = Inr payload" "length payload \<le> MAX_MESSAGE_SIZE"
    "bs = to_le_bytes (of_nat (length payload)) @ payload"
    "from_le_bytes (take 4 (bs @ rest)) = length payload"
    using frame_shape [OF assms(2)] by blast
  from assms(1) p(1) obtain n where "decode_from_slice B payload = Inr (msg, n)"
    by (auto simp: bincode_roundtrip_def)
  with p(2-4) show ?thesis by (simp add: decode_def Let_def)
qed

lemma take_complete:
  assumes "bincode_roundtrip B" and "frame_of B msg bs"
  shows "try_take_framed_message B (bs @ rest) = Inr (Some msg, rest)"
proof -
  obtain payload where "length payload \<le> MAX_MESSAGE_SIZE"
    "bs = to_le_bytes (of_nat (length payload)) @ payload"
    "from_le_bytes (take 4 (bs @ rest)) = length payload"
    using frame_shape [OF assms(2)] by blast
  with decode_encode [OF assms, of rest] show ?thesis
    by (simp add: try_take_framed_message_def Let_def)
qed

lemma take_incomplete:
  assumes "frame_of B msg (buf @ missing)" and "missing \<noteq> []"
  shows "try_take_framed_message B buf = Inr (None, buf)"
proof (cases "length buf < 4")
  case False
  obtain payload where p: "length payload \<le> MAX_MESSAGE_SIZE"
    "buf @ missing = to_le_bytes (of_nat (length payload)) @ payload"
    "from_le_bytes (take 4 ((buf @ missing) @ [])) = length payload"
    using frame_shape [OF assms(1)] by blast
  from p(2) have "length buf + length missing = 4 + length payload"
    by (metis length_append length_to_le_bytes)
  with assms(2) have "length buf < 4 + length payload" by (cases missing) simp_all
  moreover from False p(3) have "from_le_bytes (take 4 buf) = length payload" by simp
  ultimately show ?thesis using False p(1) by (simp add: try_take_framed_message_def Let_def)
qed (simp add: try_take_framed_message_def)

section \<open>Reassembly\<close>

lemma stream_recv_frame:
  assumes B: "bincode_roundtrip B" and f: "frame_of B msg f"
    and "buf @ concat chunks = f @ rest" and "[] \<notin> set chunks"
  shows "\<exists>buf' chunks'. stream_recv B closed buf (map Inr chunks) =
           Some (Inr msg, buf', map Inr chunks') \<and>
         buf' @ concat chunks' = rest \<and> [] \<notin> set chunks'"
  using assms(3,4)
proof (induction chunks arbitrary: buf)
  case Nil
  then have "buf = f @ rest" by simp
  with take_complete [OF B f, of rest] show ?case
    by (auto simp: stream_recv.simps intro!: exI [of _ "[]"])
next
  case (Cons c chunks)
  show ?case
  proof (cases "length f \<le> length buf")
    case True
    with Cons.prems(1) obtain r where buf: "buf = f @ r" "rest = r @ concat (c # chunks)"
      by (auto simp: append_eq_append_conv2)
    with take_complete [OF B f, of r] Cons.prems(2) show ?thesis
      by (subst stream_recv.simps) (auto intro!: exI [of _ "c # chunks"])
  next
    case False
    with Cons.prems(1) obtain missing where "f = buf @ missing" "missing \<noteq> []"
      by (auto simp: append_eq_append_conv2)
    with f have "try_take_framed_message B buf = Inr (None, buf)"
      by (auto intro: take_incomplete)
    with Cons.IH [of "buf @ c"] Cons.prems show ?thesis
      by (subst stream_recv.simps) auto
  qed
qed

lemma recv_n_frames:
  assumes B: "bincode_roundtrip B" and "frames B msgs bs"
    and "buf @ concat chunks = bs" and "[] \<notin> set chunks"
  shows "recv_n B closed (length msgs) buf (map Inr chunks) = Some (msgs, [], [])"
  using assms(2-4)
proof (induction msgs arbitrary: bs buf chunks)
  case Nil
  then show ?case by (cases chunks) auto
next
  case (Cons m msgs)
  then obtain f rest where f: "bs = f @ rest" "frame_of B m f" "frames B msgs rest" by auto
  with Cons.prems stream_recv_frame [OF B f(2), of buf chunks rest closed]
  obtain buf' chunks' where r: "stream_recv B closed buf (map Inr chunks) =
      Some (Inr m, buf', map Inr chunks')" "buf' @ concat chunks' = rest" "[] \<notin> set chunks'"
    by auto
  from Cons.IH [OF f(3) r(2,3)] r(1) show ?case by auto
qed

lemma send_n_frames:
  assumes "send_n B flight msgs = Inr bs" and "\<forall>m \<in> set msgs. within_bound B m"
  shows "\<exists>rest. bs = flight @ rest \<and> frames B msgs rest"
  using assms
proof (induction msgs arbitrary: flight)
  case (Cons m msgs)
  then obtain f where f: "local_send B None flight m = Inr f" "send_n B f msgs = Inr bs"
    by (auto split: sum.splits)
  then obtain frame where frame: "encode B m = Inr frame" "f = flight @ frame"
    by (auto simp: local_send_def split: sum.splits)
  with Cons.prems(2) have "frame_of B m frame"
    by (auto simp: frame_of_def encode_def within_bound_def split: sum.splits)
  with Cons.IH [OF f(2)] Cons.prems(2) frame(2) show ?case by auto
qed simp

lemma oversized_frame:
  assumes "encode_to_vec B m = Inr payload" and "MAX_MESSAGE_SIZE < length payload"
    and "length payload < 4294967296"
  shows "\<exists>bs. encode B m = Inr bs \<and> (\<exists>e. try_take_framed_message B (bs @ rest) = Inl (Codec e))"
proof -
  let ?bs = "to_le_bytes (of_nat (length payload)) @ payload"
  have "from_le_bytes (take 4 (?bs @ rest)) = length payload"
    using assms(3) by (simp add: from_to_le_bytes unat_u32_of_nat)
  with assms(1,2) show ?thesis
    by (intro exI [of _ ?bs]) (simp add: encode_def try_take_framed_message_def Let_def)
qed

end
