(* ===== verification/Ssh.thy ===== *)
theory Ssh
  imports Transport
begin

text \<open>
  Launching the remote end over SSH and taking it down (\<open>src/src/transport/ssh.rs\<close>); sending and
  receiving are in \<open>Transport\<close>.

  What the operating system answers is the record \<open>ssh_env\<close>: the clock and the process number, the
  end of the authentication check and the launch, each a function of the arguments. A transport
  knows whether its child runs, which pipes are open, and the control socket; \<open>sockets\<close> are the
  socket files that exist.

  Shown: the control socket's path is short; only the check of an interactive connection may ask
  for a password; \<open>close\<close> ends the child, removes the socket and refuses further messages.
\<close>

section \<open>Connecting\<close>

datatype ssh_auth_mode = NonInteractive | Interactive

record ssh_connect_options =
  auth_mode :: ssh_auth_mode
  connect_timeout_secs :: u32

definition default_ssh_options :: ssh_connect_options where
  "default_ssh_options = \<lparr>auth_mode = NonInteractive, connect_timeout_secs = 10\<rparr>"

text \<open>A status is whether it is a success, and its text. A child has or lacks the two pipes.\<close>

record ssh_env =
  millis :: nat
  process_id :: u32
  auth_status :: "string list \<Rightarrow> string + bool \<times> string"
  spawn :: "string list \<Rightarrow> string + bool \<times> bool"

record ssh_transport =
  child_runs :: bool
  stdin_open :: bool
  stdout_open :: bool
  ssh_buf :: bytes
  control_path :: "string option"

definition is_ascii_alphanumeric :: "char \<Rightarrow> bool" where
  "is_ascii_alphanumeric c \<longleftrightarrow>
     (let n = of_char c :: nat
      in 48 \<le> n \<and> n \<le> 57 \<or> 65 \<le> n \<and> n \<le> 90 \<or> 97 \<le> n \<and> n \<le> 122)"

definition control_path_for :: "ssh_env \<Rightarrow> string \<Rightarrow> string" where
  "control_path_for S user_host =
     (let host_tag = take 12 (filter is_ascii_alphanumeric user_host)
      in ''/tmp/rrs-'' @ show_word (process_id S) @ ''-'' @ show_nat (millis S mod 1000000) @ ''-'' @
         host_tag @ ''.ctl'')"

definition build_common_ssh_args ::
  "string list \<Rightarrow> u32 \<Rightarrow> bool \<Rightarrow> string option \<Rightarrow> string option \<Rightarrow> string option \<Rightarrow> string list" where
  "build_common_ssh_args ssh_opts timeout_secs batch_mode path control_master control_persist =
     ssh_opts @
     [''-o'', ''ConnectTimeout='' @ show_word timeout_secs,
      ''-o'', if batch_mode then ''BatchMode=yes'' else ''BatchMode=no'',
      ''-o'', if batch_mode then ''NumberOfPasswordPrompts=0'' else ''NumberOfPasswordPrompts=3''] @
     (case control_master of Some m \<Rightarrow> [''-o'', ''ControlMaster='' @ m] | None \<Rightarrow> []) @
     (case control_persist of Some p \<Rightarrow> [''-o'', ''ControlPersist='' @ p] | None \<Rightarrow> []) @
     (case path of Some p \<Rightarrow> [''-o'', ''ControlPath='' @ p] | None \<Rightarrow> [])"

definition authenticate_args ::
  "string \<Rightarrow> string list \<Rightarrow> ssh_connect_options \<Rightarrow> string option \<Rightarrow> string list" where
  "authenticate_args user_host ssh_opts opts path =
     build_common_ssh_args ssh_opts (connect_timeout_secs opts) (auth_mode opts = NonInteractive) path
       (if path \<noteq> None then Some ''auto'' else None) (if path \<noteq> None then Some ''60'' else None) @
     [user_host, ''true'']"

definition authenticate ::
  "ssh_env \<Rightarrow> string \<Rightarrow> string list \<Rightarrow> ssh_connect_options \<Rightarrow> string option \<Rightarrow> unit res" where
  "authenticate S user_host ssh_opts opts path =
     (case auth_status S (authenticate_args user_host ssh_opts opts path) of
        Inl e \<Rightarrow> Inl (RemoteLaunch (''ssh authentication check failed: '' @ e))
      | Inr (success, st) \<Rightarrow>
          if success then Inr ()
          else
            (let hint =
                   (if auth_mode opts = NonInteractive then
                      ''non-interactive SSH authentication failed; configure key-based auth '' @
                      ''or use --ssh-auth interactive''
                    else ''interactive SSH authentication failed'')
             in Inl (RemoteLaunch (hint @ '' (ssh exit status: '' @ st @ '')''))))"

definition launch_args ::
  "string \<Rightarrow> string \<Rightarrow> string \<Rightarrow> string \<Rightarrow> string list \<Rightarrow> ssh_connect_options \<Rightarrow> string option \<Rightarrow>
     string list" where
  "launch_args user_host remote_path remote_exe server_flag ssh_opts opts path =
     build_common_ssh_args ssh_opts (connect_timeout_secs opts) True path
       (if path \<noteq> None then Some ''no'' else None) None @
     [user_host, remote_exe, server_flag, remote_path]"

definition ssh_connect ::
  "ssh_env \<Rightarrow> string \<Rightarrow> string \<Rightarrow> string \<Rightarrow> string \<Rightarrow> string list \<Rightarrow> ssh_connect_options \<Rightarrow>
     ssh_transport res" where
  "ssh_connect S user_host remote_path remote_exe server_flag ssh_opts opts =
     (let path = (if auth_mode opts = Interactive then Some (control_path_for S user_host) else None)
      in case authenticate S user_host ssh_opts opts path of
           Inl e \<Rightarrow> Inl e
         | Inr _ \<Rightarrow>
             (case spawn S (launch_args user_host remote_path remote_exe server_flag ssh_opts opts path) of
                Inl e \<Rightarrow> Inl (RemoteLaunch (''ssh spawn failed: '' @ e))
              | Inr (has_stdin, has_stdout) \<Rightarrow>
                  if \<not> has_stdin then Inl (RemoteLaunch ''no stdin'')
                  else if \<not> has_stdout then Inl (RemoteLaunch ''no stdout'')
                  else Inr \<lparr>child_runs = True, stdin_open = True, stdout_open = True, ssh_buf = [],
                            control_path = path\<rparr>))"

section \<open>Closing\<close>

text \<open>The removal of a file may fail without notice; \<open>removable\<close> says for which it succeeds.\<close>

definition cleanup_control_path :: "(string \<Rightarrow> bool) \<Rightarrow> ssh_transport \<Rightarrow> string set \<Rightarrow> string set" where
  "cleanup_control_path removable t sockets =
     (case control_path t of
        Some path \<Rightarrow> if removable path then sockets - {path} else sockets
      | None \<Rightarrow> sockets)"

text \<open>\<open>kill_and_wait\<close> says whether the child is gone after them; their errors are dropped.\<close>

definition reap_child ::
  "string option \<Rightarrow> bool \<Rightarrow> ssh_transport \<Rightarrow> ssh_transport \<times> unit res" where
  "reap_child try_wait_error kill_and_wait t =
     (case try_wait_error of
        Some e \<Rightarrow> (t, Inl (Io e))
      | None \<Rightarrow>
          if child_runs t then (t\<lparr>child_runs := \<not> kill_and_wait\<rparr>, Inr ()) else (t, Inr ()))"

definition ssh_close ::
  "(string \<Rightarrow> bool) \<Rightarrow> string option \<Rightarrow> bool \<Rightarrow> ssh_transport \<times> string set \<Rightarrow>
     (ssh_transport \<times> string set) \<times> unit res" where
  "ssh_close removable try_wait_error kill_and_wait st =
     (case st of (t, sockets) \<Rightarrow>
        let t1 = t\<lparr>stdin_open := False, stdout_open := False\<rparr>;
            (t2, r) = reap_child try_wait_error kill_and_wait t1
        in ((t2, cleanup_control_path removable t2 sockets), r))"

definition ssh_drop ::
  "(string \<Rightarrow> bool) \<Rightarrow> bool \<Rightarrow> ssh_transport \<times> string set \<Rightarrow> ssh_transport \<times> string set" where
  "ssh_drop removable killed st =
     (case st of (t, sockets) \<Rightarrow>
        (t\<lparr>child_runs := child_runs t \<and> \<not> killed\<rparr>, cleanup_control_path removable t sockets))"

section \<open>Facts\<close>

lemma show_nat_length: "n < 10 ^ d \<Longrightarrow> 0 < d \<Longrightarrow> length (show_nat n) \<le> d"
proof (induction d arbitrary: n)
  case (Suc d)
  show ?case
  proof (cases "n < 10")
    case True
    then show ?thesis by (subst show_nat.simps) simp
  next
    case False
    then have "0 < d" using Suc.prems(1) by (cases d) auto
    moreover have "n div 10 < 10 ^ d" using Suc.prems(1) by (simp add: less_mult_imp_div_less mult.commute)
    ultimately have "length (show_nat (n div 10)) \<le> d" by (rule Suc.IH [rotated])
    with False show ?thesis by (subst show_nat.simps) simp
  qed
qed simp

text \<open>The control socket's path stays far below the 104 bytes a socket address may have.\<close>

theorem control_path_is_short: "length (control_path_for S user_host) \<le> 43"
proof -
  have "unat (process_id S) < 4294967296" using unsigned_less [of "process_id S"] by simp
  then have "unat (process_id S) < 10 ^ 10" by simp
  then have "length (show_word (process_id S)) \<le> 10"
    unfolding show_word_def by (rule show_nat_length) simp
  moreover have "length (show_nat (millis S mod 1000000)) \<le> 6" by (rule show_nat_length) simp_all
  ultimately show ?thesis by (simp add: control_path_for_def Let_def)
qed

text \<open>
  The arguments of the launch never allow password prompts; those of the check do exactly in
  interactive mode.
\<close>

theorem password_prompts:
  assumes "''NumberOfPasswordPrompts=3'' \<notin> set ssh_opts" and "user_host \<noteq> ''NumberOfPasswordPrompts=3''"
  shows "''NumberOfPasswordPrompts=3'' \<in> set (authenticate_args user_host ssh_opts opts path) \<longleftrightarrow>
      auth_mode opts = Interactive"
    and "\<lbrakk>''NumberOfPasswordPrompts=3'' \<notin> {remote_path, remote_exe, server_flag}\<rbrakk> \<Longrightarrow>
      ''NumberOfPasswordPrompts=3'' \<notin>
        set (launch_args user_host remote_path remote_exe server_flag ssh_opts opts path)"
  using assms
  by (cases "auth_mode opts"; auto simp: authenticate_args_def launch_args_def
      build_common_ssh_args_def split: option.splits)+

text \<open>
  After \<open>close\<close> both pipes are gone and the socket is removed, also when the state of the child
  cannot be read; sending is refused, and so is receiving once no frame is left in the buffer.
\<close>

theorem closed_transport_refuses:
  assumes "ssh_close removable err killed (t, sockets) = ((t', sockets'), r)"
  shows "\<not> stdin_open t'" and "\<not> stdout_open t'"
    and "control_path t = Some p \<Longrightarrow> removable p \<Longrightarrow> p \<notin> sockets'"
    and "err = None \<Longrightarrow> killed \<Longrightarrow> \<not> child_runs t' \<and> r = Inr ()"
    and "encode B msg = Inr bs \<Longrightarrow>
      ssh_send B (stdin_open t') io flight msg = Inl (Protocol ''SSH transport is closed'')"
    and "try_take_framed_message B (ssh_buf t') = Inr (None, rest) \<Longrightarrow>
      ssh_recv B (stdout_open t') (ssh_buf t') reads =
        Some (Inl (Protocol ''SSH transport is closed''), ssh_buf t', reads)"
  using assms
  by (auto simp: ssh_close_def reap_child_def cleanup_control_path_def Let_def ssh_send_def
      ssh_recv_def split: option.splits if_splits)

end
