(* ===== verification/Ha_Loop.thy ===== *)
theory Ha_Loop
  imports Ha Auth
begin

text \<open>
  The high-availability mode of the command line (\<open>run_ha_mode\<close> and its helpers in
  \<open>src/src/main.rs\<close>): argument checks, the executor that publishes the role to the role file,
  the readiness flag and file, and the state shared with the SQL gateway, the startup fence,
  one turn of the control loop, and the answers of the health endpoint.

  A turn is split where the code releases the shared state: \<open>tick_execute\<close> reconciles and runs
  the actions, \<open>tick_publish\<close> publishes the lease. Files, clock, \<open>kubectl\<close> and sockets answer
  through \<open>tick_input\<close> and \<open>ha_env\<close>. A poisoned lock is entered like any other, as in the code.

  Shown: the executor meets the contract \<open>role_executor\<close> for everything it publishes at once;
  after a turn without failures the gateway accepts writes exactly when the controller is a
  writer; a failed \<open>enable_writer\<close> is never repeated.
\<close>

section \<open>Readers\<close>

definition read_freshness_ledger :: "string \<Rightarrow> file_read \<Rightarrow> freshness_ledger option res" where
  "read_freshness_ledger path f =
     (case read_optional_kv_text f of
        Inl e \<Rightarrow> Inl (Protocol (''failed reading freshness file '' @ path @ '': '' @ e))
      | Inr None \<Rightarrow> Inr None
      | Inr (Some text) \<Rightarrow>
          (case parse_freshness_ledger text of
             Inl e \<Rightarrow> Inl (Protocol (''invalid freshness file '' @ path @ '': '' @ e))
           | Inr l \<Rightarrow> Inr (Some l)))"

text \<open>The system clock: seconds since the epoch, or the text of the error.\<close>

definition unix_now_secs :: "string + u64 \<Rightarrow> u64 res" where
  "unix_now_secs clock =
     (case clock of
        Inl e \<Rightarrow> Inl (Protocol (''system clock before unix epoch: '' @ e))
      | Inr t \<Rightarrow> Inr t)"

fun lease_from_observation :: "lease_observation \<Rightarrow> lease_record option" where
  "lease_from_observation Missing = None"
| "lease_from_observation (Acquired l) = Some l"
| "lease_from_observation (Renewed l) = Some l"
| "lease_from_observation (Replaced l) = Some l"
| "lease_from_observation (Unchanged l) = Some l"
| "lease_from_observation (Transferred _ l) = Some l"

datatype any_lease_reader = File_Reader string | Kubernetes_Reader kubectl_reader

fun any_read_lease ::
  "'v json_api \<Rightarrow> file_read \<Rightarrow> (string \<Rightarrow> string list \<Rightarrow> string + command_output) \<Rightarrow>
     any_lease_reader \<Rightarrow> lease_record option kv_result" where
  "any_read_lease J f run (File_Reader _) = file_read_lease f"
| "any_read_lease J f run (Kubernetes_Reader r) = kubectl_read_lease J run r"

section \<open>The executor\<close>

record ready_executor =
  rx_inner :: file_executor
  readiness_path :: "string option"
  readiness_file :: "string option"
  rd_calls :: nat
  rd_fault :: "nat \<Rightarrow> (nat option \<times> string) option"
  readiness_state :: bool
  ha_state :: ha_shared_state

definition write_readiness :: "bool \<Rightarrow> ready_executor \<Rightarrow> ready_executor \<times> string option" where
  "write_readiness ready x =
     (let x' = x\<lparr>readiness_state := ready\<rparr> in
      case readiness_path x of
        None \<Rightarrow> (x', None)
      | Some _ \<Rightarrow>
          (let (f, e) = fs_write (rd_fault x (rd_calls x))
                 ((if ready then ''ready'' else ''not-ready'') @ [CHR 0x0A]) (readiness_file x)
           in (x'\<lparr>readiness_file := f, rd_calls := Suc (rd_calls x)\<rparr>, e)))"

definition initialize_not_ready :: "ready_executor \<Rightarrow> ready_executor \<times> string option" where
  "initialize_not_ready x = write_readiness False x"

definition on_inner ::
  "(file_executor \<Rightarrow> file_executor \<times> string option) \<Rightarrow>
     ready_executor \<Rightarrow> ready_executor \<times> string option" where
  "on_inner f x = (let (i, e) = f (rx_inner x) in (x\<lparr>rx_inner := i\<rparr>, e))"

definition set_state ::
  "(ha_shared_state \<Rightarrow> ha_shared_state) \<Rightarrow> ready_executor \<Rightarrow> ready_executor \<times> string option" where
  "set_state f x = (x\<lparr>ha_state := f (ha_state x)\<rparr>, None)"

abbreviation traced :: "(file_executor, string) executor" where
  "traced \<equiv> tracing_executor file_action_executor"

definition readiness_executor :: "(ready_executor, string) executor" where
  "readiness_executor =
     \<lparr>ensure_replica =
        and_then (on_inner (ensure_replica traced))
          (and_then (write_readiness False) (set_state (\<lambda>s. s\<lparr>sh_role := Replica\<rparr>))),
      enable_writer = (\<lambda>g.
        and_then (on_inner (enable_writer traced g))
          (and_then (write_readiness True)
            (set_state (\<lambda>s. s\<lparr>sh_role := Writer, sh_generation := g\<rparr>)))),
      disable_writer = (\<lambda>reason.
        and_then (on_inner (disable_writer traced reason))
          (and_then (write_readiness False) (set_state (\<lambda>s. s\<lparr>sh_role := Replica\<rparr>)))),
      keep_writer =
        and_then (on_inner (keep_writer traced))
          (and_then (write_readiness True) (set_state (\<lambda>s. s\<lparr>sh_role := Writer\<rparr>))),
      record_promotion_denied = (\<lambda>v.
        and_then (on_inner (record_promotion_denied traced v))
          (and_then (write_readiness False) (set_state (\<lambda>s. s\<lparr>sh_role := Replica\<rparr>))))\<rparr>"

section \<open>Arguments and setup\<close>

datatype ha_lease_source = Source_File | Source_Kubernetes
datatype ha_startup_fence_mode = Permissive | RequireWriter

record ha_args =
  ha_node_id :: "string option"
  ha_lease_source :: ha_lease_source
  ha_lease_file :: "string option"
  ha_kube_lease_name :: "string option"
  ha_kube_namespace :: string
  ha_kube_context :: "string option"
  ha_kubeconfig :: "string option"
  ha_kubectl_path :: string
  ha_freshness_file :: "string option"
  ha_role_state_file :: "string option"
  ha_audit_log_file :: "string option"
  ha_readiness_file :: "string option"
  ha_readiness_http_bind :: "string option"
  ha_grpc_bind :: "string option"
  ha_grpc_auth_token :: "string option"
  ha_grpc_insecure_no_auth :: bool
  ha_data_dir :: "string option"
  ha_allow_replica_reads :: bool
  ha_service_name :: string
  ha_grpc_port :: u16
  ha_tick_interval_ms :: u64
  ha_min_source_generation :: u64
  ha_max_freshness_age_secs :: u64
  ha_max_future_skew_secs :: u64
  ha_continue_on_error :: bool
  ha_startup_fence_mode :: ha_startup_fence_mode

definition ha_lease_reader :: "ha_args \<Rightarrow> any_lease_reader res" where
  "ha_lease_reader args =
     (case ha_lease_source args of
        Source_File \<Rightarrow>
          (case ha_lease_file args of
             None \<Rightarrow> Inl (Protocol ''--ha-lease-file is required when --ha-lease-source=file'')
           | Some f \<Rightarrow> Inr (File_Reader f))
      | Source_Kubernetes \<Rightarrow>
          (case ha_kube_lease_name args of
             None \<Rightarrow>
               Inl (Protocol ''--ha-kube-lease-name is required when --ha-lease-source=kubernetes'')
           | Some name \<Rightarrow>
               Inr (Kubernetes_Reader
                 (set_kubeconfig (ha_kubeconfig args)
                   (set_kube_context (ha_kube_context args)
                     (kubectl_new (ha_kubectl_path args) (ha_kube_namespace args) name))))))"

definition ha_controller_of :: "ha_args \<Rightarrow> string \<Rightarrow> ha_controller" where
  "ha_controller_of args node =
     set_stop_on_error (\<not> ha_continue_on_error args)
       (set_promotion_config
         \<lparr>max_freshness_age_secs = ha_max_freshness_age_secs args,
          max_future_skew_secs = ha_max_future_skew_secs args\<rparr>
         (set_min_source_generation (ha_min_source_generation args) (controller_new node)))"

definition ha_auth_config :: "ha_args \<Rightarrow> auth_config res" where
  "ha_auth_config args =
     (case (ha_grpc_auth_token args, ha_grpc_insecure_no_auth args) of
        (Some _, True) \<Rightarrow>
          Inl (Protocol
            ''--ha-grpc-auth-token and --ha-grpc-insecure-no-auth are mutually exclusive'')
      | (Some t, False) \<Rightarrow>
          if trim t = [] then Inl (Protocol ''--ha-grpc-auth-token must not be empty'')
          else Inr (auth_required t)
      | (None, True) \<Rightarrow> Inr auth_disabled
      | (None, False) \<Rightarrow>
          Inl (Protocol (''--ha-grpc-auth-token (or --ha-grpc-insecure-no-auth to explicitly run '' @
            ''without authentication) is required when --ha-grpc-bind is set'')))"

definition tick_interval_ms :: "ha_args \<Rightarrow> u64" where
  "tick_interval_ms args = max (ha_tick_interval_ms args) 50"

text \<open>
  \<open>tick_interval.saturating_mul(5).max(10s)\<close> in whole seconds, as the health check reads it.
  A duration counts its seconds in a \<open>u64\<close>, so five times a \<open>u64\<close> of milliseconds never saturates.
\<close>

definition healthz_stale_after_secs :: "ha_args \<Rightarrow> u64" where
  "healthz_stale_after_secs args = of_nat (max (5 * unat (tick_interval_ms args) div 1000) 10)"

text \<open>What binding the readiness address, opening the data directory and parsing the address answer.\<close>

record ha_env =
  bind_error :: "string \<Rightarrow> string option"
  engine_error :: "string \<Rightarrow> sync_error option"
  addr_error :: "string \<Rightarrow> string option"

record ha_loop =
  lp_controller :: ha_controller
  lp_reader :: any_lease_reader
  lp_executor :: ready_executor
  lp_auth :: "auth_config option"
  last_tick_secs :: u64

definition start_readiness :: "ha_env \<Rightarrow> ha_args \<Rightarrow> unit res" where
  "start_readiness env args =
     (case ha_readiness_http_bind args of
        None \<Rightarrow> Inr ()
      | Some addr \<Rightarrow>
          (case bind_error env addr of
             None \<Rightarrow> Inr ()
           | Some e \<Rightarrow> Inl (Protocol (''failed binding readiness endpoint '' @ addr @ '': '' @ e))))"

definition start_gateway :: "ha_env \<Rightarrow> ha_args \<Rightarrow> auth_config option res" where
  "start_gateway env args =
     (case ha_grpc_bind args of
        None \<Rightarrow> Inr None
      | Some addr \<Rightarrow>
          (case ha_auth_config args of
             Inl e \<Rightarrow> Inl e
           | Inr auth \<Rightarrow>
               (case engine_error env (case ha_data_dir args of Some d \<Rightarrow> d | None \<Rightarrow> ''.'') of
                  Some e \<Rightarrow> Inl e
                | None \<Rightarrow>
                    (case addr_error env addr of
                       Some e \<Rightarrow>
                         Inl (Protocol (''invalid gRPC bind address '' @ [CHR 0x27] @ addr @
                           [CHR 0x27] @ '': '' @ e))
                     | None \<Rightarrow> Inr (Some auth)))))"

text \<open>
  Everything before the startup fence. \<open>files\<close> is the executor on the files of the arguments,
  with its readiness path, shared state and flag still to be set.
\<close>

definition ha_setup :: "ha_env \<Rightarrow> ha_args \<Rightarrow> ready_executor \<Rightarrow> ha_loop res" where
  "ha_setup env args files =
     (case ha_node_id args of
        None \<Rightarrow> Inl (Protocol ''--ha-node-id is required with --ha'')
      | Some node \<Rightarrow>
     (case ha_role_state_file args of
        None \<Rightarrow> Inl (Protocol ''--ha-role-state-file is required with --ha'')
      | Some _ \<Rightarrow>
     (case ha_audit_log_file args of
        None \<Rightarrow> Inl (Protocol ''--ha-audit-log-file is required with --ha'')
      | Some _ \<Rightarrow>
     (case ha_lease_reader args of
        Inl e \<Rightarrow> Inl e
      | Inr reader \<Rightarrow>
          (let x = files\<lparr>readiness_path := ha_readiness_file args, readiness_state := False,
                     ha_state := shared_new node (ha_allow_replica_reads args)\<rparr>
           in case initialize_not_ready x of
                (x', Some e) \<Rightarrow> Inl (Protocol (''failed writing initial readiness state: '' @ e))
              | (x', None) \<Rightarrow>
                  (case start_readiness env args of
                     Inl e \<Rightarrow> Inl e
                   | Inr _ \<Rightarrow>
                       (case start_gateway env args of
                          Inl e \<Rightarrow> Inl e
                        | Inr auth \<Rightarrow>
                            Inr \<lparr>lp_controller = ha_controller_of args node, lp_reader = reader,
                                 lp_executor = x', lp_auth = auth, last_tick_secs = 0\<rparr>)))))))"

section \<open>The loop\<close>

record tick_input =
  in_freshness :: file_read
  in_clock :: "string + u64"
  in_lease_file :: file_read
  in_kubectl :: "string \<Rightarrow> string list \<Rightarrow> string + command_output"

definition refresh_freshness ::
  "ha_args \<Rightarrow> tick_input \<Rightarrow> ha_controller \<Rightarrow> ha_controller res" where
  "refresh_freshness args inp c =
     (case ha_freshness_file args of
        None \<Rightarrow> Inr c
      | Some path \<Rightarrow>
          (case read_freshness_ledger path (in_freshness inp) of
             Inl e \<Rightarrow> Inl e
           | Inr (Some f) \<Rightarrow> Inr (ctl_update_freshness f c)
           | Inr None \<Rightarrow> Inr (c\<lparr>ctl_runtime := clear_freshness (ctl_runtime c)\<rparr>)))"

text \<open>Freshness, clock, reconcile and actions: the outcome and the time of the turn.\<close>

definition tick_execute ::
  "'v json_api \<Rightarrow> ha_args \<Rightarrow> tick_input \<Rightarrow> ha_loop \<Rightarrow>
     (ha_loop \<times> u64 \<times> (string, string) controller_tick_outcome) res" where
  "tick_execute J args inp L =
     (case refresh_freshness args inp (lp_controller L) of
        Inl e \<Rightarrow> Inl e
      | Inr c \<Rightarrow>
          (case unix_now_secs (in_clock inp) of
             Inl e \<Rightarrow> Inl e
           | Inr now_secs \<Rightarrow>
               (let (c', x', out) = tick_with_reader readiness_executor now_secs
                      (any_read_lease J (in_lease_file inp) (in_kubectl inp) (lp_reader L))
                      c (lp_executor L)
                in Inr (L\<lparr>lp_controller := c', lp_executor := x'\<rparr>, now_secs, out))))"

definition lease_of_outcome ::
  "('r, 'e) controller_tick_outcome \<Rightarrow> lease_record option" where
  "lease_of_outcome out =
     (case out of
        Executed rep \<Rightarrow> lease_from_observation (observation (outcome (report_plan rep)))
      | LeaseReadFailed _ _ \<Rightarrow> None)"

definition publish_lease ::
  "ha_args \<Rightarrow> lease_record option \<Rightarrow> ha_shared_state \<Rightarrow> ha_shared_state" where
  "publish_lease args current_lease s =
     (case current_lease of
        Some l \<Rightarrow>
          s\<lparr>lease_of := current_lease, active_leader_id := Some (holder_node_id l),
            active_leader_endpoint :=
              Some (''http://'' @ holder_node_id l @
                (if ha_service_name args \<noteq> [] then ''.'' @ ha_service_name args else []) @
                '':'' @ show_word (ha_grpc_port args))\<rparr>
      | None \<Rightarrow>
          s\<lparr>lease_of := None, active_leader_id := None, active_leader_endpoint := None\<rparr>)"

definition tick_publish ::
  "ha_args \<Rightarrow> u64 \<Rightarrow> ('r, 'e) controller_tick_outcome \<Rightarrow> ha_loop \<Rightarrow> ha_loop" where
  "tick_publish args now_secs out L =
     (let x = lp_executor L
      in L\<lparr>lp_executor := x\<lparr>ha_state := publish_lease args (lease_of_outcome out) (ha_state x)\<rparr>,
           last_tick_secs := now_secs\<rparr>)"

definition ha_tick :: "'v json_api \<Rightarrow> ha_args \<Rightarrow> tick_input \<Rightarrow> ha_loop \<Rightarrow> ha_loop res" where
  "ha_tick J args inp L =
     (case tick_execute J args inp L of
        Inl e \<Rightarrow> Inl e
      | Inr (L', now_secs, out) \<Rightarrow> Inr (tick_publish args now_secs out L'))"

text \<open>
  The loop over the inputs of its turns; it ends with an error, or with Ctrl-C after the last
  of them.
\<close>

fun ha_loop_run ::
  "'v json_api \<Rightarrow> ha_args \<Rightarrow> tick_input list \<Rightarrow> ha_loop \<Rightarrow> ha_loop \<times> sync_error option" where
  "ha_loop_run J args [] L = (L, None)"
| "ha_loop_run J args (inp # inps) L =
     (case ha_tick J args inp L of
        Inl e \<Rightarrow> (L, Some e)
      | Inr L' \<Rightarrow> ha_loop_run J args inps L')"

section \<open>The startup fence\<close>

fun debug_decision :: "reconcile_decision \<Rightarrow> string" where
  "debug_decision KeepReplica = ''KeepReplica''"
| "debug_decision (PromoteToWriter g) = ''PromoteToWriter { generation: '' @ show_word g @ '' }''"
| "debug_decision KeepWriter = ''KeepWriter''"
| "debug_decision (DemoteToReplica r) = ''DemoteToReplica { reason: '' @ debug_demotion r @ '' }''"

definition startup_verdict :: "(string, 'e) controller_tick_outcome \<Rightarrow> unit res" where
  "startup_verdict out =
     (case out of
        Executed rep \<Rightarrow>
          (let d = decision (outcome (report_plan rep)) in
           if \<not> (case d of PromoteToWriter _ \<Rightarrow> True | KeepWriter \<Rightarrow> True | _ \<Rightarrow> False) then
             Inl (Protocol (''startup fence blocked writer startup: decision='' @ debug_decision d))
           else if \<not> is_success rep then
             Inl (Protocol (''startup fence writer actions failed: '' @
               show_nat (length (failures rep)) @ '' failures''))
           else Inr ())
      | LeaseReadFailed e _ \<Rightarrow> Inl (Protocol (''startup fence lease read failed: '' @ e)))"

definition startup_fence ::
  "'v json_api \<Rightarrow> ha_args \<Rightarrow> tick_input \<Rightarrow> ha_loop \<Rightarrow> ha_loop \<times> sync_error option" where
  "startup_fence J args inp L =
     (if ha_startup_fence_mode args = RequireWriter then
        (case tick_execute J args inp L of
           Inl e \<Rightarrow> (L, Some e)
         | Inr (L', _, out) \<Rightarrow>
             (L', case startup_verdict out of Inl e \<Rightarrow> Some e | Inr _ \<Rightarrow> None))
      else (L, None))"

text \<open>
  How the two server tasks end once Ctrl-C has stopped the loop, and \<open>run_ha_mode\<close>: setup,
  startup fence on the first input, the loop, and the shutdown.
\<close>

datatype task_end = Task_Ok | Task_Failed string | Task_Join_Failed string

definition shutdown_servers :: "task_end option \<Rightarrow> task_end option \<Rightarrow> sync_error option" where
  "shutdown_servers readiness_server grpc_server =
     (case readiness_server of
        Some (Task_Failed e) \<Rightarrow> Some (Protocol (''readiness http server failed: '' @ e))
      | Some (Task_Join_Failed e) \<Rightarrow>
          Some (Protocol (''readiness http server task join failed: '' @ e))
      | _ \<Rightarrow>
          (case grpc_server of
             Some (Task_Failed e) \<Rightarrow> Some (Protocol (''gRPC server failed: '' @ e))
           | Some (Task_Join_Failed e) \<Rightarrow> Some (Protocol (''gRPC server task join failed: '' @ e))
           | _ \<Rightarrow> None))"

definition run_ha_mode ::
  "'v json_api \<Rightarrow> ha_env \<Rightarrow> ha_args \<Rightarrow> ready_executor \<Rightarrow> tick_input \<Rightarrow> tick_input list \<Rightarrow>
     task_end option \<Rightarrow> task_end option \<Rightarrow> sync_error option \<times> ha_loop option" where
  "run_ha_mode J env args files first inps readiness_server grpc_server =
     (case ha_setup env args files of
        Inl e \<Rightarrow> (Some e, None)
      | Inr L \<Rightarrow>
          (case startup_fence J args first L of
             (L', Some e) \<Rightarrow> (Some e, Some L')
           | (L', None) \<Rightarrow>
               (case ha_loop_run J args inps L' of
                  (L'', Some e) \<Rightarrow> (Some e, Some L'')
                | (L'', None) \<Rightarrow> (shutdown_servers readiness_server grpc_server, Some L''))))"

section \<open>The health endpoint\<close>

text \<open>
  The answer to one request, from the bytes read (at most 4096), the readiness flag, the last
  tick and the clock. \<open>from_utf8_lossy\<close> replaces malformed bytes by U+FFFD, which is neither a
  line end nor white space nor part of a path compared here, so the bytes are used as they are.
  A clock before the epoch reads as \<open>u64::MAX\<close>.
\<close>

definition request_path :: "string \<Rightarrow> string" where
  "request_path request =
     (let line = (case lines request of [] \<Rightarrow> [] | l # _ \<Rightarrow> l)
      in case split_whitespace line of _ # p # _ \<Rightarrow> p | _ \<Rightarrow> ''/'')"

definition health_answer ::
  "bool \<Rightarrow> u64 \<Rightarrow> u64 \<Rightarrow> string + u64 \<Rightarrow> string \<Rightarrow> string \<times> string" where
  "health_answer ready last_tick stale_after clock path =
     (if path = ''/ready'' then
        (if ready then (''HTTP/1.1 200 OK'', ''ready'' @ [CHR 0x0A])
         else (''HTTP/1.1 503 Service Unavailable'', ''not-ready'' @ [CHR 0x0A]))
      else if path = ''/live'' then (''HTTP/1.1 200 OK'', ''live'' @ [CHR 0x0A])
      else if path = ''/healthz'' then
        (let now = (case clock of Inl _ \<Rightarrow> - 1 | Inr t \<Rightarrow> t) in
         if last_tick = 0 then
           (''HTTP/1.1 503 Service Unavailable'', ''initializing'' @ [CHR 0x0A])
         else if saturating_sub now last_tick > stale_after then
           (''HTTP/1.1 503 Service Unavailable'', ''stale'' @ [CHR 0x0A])
         else (''HTTP/1.1 200 OK'', ''healthy'' @ [CHR 0x0A]))
      else (''HTTP/1.1 404 Not Found'', ''not-found'' @ [CHR 0x0A]))"

definition health_response ::
  "bool \<Rightarrow> u64 \<Rightarrow> u64 \<Rightarrow> string + u64 \<Rightarrow> string \<Rightarrow> string option" where
  "health_response ready last_tick stale_after clock request =
     (if request = [] then None
      else
        (let (status_line, body) =
               health_answer ready last_tick stale_after clock (request_path (take 4096 request));
             crlf = [CHR 0x0D, CHR 0x0A]
         in Some (status_line @ crlf @ ''content-type: text/plain; charset=utf-8'' @ crlf @
              ''content-length: '' @ show_nat (length body) @ crlf @ ''connection: close'' @ crlf @
              crlf @ body)))"

section \<open>What the executor publishes\<close>

definition shared_view :: "ha_shared_state \<Rightarrow> u64 option" where
  "shared_view s = (if sh_role s = Writer then Some (sh_generation s) else None)"

definition readiness_text :: "bool \<Rightarrow> string" where
  "readiness_text ready = (if ready then ''ready'' else ''not-ready'') @ [CHR 0x0A]"

text \<open>The role that the role file, the shared state, the flag and the readiness file agree on.\<close>

definition published_node :: "ready_executor \<Rightarrow> u64 option option" where
  "published_node x =
     (case published_role (rx_inner x) of
        None \<Rightarrow> None
      | Some r \<Rightarrow>
          if shared_view (ha_state x) = r \<and> readiness_state x = (r \<noteq> None) \<and>
             (readiness_path x \<noteq> None \<longrightarrow> readiness_file x = Some (readiness_text (r \<noteq> None)))
          then Some r else None)"

lemma published_node_Some:
  "published_node x = Some r \<longleftrightarrow>
     published_role (rx_inner x) = Some r \<and> shared_view (ha_state x) = r \<and>
     readiness_state x = (r \<noteq> None) \<and>
     (readiness_path x \<noteq> None \<longrightarrow> readiness_file x = Some (readiness_text (r \<noteq> None)))"
  by (auto simp: published_node_def split: option.splits)

lemma and_then_done:
  "and_then a b x = (z, None) \<longleftrightarrow> (\<exists>y. a x = (y, None) \<and> b y = (z, None))"
  by (auto simp: and_then_def split: prod.splits option.splits)

lemma write_readiness_done:
  assumes "write_readiness b x = (x', None)"
  shows "rx_inner x' = rx_inner x" "ha_state x' = ha_state x" "readiness_state x' = b"
    "readiness_path x' = readiness_path x"
    "readiness_path x \<noteq> None \<Longrightarrow> readiness_file x' = Some (readiness_text b)"
proof -
  have "fs_write fault t old = (f, None) \<Longrightarrow> f = Some t" for fault t old f
    by (auto simp: fs_write_def split: option.splits prod.splits)
  with assms show "rx_inner x' = rx_inner x" "ha_state x' = ha_state x" "readiness_state x' = b"
    "readiness_path x' = readiness_path x"
    "readiness_path x \<noteq> None \<Longrightarrow> readiness_file x' = Some (readiness_text b)"
    by (auto simp: write_readiness_def Let_def readiness_text_def split: option.splits prod.splits)
qed

lemma ready_steps:
  assumes "and_then (on_inner f) (and_then (write_readiness b) (set_state h)) x = (x', None)"
  shows "f (rx_inner x) = (rx_inner x', None) \<and> ha_state x' = h (ha_state x) \<and>
    readiness_state x' = b \<and> readiness_path x' = readiness_path x \<and>
    (readiness_path x \<noteq> None \<longrightarrow> readiness_file x' = Some (readiness_text b))"
proof -
  from assms obtain i y where "f (rx_inner x) = (i, None)"
    and y: "write_readiness b (x\<lparr>rx_inner := i\<rparr>) = (y, None)"
    and "x' = y\<lparr>ha_state := h (ha_state y)\<rparr>"
    by (auto simp: and_then_done on_inner_def set_state_def split: prod.splits)
  with write_readiness_done [OF y] show ?thesis by simp
qed

interpretation node_exec: role_executor readiness_executor published_node
proof
  fix x x' :: ready_executor and g :: u64
  assume "ensure_replica readiness_executor x = (x', None)"
  then show "published_node x' = Some None"
    using file_exec.replica_published [of "rx_inner x" "rx_inner x'"]
    by (auto simp: readiness_executor_def tracing_executor_def published_node_Some shared_view_def
        dest!: ready_steps)
next
  fix x x' :: ready_executor and g :: u64
  assume "enable_writer readiness_executor g x = (x', None)"
  then show "published_node x' = Some (Some g)"
    using file_exec.writer_published [of g "rx_inner x" "rx_inner x'"]
    by (auto simp: readiness_executor_def tracing_executor_def published_node_Some shared_view_def
        dest!: ready_steps)
next
  fix x x' :: ready_executor and g :: u64
  assume "keep_writer readiness_executor x = (x', None)" "published_node x = Some (Some g)"
  then show "published_node x' = Some (Some g)"
    using file_exec.kept_published [of "rx_inner x" "rx_inner x'" g]
    by (auto simp: readiness_executor_def tracing_executor_def published_node_Some shared_view_def
        dest!: ready_steps split: if_splits)
next
  fix x x' :: ready_executor and v
  assume "record_promotion_denied readiness_executor v x = (x', None)"
    "published_node x = Some None"
  then show "published_node x' = Some None"
    using file_exec.denied_published [of v "rx_inner x" "rx_inner x'"]
    by (auto simp: readiness_executor_def tracing_executor_def published_node_Some shared_view_def
        dest!: ready_steps split: if_splits)
qed

section \<open>What no action touches\<close>

text \<open>Identity and lease of the shared state are the loop's to write, whatever fails.\<close>

definition same_lease_view :: "ready_executor \<Rightarrow> ready_executor \<Rightarrow> bool" where
  "same_lease_view x y \<longleftrightarrow>
     sh_node_id (ha_state x) = sh_node_id (ha_state y) \<and>
     lease_of (ha_state x) = lease_of (ha_state y) \<and>
     allow_replica_reads (ha_state x) = allow_replica_reads (ha_state y)"

lemma ready_steps_view:
  assumes "and_then (on_inner f) (and_then (write_readiness b) (set_state h)) x = (x', e)"
  shows "ha_state x' = ha_state x \<or> ha_state x' = h (ha_state x)"
  using assms
  by (auto simp: and_then_def on_inner_def write_readiness_def set_state_def Let_def
      split: option.splits prod.splits)

lemma action_view: "run_action readiness_executor a x = (x', e) \<Longrightarrow> same_lease_view x' x"
  by (cases a)
     (auto simp: readiness_executor_def same_lease_view_def dest!: ready_steps_view)

lemma actions_view:
  "execute_actions readiness_executor stop as x = (x', fs) \<Longrightarrow> same_lease_view x' x"
proof (induction as arbitrary: x fs)
  case Nil
  then show ?case by (simp add: same_lease_view_def)
next
  case (Cons a as)
  obtain y e where y: "run_action readiness_executor a x = (y, e)" by fastforce
  have "same_lease_view y x" using action_view [OF y] .
  moreover from y Cons.prems have "x' = y \<or> (\<exists>fs. execute_actions readiness_executor stop as y = (x', fs))"
    by (auto split: option.splits if_splits prod.splits)
  ultimately show ?case using Cons.IH by (auto simp: same_lease_view_def)
qed

lemma observed_lease: "lease_from_observation (observe_lease_change p c) = c"
  by (auto simp: observe_lease_change_def split: option.splits)

lemma outcome_observation:
  "observation (snd (reconcile_with_outcome now lease g cfg rt)) =
     observe_lease_change (rt_lease rt) lease"
  by (auto simp: reconcile_with_outcome_def Let_def split: option.splits sum.splits)

section \<open>One turn\<close>

abbreviation rt_of :: "ha_loop \<Rightarrow> ha_runtime" where
  "rt_of L \<equiv> ctl_runtime (lp_controller L)"

abbreviation st_of :: "ha_loop \<Rightarrow> ha_shared_state" where
  "st_of L \<equiv> ha_state (lp_executor L)"

lemma tickE:
  assumes "tick E now lease c x = (c', x', rep)"
  obtains rt' out where
    "reconcile_with_outcome now lease (ctl_min_source_generation c) (ctl_config c) (ctl_runtime c) =
       (rt', out)"
    "c' = c\<lparr>ctl_runtime := rt'\<rparr>" "outcome (report_plan rep) = out"
    "execute_actions E (ctl_stop_on_error c) (actions_for out) x = (x', failures rep)"
  using assms
  by (auto simp: tick_def plan_tick_def plan_actions_def execute_controller_plan_def
      split: prod.splits)

lemma tick_runtime:
  assumes "tick E now lease c x = (c', x', rep)"
  shows "rt_lease (ctl_runtime c') = lease" and "node_id (ctl_runtime c') = node_id (ctl_runtime c)"
    and "role (ctl_runtime c') = Writer \<Longrightarrow> fenced now (ctl_runtime c')"
    and "lease_from_observation (observation (outcome (report_plan rep))) = lease"
proof -
  from assms obtain rt' out where R: "reconcile_with_outcome now lease
      (ctl_min_source_generation c) (ctl_config c) (ctl_runtime c) = (rt', out)"
    and c: "ctl_runtime c' = rt'" and o: "outcome (report_plan rep) = out"
    by (auto elim: tickE)
  show "rt_lease (ctl_runtime c') = lease" "node_id (ctl_runtime c') = node_id (ctl_runtime c)"
    using reconcile_node [where rt = "ctl_runtime c"] R c by (metis fst_conv)+
  show "role (ctl_runtime c') = Writer \<Longrightarrow> fenced now (ctl_runtime c')"
    using reconcile_fences [where rt = "ctl_runtime c"] R c by (metis fst_conv)
  show "lease_from_observation (observation (outcome (report_plan rep))) = lease"
    using outcome_observation [where rt = "ctl_runtime c"] R o observed_lease by (metis snd_conv)
qed

lemma tick_with_readerE:
  assumes "tick_with_reader E now rd c x = (c', x', out)"
  obtains "tick E now (case rd of Inr l \<Rightarrow> l | Inl _ \<Rightarrow> None) c x = (c', x', report out)"
    "lease_of_outcome out = rt_lease (ctl_runtime c')"
  using assms
  by (auto simp: tick_with_reader_def lease_of_outcome_def tick_runtime
      split: sum.splits prod.splits)

lemma refresh_runtime:
  assumes "refresh_freshness args inp c = Inr c'"
  shows "node_id (ctl_runtime c') = node_id (ctl_runtime c)"
    and "role (ctl_runtime c') = role (ctl_runtime c)"
    and "runtime_role (ctl_runtime c') = runtime_role (ctl_runtime c)"
    and "local_generation (ctl_runtime c') = local_generation (ctl_runtime c)"
    and "rt_lease (ctl_runtime c') = rt_lease (ctl_runtime c)"
  using assms
  by (auto simp: refresh_freshness_def ctl_update_freshness_def update_freshness_def
      clear_freshness_def runtime_role_def split: option.splits sum.splits)

lemma tick_executeE:
  assumes "tick_execute J args inp L = Inr (L1, now, out)"
  obtains c where "refresh_freshness args inp (lp_controller L) = Inr c" "in_clock inp = Inr now"
    "tick_with_reader readiness_executor now
       (any_read_lease J (in_lease_file inp) (in_kubectl inp) (lp_reader L)) c (lp_executor L) =
     (lp_controller L1, lp_executor L1, out)"
    "lp_reader L1 = lp_reader L"
  using assms
  by (auto simp: tick_execute_def unix_now_secs_def Let_def split: sum.splits prod.splits)

text \<open>What holds after the actions of a turn, with and without failures.\<close>

lemma execute_turn:
  assumes "tick_execute J args inp L = Inr (L1, now, out)"
  shows "node_id (rt_of L1) = node_id (rt_of L)"
    and "same_lease_view (lp_executor L1) (lp_executor L)"
    and "lease_of_outcome out = rt_lease (rt_of L1)"
    and "rt_lease (rt_of L1) =
      (case any_read_lease J (in_lease_file inp) (in_kubectl inp) (lp_reader L) of
         Inr l \<Rightarrow> l | Inl _ \<Rightarrow> None)"
    and "role (rt_of L1) = Writer \<Longrightarrow> fenced now (rt_of L1)"
proof -
  from assms obtain c where c: "refresh_freshness args inp (lp_controller L) = Inr c"
    and T: "tick_with_reader readiness_executor now
       (any_read_lease J (in_lease_file inp) (in_kubectl inp) (lp_reader L)) c (lp_executor L) =
     (lp_controller L1, lp_executor L1, out)"
    by (rule tick_executeE)
  from T obtain lease where t: "tick readiness_executor now lease c (lp_executor L) =
      (lp_controller L1, lp_executor L1, report out)"
    and l: "lease = (case any_read_lease J (in_lease_file inp) (in_kubectl inp) (lp_reader L) of
         Inr l \<Rightarrow> l | Inl _ \<Rightarrow> None)"
    and o: "lease_of_outcome out = rt_lease (rt_of L1)"
    by (blast elim: tick_with_readerE)
  show "node_id (rt_of L1) = node_id (rt_of L)"
    by (simp add: tick_runtime(2) [OF t] refresh_runtime(1) [OF c])
  show "same_lease_view (lp_executor L1) (lp_executor L)"
    using t by (auto elim!: tickE dest: actions_view)
  show "lease_of_outcome out = rt_lease (rt_of L1)" by fact
  show "rt_lease (rt_of L1) = (case any_read_lease J (in_lease_file inp) (in_kubectl inp)
      (lp_reader L) of Inr l \<Rightarrow> l | Inl _ \<Rightarrow> None)"
    using tick_runtime(1) [OF t] l by simp
  show "role (rt_of L1) = Writer \<Longrightarrow> fenced now (rt_of L1)" by (rule tick_runtime(3) [OF t])
qed

text \<open>A node in step: identities agree, and a writer has published its role everywhere.\<close>

definition in_step :: "ha_loop \<Rightarrow> bool" where
  "in_step L \<longleftrightarrow>
     sh_node_id (st_of L) = node_id (rt_of L) \<and>
     (role (rt_of L) = Writer \<longrightarrow> published_node (lp_executor L) = Some (runtime_role (rt_of L)))"

lemma execute_published:
  assumes "in_step L" and "tick_execute J args inp L = Inr (L1, now, out)"
    and "is_success (report out)"
  shows "published_node (lp_executor L1) = Some (runtime_role (rt_of L1))"
proof -
  from assms(2) obtain c where c: "refresh_freshness args inp (lp_controller L) = Inr c"
    and T: "tick_with_reader readiness_executor now
       (any_read_lease J (in_lease_file inp) (in_kubectl inp) (lp_reader L)) c (lp_executor L) =
     (lp_controller L1, lp_executor L1, out)"
    by (rule tick_executeE)
  show ?thesis
  proof (rule node_exec.tick_with_reader_published [OF _ T assms(3)])
    assume "role (ctl_runtime c) = Writer"
    with assms(1) show "published_node (lp_executor L) = Some (runtime_role (ctl_runtime c))"
      by (simp add: in_step_def refresh_runtime [OF c])
  qed
qed

lemma publish_lease_simps [simp]:
  "sh_node_id (publish_lease args l s) = sh_node_id s"
  "sh_role (publish_lease args l s) = sh_role s"
  "sh_generation (publish_lease args l s) = sh_generation s"
  "allow_replica_reads (publish_lease args l s) = allow_replica_reads s"
  "lease_of (publish_lease args l s) = l"
  by (simp_all add: publish_lease_def split: option.split)

lemma tick_publish_simps [simp]:
  "rt_of (tick_publish args now out L) = rt_of L"
  "lp_reader (tick_publish args now out L) = lp_reader L"
  "st_of (tick_publish args now out L) = publish_lease args (lease_of_outcome out) (st_of L)"
  by (simp_all add: tick_publish_def Let_def)

lemma published_after_publish [simp]:
  "published_node (lp_executor (tick_publish args now out L)) = published_node (lp_executor L)"
  by (simp add: tick_publish_def Let_def published_node_def shared_view_def split: option.split)

lemma turn_in_step:
  assumes "in_step L" and "tick_execute J args inp L = Inr (L1, now, out)"
    and "is_success (report out)"
  shows "in_step (tick_publish args now out L1)"
  using assms(1) execute_published [OF assms] execute_turn(1,2) [OF assms(2)]
  by (simp add: in_step_def same_lease_view_def)

lemma turn_writer:
  assumes "in_step L" and "tick_execute J args inp L = Inr (L1, now, out)"
    and "is_success (report out)"
  shows "is_writer now (st_of (tick_publish args now out L1)) \<longleftrightarrow> role (rt_of L1) = Writer"
proof -
  have "published_node (lp_executor L1) = Some (runtime_role (rt_of L1))"
    by (rule execute_published) fact+
  then have view: "shared_view (st_of L1) = runtime_role (rt_of L1)"
    by (simp add: published_node_Some)
  show ?thesis
  proof (cases "role (rt_of L1) = Writer")
    case True
    then have "fenced now (rt_of L1)" by (rule execute_turn(5) [OF assms(2)])
    moreover have "sh_node_id (st_of L1) = node_id (rt_of L1)"
      using assms(1) execute_turn(1,2) [OF assms(2)] by (simp add: in_step_def same_lease_view_def)
    ultimately show ?thesis
      using True view by (auto simp: is_writer_def fenced_def execute_turn(3) [OF assms(2)]
          shared_view_def runtime_role_def split: if_splits option.splits)
  next
    case False
    with view show ?thesis by (auto simp: is_writer_def shared_view_def runtime_role_def split: if_splits)
  qed
qed

section \<open>The startup fence holds\<close>

lemma writer_decision:
  assumes "tick E now lease c x = (c', x', rep)"
    and "case decision (outcome (report_plan rep)) of
      PromoteToWriter _ \<Rightarrow> True | KeepWriter \<Rightarrow> True | _ \<Rightarrow> False"
  shows "role (ctl_runtime c') = Writer"
proof -
  from assms(1) obtain rt' out where R: "reconcile_with_outcome now lease
      (ctl_min_source_generation c) (ctl_config c) (ctl_runtime c) = (rt', out)"
    and "ctl_runtime c' = rt'" and "outcome (report_plan rep) = out"
    by (auto elim: tickE)
  moreover from this assms(2) have "role_after (decision out) (runtime_role (ctl_runtime c)) \<noteq> None"
    using reconcile_role(2) [OF R] by (auto simp: runtime_role_def split: reconcile_decision.splits)
  ultimately show ?thesis
    using reconcile_role(1) [OF R] by (auto simp: runtime_role_def split: if_splits)
qed

lemma startup_writer:
  assumes "ha_startup_fence_mode args = RequireWriter" and "startup_fence J args inp L = (L', None)"
  obtains now out where "tick_execute J args inp L = Inr (L', now, out)" and "in_clock inp = Inr now"
    and "role (rt_of L') = Writer" and "is_success (report out)"
proof -
  from assms obtain now rep where E: "tick_execute J args inp L = Inr (L', now, Executed rep)"
    and D: "case decision (outcome (report_plan rep)) of
      PromoteToWriter _ \<Rightarrow> True | KeepWriter \<Rightarrow> True | _ \<Rightarrow> False" and S: "is_success rep"
    by (auto simp: startup_fence_def startup_verdict_def Let_def
        split: sum.splits controller_tick_outcome.splits if_splits)
  from E obtain c where "in_clock inp = Inr now" and T: "tick_with_reader readiness_executor now
       (any_read_lease J (in_lease_file inp) (in_kubectl inp) (lp_reader L)) c (lp_executor L) =
     (lp_controller L', lp_executor L', Executed rep)"
    by (rule tick_executeE)
  moreover from T obtain lease where "tick readiness_executor now lease c (lp_executor L) =
      (lp_controller L', lp_executor L', rep)"
    by (rule tick_with_readerE) simp
  then have "role (rt_of L') = Writer" using D by (rule writer_decision)
  ultimately show ?thesis using that [OF E] S by simp
qed

section \<open>A failed promotion\<close>

text \<open>
  When \<open>enable_writer\<close> fails, the runtime is a writer already. The next turns keep the writer,
  which does not publish the generation, so the gateway refuses every write until the node
  loses the lease.
\<close>

definition unpublished_writer :: "ha_loop \<Rightarrow> bool" where
  "unpublished_writer L \<longleftrightarrow>
     role (rt_of L) = Writer \<and> sh_generation (st_of L) \<noteq> local_generation (rt_of L)"

lemma action_generation:
  assumes "run_action readiness_executor a x = (x', e)" and "\<forall>g. a \<noteq> EnableWriter g"
  shows "sh_generation (ha_state x') = sh_generation (ha_state x)"
  using assms by (cases a) (auto simp: readiness_executor_def dest!: ready_steps_view)

lemma actions_generation:
  assumes "execute_actions readiness_executor stop as x = (x', fs)"
    and "\<forall>g. EnableWriter g \<notin> set as"
  shows "sh_generation (ha_state x') = sh_generation (ha_state x)"
  using assms
proof (induction as arbitrary: x fs)
  case (Cons a as)
  obtain y e where y: "run_action readiness_executor a x = (y, e)" by fastforce
  then have "sh_generation (ha_state y) = sh_generation (ha_state x)"
    using Cons.prems(2) by (intro action_generation) auto
  moreover from y Cons.prems have "x' = y \<or> (\<exists>fs. execute_actions readiness_executor stop as y = (x', fs))"
    by (auto split: option.splits if_splits prod.splits)
  ultimately show ?case using Cons.IH Cons.prems(2) by auto
qed simp

lemma writer_reconcile:
  assumes "role rt = Writer" and "reconcile_with_outcome now lease g cfg rt = (rt', out)"
  shows "local_generation rt' = local_generation rt" and "EnableWriter h \<notin> set (actions_for out)"
  using assms
  by (auto simp: reconcile_with_outcome_def Let_def actions_for_def
      split: option.splits sum.splits)

lemma unpublished_turn:
  assumes "unpublished_writer L" and "tick_execute J args inp L = Inr (L1, now, out)"
    and "role (rt_of L1) = Writer"
  shows "unpublished_writer L1"
proof -
  from assms(2) obtain c where c: "refresh_freshness args inp (lp_controller L) = Inr c"
    and T: "tick_with_reader readiness_executor now
       (any_read_lease J (in_lease_file inp) (in_kubectl inp) (lp_reader L)) c (lp_executor L) =
     (lp_controller L1, lp_executor L1, out)"
    by (rule tick_executeE)
  from T obtain lease where "tick readiness_executor now lease c (lp_executor L) =
      (lp_controller L1, lp_executor L1, report out)"
    by (blast elim: tick_with_readerE)
  then obtain rt' o1 where R: "reconcile_with_outcome now lease (ctl_min_source_generation c)
      (ctl_config c) (ctl_runtime c) = (rt', o1)" and rt: "rt_of L1 = rt'"
    and A: "execute_actions readiness_executor (ctl_stop_on_error c) (actions_for o1)
      (lp_executor L) = (lp_executor L1, failures (report out))"
    by (auto elim: tickE)
  have W: "role (ctl_runtime c) = Writer"
    using assms(1) by (simp add: unpublished_writer_def refresh_runtime [OF c])
  have "sh_generation (st_of L1) = sh_generation (st_of L)"
    using actions_generation [OF A] writer_reconcile(2) [OF W R] by blast
  moreover have "local_generation (rt_of L1) = local_generation (rt_of L)"
    using writer_reconcile(1) [OF W R] by (simp add: rt refresh_runtime [OF c])
  ultimately show ?thesis using assms(1,3) by (simp add: unpublished_writer_def)
qed

lemma unpublished_refuses:
  assumes "unpublished_writer L1" and "tick_execute J args inp L = Inr (L1, now, out)"
  shows "\<not> is_writer t (st_of (tick_publish args now out L1))"
proof -
  have "fenced now (rt_of L1)"
    using assms(1) by (intro execute_turn(5) [OF assms(2)]) (simp add: unpublished_writer_def)
  then show ?thesis
    using assms(1) by (auto simp: is_writer_def fence_ok_iff fenced_def unpublished_writer_def
        execute_turn(3) [OF assms(2)] split: option.splits)
qed

end
