(* ===== verification/Program.thy ===== *)
theory Program
  imports Modes Cli Ssh Ha_Loop
begin

text \<open>
  What joins the parts into the program: synchronisation over SSH (\<open>src/src/lib.rs\<close>) with the
  connection of \<open>Ssh\<close>, the client subcommands of \<open>src/src/main.rs\<close> with the commands of \<open>Cli\<close>,
  and the loop of the readiness endpoint with the answers of \<open>Ha_Loop\<close>.

  Shown: a connection that fails is reported, and on a pull leaves the replica's connection as it
  was opened; what the loop of the readiness endpoint answers.
\<close>

section \<open>Synchronisation over SSH\<close>

datatype cli_ssh_auth_mode = Cli_NonInteractive | Cli_Interactive

fun ssh_auth_mode_of :: "cli_ssh_auth_mode \<Rightarrow> ssh_auth_mode" where
  "ssh_auth_mode_of Cli_NonInteractive = NonInteractive"
| "ssh_auth_mode_of Cli_Interactive = Interactive"

definition ssh_options_of :: "cli_ssh_auth_mode \<Rightarrow> u32 \<Rightarrow> ssh_connect_options" where
  "ssh_options_of m secs = \<lparr>auth_mode = ssh_auth_mode_of m, connect_timeout_secs = max secs 1\<rparr>"

text \<open>
  The program and options of a connection; \<open>remote_end\<close> has what the remote process does with the
  stream and with closing it.
\<close>

record ssh_launch =
  sl_env :: ssh_env
  sl_exe :: string
  sl_opts :: "string list"
  sl_options :: ssh_connect_options
  remote_end :: script

definition ssh_script :: "ssh_launch \<Rightarrow> string \<Rightarrow> string \<Rightarrow> string \<Rightarrow> script" where
  "ssh_script l user_host path flag =
     (remote_end l)\<lparr>connect_reply :=
        (case ssh_connect (sl_env l) user_host path (sl_exe l) flag (sl_opts l) (sl_options l) of
           Inl e \<Rightarrow> Inl e
         | Inr _ \<Rightarrow> Inr ())\<rparr>"

definition push_sync ::
  "extern \<Rightarrow> (string \<Rightarrow> string option) \<Rightarrow> open_env \<Rightarrow> ssh_launch \<Rightarrow> string \<Rightarrow> string \<Rightarrow>
     unit outcome option" where
  "push_sync X env origin_env l user_host remote_replica =
     push_sync_with_tuning X origin_env (ssh_script l user_host remote_replica ''--server-replica'')
       (from_env env)"

definition pull_sync ::
  "extern \<Rightarrow> (string \<Rightarrow> string option) \<Rightarrow> open_env \<Rightarrow> ssh_launch \<Rightarrow> string \<Rightarrow> string \<Rightarrow>
     (connection option \<times> unit outcome) option" where
  "pull_sync X env replica_env l user_host remote_origin =
     pull_sync_with_tuning X replica_env (ssh_script l user_host remote_origin ''--server-origin'')
       (from_env env)"

section \<open>Client subcommands\<close>

datatype cli_command_group =
    Client_Group client_connection_args client_command
  | Sql_Group client_connection_args string string output_format

definition run_command_group ::
  "('w, 'v, 's, 'j) cli_env \<Rightarrow> cli_command_group \<Rightarrow> 'w \<Rightarrow> 'v \<Rightarrow>
     sync_error + ('w, 'v) command_end option" where
  "run_command_group C g w v =
     (case g of
        Client_Group connection cmd \<Rightarrow> run_client_command C connection cmd w v
      | Sql_Group connection database sql f \<Rightarrow> run_sql_shorthand C connection database sql f w v)"

section \<open>The readiness endpoint\<close>

text \<open>
  What the loop sees next: the shutdown channel (whether the sender is alive, and the flag), a
  failed accept, a connection that sends nothing in time, or a request with the readiness flag,
  the last tick and the clock of that moment.
\<close>

datatype http_event =
    Shutdown_Changed bool bool
  | Accept_Failed
  | Nothing_Read
  | Request bool u64 "string + u64" string

text \<open>The responses, and whether the loop has ended.\<close>

fun run_readiness_http_server :: "u64 \<Rightarrow> http_event list \<Rightarrow> string list \<times> bool" where
  "run_readiness_http_server stale_after [] = ([], False)"
| "run_readiness_http_server stale_after (Shutdown_Changed alive flag # es) =
     (if alive \<and> flag then ([], True) else run_readiness_http_server stale_after es)"
| "run_readiness_http_server stale_after (Accept_Failed # es) =
     run_readiness_http_server stale_after es"
| "run_readiness_http_server stale_after (Nothing_Read # es) =
     run_readiness_http_server stale_after es"
| "run_readiness_http_server stale_after (Request ready last_tick clock request # es) =
     (let (answers, ended) = run_readiness_http_server stale_after es
      in case health_response ready last_tick stale_after clock request of
           Some response \<Rightarrow> (response # answers, ended)
         | None \<Rightarrow> (answers, ended))"

section \<open>Facts\<close>

text \<open>A push whose connection fails reports the error of the connection.\<close>

theorem failed_launch_is_reported:
  assumes "open_connection origin_env SQLITE_OPEN_READONLY = Inr c" and "snapshot_begin c = Inr snap"
    and "ssh_connect (sl_env l) user_host path (sl_exe l) ''--server-replica'' (sl_opts l)
      (sl_options l) = Inl e"
  shows "push_sync X env origin_env l user_host path = Some (Failed e)"
  using assms by (simp add: push_sync_def push_sync_with_tuning_def ssh_script_def)

text \<open>A pull whose connection fails leaves the replica's connection as it was opened.\<close>

theorem failed_launch_keeps_replica:
  assumes "open_connection env' (SQLITE_OPEN_READWRITE + SQLITE_OPEN_CREATE) = Inr c"
    and "ssh_connect (sl_env l) user_host path (sl_exe l) ''--server-origin'' (sl_opts l)
      (sl_options l) = Inl e"
  shows "pull_sync X env env' l user_host path = Some (Some c, Failed e)"
  using assms by (simp add: pull_sync_def pull_sync_with_tuning_def ssh_script_def)

fun is_shutdown :: "http_event \<Rightarrow> bool" where
  "is_shutdown (Shutdown_Changed alive flag) \<longleftrightarrow> alive \<and> flag"
| "is_shutdown _ \<longleftrightarrow> False"

fun answer_of :: "u64 \<Rightarrow> http_event \<Rightarrow> string option" where
  "answer_of stale_after (Request ready last_tick clock request) =
     health_response ready last_tick stale_after clock request"
| "answer_of stale_after _ = None"

text \<open>
  The readiness endpoint answers every connection that sends a request before its shutdown,
  whatever other connections fail or send nothing.
\<close>

theorem readiness_answers_until_shutdown:
  "run_readiness_http_server stale_after es =
     (List.map_filter (answer_of stale_after) (takeWhile (\<lambda>e. \<not> is_shutdown e) es),
      list_ex is_shutdown es)"
  by (induction stale_after es rule: run_readiness_http_server.induct)
    (auto simp: List.map_filter_simps split: option.split)

end
