(* ===== verification/Sync_Examples.thy ===== *)
theory Sync_Examples
  imports Grpc_Transport
begin

text \<open>
  Concrete databases on which the properties of a synchronisation are applied: one page is one
  byte, SQLite answers every call, and the pool runs in order. \<open>ex_extern\<close> has digests that
  return their input, \<open>ex_extern32\<close> digests of 32 bytes.
\<close>

section \<open>Concrete inputs\<close>

definition ex_extern :: extern where
  "ex_extern =
     \<lparr>digests_of = \<lparr>sha256 = (\<lambda>b. b), blake3 = (\<lambda>b. b)\<rparr>,
      rayon_of = \<lparr>build_pool = (\<lambda>_. True), par_groups = filter_map_p, par_pages = filter_map_p,
                  par_hashes = (\<lambda>f xs. those (map f xs))\<rparr>,
      hashset_debug = (\<lambda>_. ''{}'')\<rparr>"

definition ex_conn :: "bytes \<Rightarrow> connection" where
  "ex_conn file =
     \<lparr>conn_page_size = 1, db_file = file, has_write_fd = True, errmsg_of = [],
      pragma = (\<lambda>name _. \<lparr>prepare_rc = 0, step_rc = 100,
        column_int = (if name = ''page_size'' then 1 else of_nat (length file))\<rparr>),
      serialize_reply = Some file, exec_rc = (\<lambda>_. 0), write_io = (\<lambda>_ _. None),
      read_io = (\<lambda>_. Inr 65536)\<rparr>"

definition ex_snap :: "bytes \<Rightarrow> snapshot" where
  "ex_snap file =
     \<lparr>snap_conn = ex_conn file, snap_bytes = file, snap_page_size = 1,
      snap_page_count = of_nat (length file)\<rparr>"

definition ex_open :: "bytes \<Rightarrow> open_env" where
  "ex_open file =
     \<lparr>path_nul = None, open_rc = 0, null_handle = False, busy_timeout_rc = 0,
      open_read_io = None, open_write_io = None, found = ex_conn file\<rparr>"

lemma concat_blocks_inj:
  assumes "k > 0" and "\<forall>p \<in> set xs \<union> set ys. length p = k" and "concat xs = concat ys"
  shows "xs = ys"
proof (rule concat_injective [OF assms(3)])
  have "length (concat zs) = k * length zs" if "\<forall>p \<in> set zs. length p = k" for zs :: "'a list list"
    using that by (induction zs) auto
  from this [of xs] this [of ys] assms show "length xs = length ys" by auto
  show "\<forall>(x, y) \<in> set (zip xs ys). length x = length y"
    using assms(2) by (auto dest!: set_zip_leftD [THEN UnI1] elim!: in_set_zipE)
qed

lemma ex_no_collision: "no_collision (digests_of ex_extern) alg 1 T (length T) R (length R)"
proof -
  have id: "hash_page_for (digests_of ex_extern) p alg = p"
    "hash_group_for (digests_of ex_extern) hs alg = concat hs" for p hs
    by (cases alg; simp add: hash_page_for_def hash_group_for_def ex_extern_def)+
  have one: "\<forall>p \<in> set (group_pages 1 B (length B) g). length p = 1" for B g
    by (auto simp: group_pages_def page_at_def)
  show ?thesis
    unfolding no_collision_def separates_def id
    by (auto intro!: concat_blocks_inj [of 1] simp: ball_Un one simp del: One_nat_def)
qed

lemma ex_snap_sel [simp]:
  "snap_bytes (ex_snap file) = file" "snap_page_count (ex_snap file) = of_nat (length file)"
  "snap_page_size (ex_snap file) = 1"
  by (simp_all add: ex_snap_def)

lemma ex_page_count:
  "page_count (ex_conn file) = Inr (of_nat (length file))"
  "page_count ((ex_conn file)\<lparr>conn_page_size := a, has_write_fd := b\<rparr>) = Inr (of_nat (length file))"
  by (simp_all add: page_count_def query_pragma_u32_def query_pragma_from.simps ex_conn_def check_def
      sqlite_codes MAX_RETRIES_def)

lemma ex_setting:
  assumes "length T \<le> 4294967232" and "length R \<le> 4294967232"
  shows "sync_setting ex_extern alg (ex_snap T) (ex_conn R) (of_nat (length R))"
proof -
  have "rayon_ordered (rayon_of ex_extern)" by (simp add: rayon_ordered_def ex_extern_def)
  moreover have "unat (of_nat (length T) :: u32) = length T" "unat (of_nat (length R) :: u32) = length R"
    using assms by (simp_all add: unat_u32_of_nat)
  moreover note ex_no_collision [of alg T R]
  moreover have "serialize (ex_conn R) = Inr R" by (simp add: serialize_def ex_conn_def)
  ultimately show ?thesis
    using assms ex_page_count(1) [of R]
    by (simp add: sync_setting_def whole_pages_def quiescent_def conn_ready_def)
       (simp add: ex_snap_def ex_conn_def)
qed

definition ex_extern32 :: extern where
  "ex_extern32 = ex_extern\<lparr>digests_of :=
     \<lparr>sha256 = (\<lambda>b. take 32 (b @ replicate 32 0)), blake3 = (\<lambda>b. take 32 (b @ replicate 32 0))\<rparr>\<rparr>"

lemma ex_setting32: "sync_setting ex_extern32 Blake3V2 (ex_snap [1, 2]) (ex_conn [7]) 1"
proof -
  have "no_collision (digests_of ex_extern32) Blake3V2 1 [1, 2] 2 [7] 1"
    by (simp add: no_collision_def separates_def ex_extern32_def hash_page_for_def hash_group_for_def
        group_pages_def page_at_def lessThan_Suc upt_rec)
  with ex_setting [of "[1, 2]" "[7]" Blake3V2] show ?thesis
    by (simp add: sync_setting_def ex_extern32_def ex_conn_def)
qed

lemma ex_digest_size32: "digest_size (digests_of ex_extern32)"
  by (simp add: digest_size_def ex_extern32_def min_def)

section \<open>Opening and beginning\<close>

definition ex_begun :: "bytes \<Rightarrow> snapshot" where
  "ex_begun file = (ex_snap file)\<lparr>snap_conn := (ex_conn file)\<lparr>has_write_fd := False\<rparr>\<rparr>"

lemmas ex_open_defs = open_connection_def ex_open_def check_def sqlite_codes query_pragma_u32_def
  query_pragma_from.simps ex_conn_def MAX_RETRIES_def
  SQLITE_OPEN_READONLY_def SQLITE_OPEN_READWRITE_def SQLITE_OPEN_CREATE_def

lemma ex_opened_origin:
  "open_connection (ex_open file) SQLITE_OPEN_READONLY = Inr ((ex_conn file)\<lparr>has_write_fd := False\<rparr>)"
  by (simp add: ex_open_defs)

lemma ex_opened_replica:
  "open_connection (ex_open file) (SQLITE_OPEN_READWRITE + SQLITE_OPEN_CREATE) = Inr (ex_conn file)"
  by (simp add: ex_open_defs)

lemma ex_begins:
  "snapshot_begin ((ex_conn [1, 2])\<lparr>has_write_fd := False\<rparr>) = Inr (ex_begun [1, 2])"
  "snapshot_commit (ex_begun file) = Inr ()"
  by (simp_all add: snapshot_begin_def snapshot_commit_def exec_def check_def sqlite_codes
      page_count_def query_pragma_u32_def query_pragma_from.simps ex_conn_def ex_snap_def
      MAX_RETRIES_def serialize_def ex_begun_def)

end
