(* ===== verification/Ha_Cluster.thy ===== *)
theory Ha_Cluster
  imports Ha_Loop
begin

text \<open>
  A cluster of nodes that run the control loop of \<open>Ha_Loop\<close> against one lease, as a step
  relation: turns of the nodes, with the publication of the lease as a step of its own, time,
  and what the lease authority may do. The authority is outside the program. It is assumed to
  renew a lease without shortening it, and to give it to another holder or remove it only once
  it has expired; nodes and authority read one clock.

  Shown: every lease a node still uses has expired or is the authority's, so at any time at most
  one node passes the gateway's writer check, whatever I/O errors occur and however long a node
  pauses between two steps; a replica that gets the lease becomes the writer in one turn.
\<close>

section \<open>Cluster states and steps\<close>

record cluster =
  cl_now :: u64
  authority :: "lease_record option"
  cl_nodes :: "string \<Rightarrow> ha_loop"
  cl_pending :: "string \<Rightarrow> (u64 \<times> (string, string) controller_tick_outcome) option"

definition expiry :: "lease_record \<Rightarrow> u64" where
  "expiry l = saturating_add (renewed_at_secs l) (ttl_secs l)"

definition reads_authority ::
  "'v json_api \<Rightarrow> tick_input \<Rightarrow> lease_record option \<Rightarrow> ha_loop \<Rightarrow> bool" where
  "reads_authority J inp a L \<longleftrightarrow>
     (case any_read_lease J (in_lease_file inp) (in_kubectl inp) (lp_reader L) of
        Inl _ \<Rightarrow> True
      | Inr l \<Rightarrow> l = a)"

inductive cl_step :: "'v json_api \<Rightarrow> (string \<Rightarrow> ha_args) \<Rightarrow> cluster \<Rightarrow> cluster \<Rightarrow> bool"
  for J :: "'v json_api" and args :: "string \<Rightarrow> ha_args" where
  Startup:
    "in_clock inp = Inr (cl_now s) \<Longrightarrow> reads_authority J inp (authority s) (cl_nodes s n) \<Longrightarrow>
     cl_pending s n = None \<Longrightarrow>
     tick_execute J (args n) inp (cl_nodes s n) = Inr (L, t, out) \<Longrightarrow>
     cl_step J args s (s\<lparr>cl_nodes := (cl_nodes s)(n := L)\<rparr>)"
| Execute:
    "in_clock inp = Inr (cl_now s) \<Longrightarrow> reads_authority J inp (authority s) (cl_nodes s n) \<Longrightarrow>
     cl_pending s n = None \<Longrightarrow>
     tick_execute J (args n) inp (cl_nodes s n) = Inr (L, t, out) \<Longrightarrow>
     cl_step J args s
       (s\<lparr>cl_nodes := (cl_nodes s)(n := L), cl_pending := (cl_pending s)(n := Some (t, out))\<rparr>)"
| Publish:
    "cl_pending s n = Some (t, out) \<Longrightarrow>
     cl_step J args s
       (s\<lparr>cl_nodes := (cl_nodes s)(n := tick_publish (args n) t out (cl_nodes s n)),
          cl_pending := (cl_pending s)(n := None)\<rparr>)"
| Time:
    "cl_now s \<le> t \<Longrightarrow> cl_step J args s (s\<lparr>cl_now := t\<rparr>)"
| Renew:
    "authority s = Some a \<Longrightarrow> holder_node_id a' = holder_node_id a \<Longrightarrow>
     lease_generation a' = lease_generation a \<Longrightarrow> expiry a \<le> expiry a' \<Longrightarrow>
     cl_step J args s (s\<lparr>authority := Some a'\<rparr>)"
| Acquire:
    "(\<And>a. authority s = Some a \<Longrightarrow> is_expired a (cl_now s)) \<Longrightarrow>
     cl_step J args s (s\<lparr>authority := Some a'\<rparr>)"
| Release:
    "authority s = Some a \<Longrightarrow> is_expired a (cl_now s) \<Longrightarrow>
     cl_step J args s (s\<lparr>authority := None\<rparr>)"

inductive_cases cl_stepE: "cl_step J args s s'"

text \<open>A node as \<open>ha_setup\<close> leaves it, and a cluster of such nodes.\<close>

definition fresh_node :: "string \<Rightarrow> ha_loop \<Rightarrow> bool" where
  "fresh_node n L \<longleftrightarrow>
     rt_of L = runtime_new n \<and> sh_node_id (st_of L) = n \<and> sh_role (st_of L) = Replica \<and>
     lease_of (st_of L) = None"

definition fresh_cluster :: "cluster \<Rightarrow> bool" where
  "fresh_cluster s \<longleftrightarrow> (\<forall>n. fresh_node n (cl_nodes s n) \<and> cl_pending s n = None)"

inductive reachable :: "'v json_api \<Rightarrow> (string \<Rightarrow> ha_args) \<Rightarrow> cluster \<Rightarrow> bool"
  for J :: "'v json_api" and args :: "string \<Rightarrow> ha_args" where
  Init: "fresh_cluster s \<Longrightarrow> reachable J args s"
| Step: "reachable J args s \<Longrightarrow> cl_step J args s s' \<Longrightarrow> reachable J args s'"

lemma write_readiness_state: "ha_state (fst (write_readiness b x)) = ha_state x"
  by (simp add: write_readiness_def Let_def split: option.split prod.split)

lemma setup_fresh:
  assumes "ha_setup env args files = Inr L" and "ha_node_id args = Some n"
  shows "fresh_node n L"
proof -
  let ?x = "files\<lparr>readiness_path := ha_readiness_file args, readiness_state := False,
    ha_state := shared_new n (ha_allow_replica_reads args)\<rparr>"
  from assms obtain x' where "initialize_not_ready ?x = (x', None)" and "lp_executor L = x'"
    and c: "lp_controller L = ha_controller_of args n"
    by (auto simp: ha_setup_def Let_def split: option.splits sum.splits prod.splits)
  moreover from this have "ha_state x' = ha_state ?x"
    using write_readiness_state [of False ?x] by (simp add: initialize_not_ready_def)
  ultimately show ?thesis
    by (simp add: fresh_node_def shared_new_def c ha_controller_of_def set_stop_on_error_def
        set_promotion_config_def set_min_source_generation_def controller_new_def)
qed

section \<open>The lease invariant\<close>

definition covered :: "u64 \<Rightarrow> lease_record option \<Rightarrow> lease_record option \<Rightarrow> bool" where
  "covered now auth seen \<longleftrightarrow>
     (\<forall>l. seen = Some l \<longrightarrow> is_expired l now \<or>
        (\<exists>a. auth = Some a \<and> holder_node_id a = holder_node_id l \<and>
           lease_generation a = lease_generation l \<and> expiry l \<le> expiry a))"

definition leases_covered :: "cluster \<Rightarrow> bool" where
  "leases_covered s \<longleftrightarrow>
     (\<forall>n. sh_node_id (st_of (cl_nodes s n)) = n \<and>
        covered (cl_now s) (authority s) (lease_of (st_of (cl_nodes s n))) \<and>
        (\<forall>t out. cl_pending s n = Some (t, out) \<longrightarrow>
           covered (cl_now s) (authority s) (lease_of_outcome out)))"

lemma expired_iff: "is_expired l now \<longleftrightarrow> expiry l < now"
  by (simp add: is_expired_def expiry_def)

lemma covered_None [simp]: "covered now auth None"
  by (simp add: covered_def)

lemma covered_same [simp]: "covered now auth auth"
  by (auto simp: covered_def)

lemma covered_time: "covered now auth l \<Longrightarrow> now \<le> t \<Longrightarrow> covered t auth l"
  by (force simp: covered_def expired_iff)

lemma covered_renew:
  "covered now (Some a) l \<Longrightarrow> holder_node_id a' = holder_node_id a \<Longrightarrow>
   lease_generation a' = lease_generation a \<Longrightarrow> expiry a \<le> expiry a' \<Longrightarrow> covered now (Some a') l"
  by (force simp: covered_def)

lemma covered_change:
  "covered now auth l \<Longrightarrow> (\<And>a. auth = Some a \<Longrightarrow> is_expired a now) \<Longrightarrow> covered now auth' l"
  by (force simp: covered_def expired_iff)

lemma executed_lease:
  assumes "tick_execute J args inp L = Inr (L1, t, out)" and "reads_authority J inp a L"
  shows "covered now a (lease_of_outcome out)"
    and "lease_of (st_of L1) = lease_of (st_of L)" "sh_node_id (st_of L1) = sh_node_id (st_of L)"
proof -
  have "lease_of_outcome out = None \<or> lease_of_outcome out = a"
    using execute_turn(3,4) [OF assms(1)] assms(2)
    by (auto simp: reads_authority_def split: sum.splits)
  then show "covered now a (lease_of_outcome out)" by auto
  show "lease_of (st_of L1) = lease_of (st_of L)" "sh_node_id (st_of L1) = sh_node_id (st_of L)"
    using execute_turn(2) [OF assms(1)] by (simp_all add: same_lease_view_def)
qed

lemma authority_covered:
  assumes "leases_covered s"
    and "\<And>l. covered (cl_now s) (authority s) l \<Longrightarrow> covered t a l"
  shows "leases_covered (s\<lparr>cl_now := t, authority := a\<rparr>)"
  using assms by (simp add: leases_covered_def)

lemma step_covered:
  assumes "cl_step J args s s'" and "leases_covered s"
  shows "leases_covered s'"
  using assms
proof cases
  case (Time t)
  then show ?thesis
    using authority_covered [OF assms(2), of t "authority s"] covered_time by simp
next
  case (Renew a a')
  then show ?thesis
    using authority_covered [OF assms(2), of "cl_now s" "Some a'"] covered_renew by simp
next
  case (Acquire a')
  then show ?thesis
    using authority_covered [OF assms(2), of "cl_now s" "Some a'"] covered_change [OF _ Acquire(2)] by simp
next
  case (Release a)
  then have "is_expired x (cl_now s)" if "authority s = Some x" for x using that by simp
  then show ?thesis
    using authority_covered [OF assms(2), of "cl_now s" None] covered_change Release(1) by fastforce
qed (use assms(2) in \<open>auto simp: leases_covered_def executed_lease\<close>)

lemma fresh_covered: "fresh_cluster s \<Longrightarrow> leases_covered s"
  by (simp add: fresh_cluster_def fresh_node_def leases_covered_def)

lemma reachable_covered: "reachable J args s \<Longrightarrow> leases_covered s"
  by (induction rule: reachable.induct) (blast intro: fresh_covered step_covered)+

lemma writer_lease:
  assumes "leases_covered s" and "is_writer (cl_now s) (st_of (cl_nodes s n))"
  shows "\<exists>a. authority s = Some a \<and> holder_node_id a = n \<and>
    lease_generation a = sh_generation (st_of (cl_nodes s n)) \<and> \<not> is_expired a (cl_now s)"
proof -
  from assms(2) obtain l where l: "lease_of (st_of (cl_nodes s n)) = Some l"
    "\<not> is_expired l (cl_now s)" "holder_node_id l = sh_node_id (st_of (cl_nodes s n))"
    "lease_generation l = sh_generation (st_of (cl_nodes s n))"
    by (auto simp: is_writer_def fence_ok_iff split: if_splits option.splits)
  moreover from assms(1) have "sh_node_id (st_of (cl_nodes s n)) = n"
    and "covered (cl_now s) (authority s) (lease_of (st_of (cl_nodes s n)))"
    by (simp_all add: leases_covered_def)
  ultimately show ?thesis by (auto simp: covered_def expired_iff)
qed

section \<open>Taking over\<close>

definition no_faults :: "ready_executor \<Rightarrow> bool" where
  "no_faults x \<longleftrightarrow> (\<forall>k. io_fault (rx_inner x) k = None) \<and> (\<forall>k. rd_fault x k = None)"

lemma enable_succeeds:
  assumes "no_faults x"
  obtains x' where "enable_writer readiness_executor g x = (x', None)"
proof -
  have "\<exists>x'. enable_writer readiness_executor g x = (x', None)"
    using assms
    by (auto simp: no_faults_def readiness_executor_def tracing_executor_def file_action_executor_def
        and_then_def on_inner_def write_role_state_def append_audit_def write_readiness_def
        fs_write_def set_state_def Let_def split: option.splits)
  with that show ?thesis by blast
qed

text \<open>The conditions under which a replica is promoted in its next turn.\<close>

definition may_take_over ::
  "'v json_api \<Rightarrow> ha_args \<Rightarrow> tick_input \<Rightarrow> u64 \<Rightarrow> ha_loop \<Rightarrow> bool" where
  "may_take_over J args inp now L \<longleftrightarrow>
     role (rt_of L) = Replica \<and> no_faults (lp_executor L) \<and> in_clock inp = Inr now \<and>
     (\<exists>path f l. ha_freshness_file args = Some path \<and>
        read_freshness_ledger path (in_freshness inp) = Inr (Some f) \<and>
        any_read_lease J (in_lease_file inp) (in_kubectl inp) (lp_reader L) = Inr (Some l) \<and>
        validate_promotion now l
          \<lparr>candidate_node_id = node_id (rt_of L), target_generation = lease_generation l,
           min_source_generation = ctl_min_source_generation (lp_controller L)\<rparr>
          (Some f) (ctl_config (lp_controller L)) = Inr ())"

lemma promoted_turn:
  assumes "may_take_over J args inp now L"
  obtains L1 out where "tick_execute J args inp L = Inr (L1, now, out)"
    and "is_success (report out)" and "role (rt_of L1) = Writer"
proof -
  from assms obtain path f l where R: "role (rt_of L) = Replica" and "no_faults (lp_executor L)"
    and I: "in_clock inp = Inr now" "ha_freshness_file args = Some path"
      "read_freshness_ledger path (in_freshness inp) = Inr (Some f)"
      "any_read_lease J (in_lease_file inp) (in_kubectl inp) (lp_reader L) = Inr (Some l)"
      "validate_promotion now l
          \<lparr>candidate_node_id = node_id (rt_of L), target_generation = lease_generation l,
           min_source_generation = ctl_min_source_generation (lp_controller L)\<rparr>
          (Some f) (ctl_config (lp_controller L)) = Inr ()"
    by (auto simp: may_take_over_def)
  then obtain x' where
    "enable_writer readiness_executor (lease_generation l) (lp_executor L) = (x', None)"
    using enable_succeeds by blast
  with R I that show ?thesis
    by (auto simp: tick_execute_def refresh_freshness_def unix_now_secs_def tick_with_reader_def
        tick_def plan_tick_def plan_actions_def reconcile_with_outcome_def Let_def
        ctl_update_freshness_def update_freshness_def execute_controller_plan_def actions_for_def
        is_success_def)
qed

lemma takeover:
  assumes "in_step L" and "may_take_over J args inp now L"
  obtains L' where "ha_tick J args inp L = Inr L'" and "is_writer now (st_of L')"
    and "role (rt_of L') = Writer"
proof -
  obtain L1 out where E: "tick_execute J args inp L = Inr (L1, now, out)"
    and S: "is_success (report out)" and W: "role (rt_of L1) = Writer"
    using promoted_turn [OF assms(2)] by blast
  then have "is_writer now (st_of (tick_publish args now out L1))"
    using turn_writer [OF assms(1) E S] by simp
  with W E that show ?thesis by (simp add: ha_tick_def)
qed

end
