(* ===== verification/Ha_Properties.thy ===== *)
theory Ha_Properties
  imports Ha_Cluster
begin

text \<open>
  The properties of the high-availability mode, over the definitions of \<open>Kv_Text\<close>,
  \<open>Ha_Lease\<close>, \<open>Ha\<close>, \<open>Ha_Loop\<close> and \<open>Ha_Cluster\<close>, and a concrete node and cluster on which
  the ones with hypotheses are applied.
\<close>

section \<open>A concrete node\<close>

definition ex_lease :: lease_record where
  "ex_lease = \<lparr>holder_node_id = ''a'', lease_generation = 3, renewed_at_secs = 100, ttl_secs = 10\<rparr>"

definition ex_ledger :: freshness_ledger where
  "ex_ledger = \<lparr>source_node_id = ''b'', source_generation = 2, synced_at_secs = 104\<rparr>"

definition ex_ledger_text :: string where
  "ex_ledger_text =
     (''source_node_id'' @ CHR ''='' # ''b'') @ CHR 0x0A #
     (''source_generation'' @ CHR ''='' # ''2'') @ CHR 0x0A #
     (''synced_at_secs'' @ CHR ''='' # ''104'')"

definition ex_args :: ha_args where
  "ex_args =
     \<lparr>ha_node_id = Some ''a'', ha_lease_source = Source_File, ha_lease_file = Some ''lease'',
      ha_kube_lease_name = None, ha_kube_namespace = ''default'', ha_kube_context = None,
      ha_kubeconfig = None, ha_kubectl_path = ''kubectl'', ha_freshness_file = Some ''fresh'',
      ha_role_state_file = Some ''role'', ha_audit_log_file = Some ''audit'',
      ha_readiness_file = Some ''ready'', ha_readiness_http_bind = None, ha_grpc_bind = Some ''addr'',
      ha_grpc_auth_token = Some ''secret'', ha_grpc_insecure_no_auth = False, ha_data_dir = None,
      ha_allow_replica_reads = False, ha_service_name = ''sqlite-ha'', ha_grpc_port = 50051,
      ha_tick_interval_ms = 1000, ha_min_source_generation = 0, ha_max_freshness_age_secs = 10,
      ha_max_future_skew_secs = 2, ha_continue_on_error = False,
      ha_startup_fence_mode = RequireWriter\<rparr>"

definition ex_json :: "unit json_api" where
  "ex_json =
     \<lparr>json_from_str = (\<lambda>_. Inl []), json_get = (\<lambda>_ _. None), json_as_str = (\<lambda>_. None),
      json_as_u64 = (\<lambda>_. None), rfc3339_timestamp = (\<lambda>_. Inl [])\<rparr>"

text \<open>Files that answer every call, and files whose audit log fails once, at the second call.\<close>

definition ex_files :: "(nat \<Rightarrow> (nat option \<times> string) option) \<Rightarrow> ready_executor" where
  "ex_files fault =
     \<lparr>rx_inner = \<lparr>role_file = None, audit_file = [], io_calls = 0, io_fault = fault\<rparr>,
      readiness_path = Some ''ready'', readiness_file = None, rd_calls = 0, rd_fault = (\<lambda>_. None),
      readiness_state = False, ha_state = shared_new ''a'' False\<rparr>"


definition ex_loop :: "string \<Rightarrow> (nat \<Rightarrow> (nat option \<times> string) option) \<Rightarrow> ha_loop" where
  "ex_loop n fault =
     \<lparr>lp_controller = ha_controller_of ex_args n, lp_reader = File_Reader ''lease'',
      lp_executor = (ex_files fault)\<lparr>ha_state := shared_new n False\<rparr>, lp_auth = None,
      last_tick_secs = 0\<rparr>"

definition ex_input :: "u64 \<Rightarrow> tick_input" where
  "ex_input now =
     \<lparr>in_freshness = File_Text (ex_ledger_text @ [CHR 0x0A]), in_clock = Inr now,
      in_lease_file = File_Text (serialize_lease_record ex_lease), in_kubectl = (\<lambda>_ _. Inl [])\<rparr>"

lemma no_white_bytes:
  "\<not> white_byte (CHR ''a'')" "\<not> white_byte (CHR ''b'')" "\<not> white_byte (CHR ''s'')"
  "\<not> white_byte (CHR ''0'')" "\<not> white_byte (CHR ''1'')" "\<not> white_byte (CHR ''2'')"
  "\<not> white_byte (CHR ''4'')"
  by (simp_all add: white_byte_def WHITE_SPACE_def)

lemma ex_ledger_read:
  "read_freshness_ledger path (File_Text (ex_ledger_text @ [CHR 0x0A])) = Inr (Some ex_ledger)"
proof -
  have keys: "plain_key ''source_node_id''" "plain_key ''source_generation''"
    "plain_key ''synced_at_secs''"
    by (simp_all add: plain_key_def white_byte_def WHITE_SPACE_def)
  have vals: "printable ''b''" "printable ''2''" "printable ''104''"
    by (simp_all add: printable_def trim_id no_white_bytes)
  have "lines (''synced_at_secs'' @ CHR ''='' # ''104'') = [''synced_at_secs'' @ CHR ''='' # ''104'']"
    by (intro lines_end) auto
  then have "lines ex_ledger_text = [''source_node_id'' @ CHR ''='' # ''b'',
      ''source_generation'' @ CHR ''='' # ''2'', ''synced_at_secs'' @ CHR ''='' # ''104'']"
    unfolding ex_ledger_text_def by (simp only: lines_kv keys vals)
  then have "parse_kv_lines ''freshness'' ex_ledger_text
        [''source_node_id'', ''source_generation'', ''synced_at_secs''] =
      Inr [''source_node_id'' \<mapsto> ''b'', ''source_generation'' \<mapsto> ''2'', ''synced_at_secs'' \<mapsto> ''104'']"
    unfolding parse_kv_lines_def
    by (simp only: kv_loop_line keys vals kv_loop.simps(1) list.set insert_iff simp_thms)
  then have "parse_freshness_ledger ex_ledger_text = Inr ex_ledger"
    by (simp add: parse_freshness_ledger_def require_non_empty_def require_u64_def parse_u64_def
        parse_uint_def digit_of_def ex_ledger_def)
  moreover have "trim (ex_ledger_text @ [CHR 0x0A]) = ex_ledger_text"
    by (rule trim_newline) (simp_all add: ex_ledger_text_def no_white_bytes)
  ultimately show ?thesis
    by (simp add: read_freshness_ledger_def read_optional_kv_text_def eq_ignore_ascii_case_def
        to_ascii_lowercase_def ex_ledger_text_def)
qed

lemma ex_lease_read: "file_read_lease (File_Text (serialize_lease_record ex_lease)) = Inr (Some ex_lease)"
  by (rule read_serialized_lease) (simp_all add: ex_lease_def printable_def trim_id no_white_bytes)

lemma ex_in_step: "in_step (ex_loop n fault)"
  by (simp add: in_step_def ex_loop_def ha_controller_of_def set_stop_on_error_def
      set_promotion_config_def set_min_source_generation_def controller_new_def runtime_new_def
      shared_new_def)

lemma ex_promotion:
  "validate_promotion 105 ex_lease
     \<lparr>candidate_node_id = ''a'', target_generation = 3, min_source_generation = 0\<rparr> (Some ex_ledger)
     \<lparr>max_freshness_age_secs = 10, max_future_skew_secs = 2\<rparr> = Inr ()"
  by (simp add: validate_promotion_def ex_lease_def ex_ledger_def is_expired_def saturating_add_def
      saturating_sub_def Let_def)


lemma ex_lease_generation [simp]: "lease_generation ex_lease = 3"
  by (simp add: ex_lease_def)

lemmas ex_node_defs =
  ex_loop_def ex_input_def ex_args_def ex_files_def ha_controller_of_def set_stop_on_error_def
  set_promotion_config_def set_min_source_generation_def controller_new_def runtime_new_def

lemma ex_loop_simps [simp]:
  "rt_of (ex_loop n fault) = runtime_new n" "role (runtime_new n) = Replica" "node_id (runtime_new n) = n"
  "lp_reader (ex_loop n fault) = File_Reader ''lease''"
  "ctl_config (lp_controller (ex_loop n fault)) =
     \<lparr>max_freshness_age_secs = 10, max_future_skew_secs = 2\<rparr>"
  "ctl_min_source_generation (lp_controller (ex_loop n fault)) = 0"
  "in_clock (ex_input now) = Inr now"
  "in_freshness (ex_input now) = File_Text (ex_ledger_text @ [CHR 0x0A])"
  "in_lease_file (ex_input now) = File_Text (serialize_lease_record ex_lease)"
  "ha_freshness_file ex_args = Some ''fresh''"
  by (simp_all add: ex_node_defs)

lemma ex_no_faults: "no_faults (lp_executor (ex_loop n (\<lambda>_. None)))"
  by (simp add: no_faults_def ex_loop_def ex_files_def)

lemmas ex_node_facts =
  ex_in_step ex_lease_read ex_ledger_read ex_no_faults ex_promotion

lemma ex_may_take_over: "may_take_over ex_json ex_args (ex_input 105) 105 (ex_loop ''a'' (\<lambda>_. None))"
  by (simp add: may_take_over_def ex_node_facts)

section \<open>One writer\<close>

definition ex_cluster :: cluster where
  "ex_cluster =
     \<lparr>cl_now = 105, authority = Some ex_lease, cl_nodes = (\<lambda>n. ex_loop n (\<lambda>_. None)),
      cl_pending = (\<lambda>_. None)\<rparr>"

lemma ex_cluster_runs:
  "\<exists>s. reachable ex_json (\<lambda>_. ex_args) s \<and> is_writer (cl_now s) (st_of (cl_nodes s ''a''))"
proof -
  obtain L' where T: "ha_tick ex_json ex_args (ex_input 105) (ex_loop ''a'' (\<lambda>_. None)) = Inr L'"
    and W: "is_writer 105 (st_of L')"
    by (rule takeover [OF ex_in_step ex_may_take_over])
  from T obtain L1 t out where
    E: "tick_execute ex_json ex_args (ex_input 105) (ex_loop ''a'' (\<lambda>_. None)) = Inr (L1, t, out)"
    and L': "L' = tick_publish ex_args t out L1"
    by (auto simp: ha_tick_def split: sum.splits)
  define s1 where "s1 = ex_cluster\<lparr>cl_nodes := (cl_nodes ex_cluster)(''a'' := L1),
    cl_pending := (cl_pending ex_cluster)(''a'' := Some (t, out))\<rparr>"
  define s2 where "s2 = s1\<lparr>cl_nodes := (cl_nodes s1)(''a'' := tick_publish ex_args t out (cl_nodes s1 ''a'')),
    cl_pending := (cl_pending s1)(''a'' := None)\<rparr>"
  have "reachable ex_json (\<lambda>_. ex_args) ex_cluster"
    by (rule reachable.Init) (simp add: fresh_cluster_def fresh_node_def ex_cluster_def ex_node_defs
        shared_new_def)
  moreover have "cl_step ex_json (\<lambda>_. ex_args) ex_cluster s1"
    unfolding s1_def
    by (rule cl_step.Execute [where inp = "ex_input 105"])
       (use E in \<open>simp_all add: ex_cluster_def ex_node_defs reads_authority_def ex_lease_read\<close>)
  moreover have "cl_step ex_json (\<lambda>_. ex_args) s1 s2"
    unfolding s2_def by (rule cl_step.Publish) (simp add: s1_def)
  ultimately have "reachable ex_json (\<lambda>_. ex_args) s2" by (blast intro: reachable.Step)
  moreover have "is_writer (cl_now s2) (st_of (cl_nodes s2 ''a''))"
    using W L' by (simp add: s2_def s1_def ex_cluster_def)
  ultimately show ?thesis by blast
qed

text \<open>
  C4. At any reachable state of the cluster, at most one node passes the writer check of its
  gateway. Executor failures, failed lease reads and arbitrary delays between a node's steps
  are included.
\<close>

theorem at_most_one_writer:
  assumes "reachable J args s"
    and "is_writer (cl_now s) (st_of (cl_nodes s n))"
    and "is_writer (cl_now s) (st_of (cl_nodes s m))"
  shows "n = m"
  using writer_lease [OF reachable_covered [OF assms(1)] assms(2)]
    writer_lease [OF reachable_covered [OF assms(1)] assms(3)] by auto

theorem at_most_one_writer_witness:
  "\<exists>s :: cluster. is_writer (cl_now s) (st_of (cl_nodes s ''a'')) \<and>
     (\<forall>m. is_writer (cl_now s) (st_of (cl_nodes s m)) \<longrightarrow> m = ''a'')"
proof -
  obtain s where "reachable ex_json (\<lambda>_. ex_args) s" "is_writer (cl_now s) (st_of (cl_nodes s ''a''))"
    using ex_cluster_runs by blast
  with at_most_one_writer [of ex_json "\<lambda>_. ex_args" s _ "''a''"] show ?thesis
    by blast
qed

text \<open>
  C5. Invariant of the cluster: a node that passes the writer check holds the authority's lease,
  which has not expired and has the generation the node publishes.
\<close>

theorem writer_holds_the_lease:
  assumes "reachable J args s" and "is_writer (cl_now s) (st_of (cl_nodes s n))"
  shows "\<exists>a. authority s = Some a \<and> holder_node_id a = n \<and>
    lease_generation a = sh_generation (st_of (cl_nodes s n)) \<and> \<not> is_expired a (cl_now s)"
  by (rule writer_lease [OF reachable_covered [OF assms(1)] assms(2)])

theorem writer_holds_the_lease_witness:
  "\<exists>(s :: cluster) a. is_writer (cl_now s) (st_of (cl_nodes s ''a'')) \<and> authority s = Some a \<and>
     holder_node_id a = ''a'' \<and> \<not> is_expired a (cl_now s)"
  using ex_cluster_runs writer_holds_the_lease by metis

text \<open>
  C9. A replica that reads a lease it may be promoted under, with a fresh ledger and working
  files, is the writer after one turn: the controller's role is writer and the gateway accepts
  writes.
\<close>

theorem lease_holder_takes_over:
  assumes "in_step L" and "may_take_over J args inp now L"
  shows "\<exists>L'. ha_tick J args inp L = Inr L' \<and> is_writer now (st_of L') \<and> role (rt_of L') = Writer"
  by (rule takeover [OF assms]) blast

theorem lease_holder_takes_over_witness:
  "\<exists>L'. ha_tick ex_json ex_args (ex_input 105) (ex_loop ''a'' (\<lambda>_. None)) = Inr L' \<and>
     is_writer 105 (st_of L') \<and> role (rt_of L') = Writer"
  by (rule lease_holder_takes_over [OF ex_in_step ex_may_take_over])

text \<open>
  C10. The gateway follows the controller. After a turn whose actions all succeed the node is in
  step again, the role file, the readiness flag, the readiness file and the shared state agree
  with the controller's role, and at the time of the turn the gateway accepts writes exactly
  when the controller is a writer.
\<close>

theorem gateway_follows_controller:
  assumes "in_step L" and "tick_execute J args inp L = Inr (L1, now, out)"
    and "is_success (report out)"
  shows "in_step (tick_publish args now out L1) \<and>
    published_node (lp_executor (tick_publish args now out L1)) = Some (runtime_role (rt_of L1)) \<and>
    (is_writer now (st_of (tick_publish args now out L1)) \<longleftrightarrow> role (rt_of L1) = Writer)"
  using turn_in_step [OF assms] turn_writer [OF assms] execute_published [OF assms] by simp

theorem gateway_follows_controller_witness:
  "\<exists>L1 out. tick_execute ex_json ex_args (ex_input 105) (ex_loop ''a'' (\<lambda>_. None)) = Inr (L1, 105, out) \<and>
     is_writer 105 (st_of (tick_publish ex_args 105 out L1))"
proof -
  obtain L1 out where
    "tick_execute ex_json ex_args (ex_input 105) (ex_loop ''a'' (\<lambda>_. None)) = Inr (L1, 105, out)"
    "is_success (report out)" "role (rt_of L1) = Writer"
    by (rule promoted_turn [OF ex_may_take_over])
  with gateway_follows_controller [OF ex_in_step this(1,2)] show ?thesis by blast
qed

section \<open>Errors\<close>


lemmas turn_defs =
  ha_tick_def tick_execute_def refresh_freshness_def unix_now_secs_def tick_with_reader_def
  tick_def plan_tick_def plan_actions_def reconcile_with_outcome_def ctl_update_freshness_def
  update_freshness_def execute_controller_plan_def actions_for_def tick_publish_def
  observe_lease_change_def lease_of_outcome_def publish_lease_def





text \<open>
  C12. With \<open>--ha-startup-fence-mode require-writer\<close> the control loop starts only on a node that
  is a writer: the startup fence passes only if the node holds an unexpired lease of its own
  generation at the time it read, and has published the role.
\<close>

theorem startup_fence_requires_writer:
  assumes "ha_startup_fence_mode args = RequireWriter" and "in_step L"
    and "startup_fence J args inp L = (L', None)"
  shows "role (rt_of L') = Writer \<and>
    published_node (lp_executor L') = Some (Some (local_generation (rt_of L'))) \<and>
    (\<exists>now. in_clock inp = Inr now \<and> fenced now (rt_of L'))"
proof -
  obtain now out where E: "tick_execute J args inp L = Inr (L', now, out)" "in_clock inp = Inr now"
    "role (rt_of L') = Writer" "is_success (report out)"
    by (rule startup_writer [OF assms(1,3)])
  then show ?thesis
    using execute_published [OF assms(2) E(1,4)] execute_turn(5) [OF E(1,3)]
    by (auto simp: runtime_role_def)
qed

theorem startup_fence_requires_writer_witness:
  "\<exists>L'. startup_fence ex_json ex_args (ex_input 105) (ex_loop ''a'' (\<lambda>_. None)) = (L', None) \<and>
     role (rt_of L') = Writer"
proof -
  have M: "ha_startup_fence_mode ex_args = RequireWriter" by (simp add: ex_args_def)
  obtain x' where "enable_writer readiness_executor 3 (lp_executor (ex_loop ''a'' (\<lambda>_. None))) = (x', None)"
    using enable_succeeds [OF ex_no_faults] by blast
  moreover have "rt_lease (runtime_new ''a'') = None" by (simp add: runtime_new_def)
  ultimately have "\<exists>L'. startup_fence ex_json ex_args (ex_input 105) (ex_loop ''a'' (\<lambda>_. None)) = (L', None)"
    by (simp add: startup_fence_def startup_verdict_def M turn_defs is_success_def Let_def ex_node_facts)
  then show ?thesis using startup_fence_requires_writer [OF M ex_in_step] by blast
qed

section \<open>Records and answers\<close>

text \<open>
  C21. A lease written to the lease file is the lease read from it, for a holder identity that is
  not empty, on one line and without surrounding white space; generation, time and duration are
  arbitrary 64-bit values.
\<close>

theorem lease_file_roundtrip:
  assumes "printable (holder_node_id l)" and "holder_node_id l \<noteq> []"
  shows "file_read_lease (File_Text (serialize_lease_record l)) = Inr (Some l) \<and>
    parse_lease_record (serialize_lease_record l) = Inr l"
  using assms by (simp add: read_serialized_lease parse_serialize_lease)

theorem lease_file_roundtrip_witness:
  "file_read_lease (File_Text (serialize_lease_record ex_lease)) = Inr (Some ex_lease)"
  using lease_file_roundtrip [of ex_lease]
  by (simp add: ex_lease_def printable_def trim_id no_white_bytes)

text \<open>
  Promotion is allowed exactly when the lease has not expired, is held by the candidate and
  has the target generation, and there is a freshness record that is not further in the future
  than the allowed skew, not older than the allowed age, and of a recent enough generation;
  the sums saturate at the largest 64-bit value.
\<close>

theorem promotion_allowed_iff:
  "validate_promotion now l req fr cfg = Inr () \<longleftrightarrow>
     unat now \<le> min (unat (renewed_at_secs l) + unat (ttl_secs l)) 18446744073709551615 \<and>
     holder_node_id l = candidate_node_id req \<and> lease_generation l = target_generation req \<and>
     (\<exists>f. fr = Some f \<and>
        unat (synced_at_secs f) \<le> min (unat now + unat (max_future_skew_secs cfg)) 18446744073709551615 \<and>
        unat now - unat (synced_at_secs f) \<le> unat (max_freshness_age_secs cfg) \<and>
        min_source_generation req \<le> source_generation f)"
  unfolding promotion_ok_iff unexpired_iff ..

text \<open>
  A request passes the bearer-token check exactly when authentication is disabled or its
  authorization entry is the configured token after the Bearer scheme.
\<close>

theorem request_authorised_iff:
  "auth_check a header = Inr () \<longleftrightarrow>
     token a = None \<or> header = Some (Some (''Bearer '' @ the (token a)))"
  by (cases "token a") (auto simp: auth_check_iff simp del: append.simps)

text \<open>
  The health endpoint answers 200 on its health path exactly when a turn has completed and
  the clock is at most the staleness bound past it; a clock that has gone back counts as fresh.
\<close>

theorem healthz_iff_recent_tick:
  "fst (health_answer ready last_tick stale (Inr now) ''/healthz'') = ''HTTP/1.1 200 OK'' \<longleftrightarrow>
     last_tick \<noteq> 0 \<and> unat now \<le> unat last_tick + unat stale"
  by (auto simp: health_answer_def Let_def word_less_nat_alt unat_saturating_sub)

end
