(* ===== verification/Engine_Facts.thy ===== *)
theory Engine_Facts
  imports Engine
begin

text \<open>
  Facts about the engine: where resolved paths lie, how the chunks of a streamed query relate to
  the unary query, and what a batch leaves behind. What is needed of SQLite's transactions is
  the hypothesis \<open>transactional\<close>.
\<close>

section \<open>Paths stay below the data directory\<close>

lemma split_slash_not_Nil [simp]: "split_slash acc s \<noteq> []"
  by (induction s arbitrary: acc) auto

lemma split_slash_append:
  "split_slash acc (a @ CHR ''/'' # b) = split_slash acc a @ split_slash [] b"
  by (induction a arbitrary: acc) auto

lemma hd_split_slash: "hd (split_slash [] (a @ CHR ''/'' # b)) = hd (split_slash [] a)"
  by (simp add: split_slash_append)

lemma hd_split_acc: "acc \<noteq> [] \<Longrightarrow> hd (split_slash acc s) \<noteq> []"
  by (induction s arbitrary: acc) auto

lemma map_filter_append: "List.map_filter f (xs @ ys) = List.map_filter f xs @ List.map_filter f ys"
  by (simp add: List.map_filter_def)

lemma part_component_simps [simp]: "part_component [] = None" "part_component ''.'' = None"
  by (simp_all add: part_component_def)

text \<open>Components of a relative path that does not start with a dot.\<close>

lemma components_relative:
  assumes "list_all is_normal (components b)" and "b \<noteq> []"
  shows "components b = List.map_filter part_component (split_slash [] b)" and "hd b \<noteq> CHR ''/''"
  using assms by (auto simp: components_def Let_def split: if_splits)

lemma components_join:
  assumes "list_all is_normal (components b)" and "b \<noteq> []"
  shows "components (path_join a b) = components a @ components b"
proof -
  note b = components_relative [OF assms]
  consider "a = []" | a' where "a = a' @ [CHR ''/'']" | "a \<noteq> []" "last a \<noteq> CHR ''/''"
    by (cases a rule: rev_cases) auto
  then show ?thesis
  proof cases
    case 1
    with b(2) show ?thesis by (simp add: path_join_def components_def)
  next
    case 2
    then have j: "path_join a b = a' @ CHR ''/'' # b" using b(2) assms(2) by (simp add: path_join_def)
    show ?thesis
      unfolding j b(1) using 2
      by (cases a') (auto simp: components_def Let_def split_slash_append map_filter_append hd_append
          List.map_filter_simps)
  next
    case 3
    then have j: "path_join a b = a @ CHR ''/'' # b" using b(2) assms(2) by (simp add: path_join_def)
    show ?thesis
      unfolding j b(1) using 3
      by (cases a) (auto simp: components_def Let_def split_slash_append map_filter_append
          hd_split_slash)
  qed
qed

lemma resolved_components:
  assumes "resolve_db_path E eng name = Inr path"
  shows "components path = components (data_dir eng) @ components (trim name)"
    and "components (trim name) \<noteq> [] \<Longrightarrow> list_all is_normal (components (trim name))"
    and "list_all is_normal (components (trim name))"
  using assms components_join [of "trim name"]
  by (auto simp: resolve_db_path_def Let_def split: if_splits option.splits)

lemma components_not_Nil:
  assumes "s \<noteq> []"
  shows "components s \<noteq> []"
proof (cases s)
  case (Cons c t)
  show ?thesis
  proof (cases "c = CHR ''/''")
    case False
    then have "hd (split_slash [] s) \<noteq> []" "split_slash [] s = hd (split_slash [] s) # tl (split_slash [] s)"
      using Cons by (auto simp: hd_split_acc)
    then show ?thesis using Cons False
      by (cases "split_slash [] s")
         (auto simp: components_def Let_def List.map_filter_simps part_component_def)
  qed (simp add: components_def Cons)
qed (use assms in simp)

section \<open>Two bodies of the row loop\<close>

lemma row_loop_related:
  assumes "row_loop S cols max_rows push acc n st w = Some y"
    and "R acc acc2" and "\<And>a b x k. R a b \<Longrightarrow> R (push a x k) (push2 b x k)"
  shows "\<exists>r2. row_loop S cols max_rows push2 acc2 n st w = Some (fst y, r2) \<and>
    rel_sum (=) (rel_prod R (=)) (snd y) r2"
proof -
  let ?P = "\<lambda>S cols max_rows push acc n st w y. \<forall>acc2.
    (\<forall>a b x k. R a b \<longrightarrow> R (push a x k) (push2 b x k)) \<longrightarrow> R acc acc2 \<longrightarrow>
    (\<exists>r2. row_loop S cols max_rows push2 acc2 n st w = Some (fst y, r2) \<and>
      rel_sum (=) (rel_prod R (=)) (snd y) r2)"
  have "?P S cols max_rows push acc n st w y"
  proof (rule row_loop.raw_induct [where P = ?P, OF _ assms(1)], intro allI impI)
    fix loop S cols max_rows push acc n st w y acc2
    assume IH: "\<And>S cols max_rows push acc n st w y. loop S cols max_rows push acc n st w = Some y \<Longrightarrow>
        ?P S cols max_rows push acc n st w y"
      and body: "(case step_stmt S st w of (w', st', Inl e) \<Rightarrow> Some (w', Inl e)
        | (w', st', Inr Step_Row) \<Rightarrow>
            let total' = n + 1; acc' = push acc (row_of S cols st') total'
            in if 0 < max_rows \<and> ucast max_rows \<le> total' then Some (w', Inr (acc', total'))
               else loop S cols max_rows push acc' total' st' w'
        | (w', st', Inr Step_Done) \<Rightarrow> Some (w', Inr (acc, n))) = Some y"
      and push: "\<forall>a b x k. R a b \<longrightarrow> R (push a x k) (push2 b x k)" and R: "R acc acc2"
    obtain w' st' res where step: "step_stmt S st w = (w', st', res)" by (cases "step_stmt S st w")
    show "\<exists>r2. row_loop S cols max_rows push2 acc2 n st w = Some (fst y, r2) \<and>
        rel_sum (=) (rel_prod R (=)) (snd y) r2"
    proof (cases "res = Inr Step_Row \<and> \<not> (0 < max_rows \<and> ucast max_rows \<le> n + 1)")
      case True
      then have "loop S cols max_rows push (push acc (row_of S cols st') (n + 1)) (n + 1) st' w' = Some y"
        using body by (simp add: step Let_def split: if_splits)
      moreover have "R (push acc (row_of S cols st') (n + 1)) (push2 acc2 (row_of S cols st') (n + 1))"
        using push R by blast
      ultimately have "\<exists>r2. row_loop S cols max_rows push2 (push2 acc2 (row_of S cols st') (n + 1))
          (n + 1) st' w' = Some (fst y, r2) \<and> rel_sum (=) (rel_prod R (=)) (snd y) r2"
        using IH push by blast
      moreover have "row_loop S cols max_rows push2 acc2 n st w =
          row_loop S cols max_rows push2 (push2 acc2 (row_of S cols st') (n + 1)) (n + 1) st' w'"
        using True by (subst row_loop.simps) (auto simp: step Let_def)
      ultimately show ?thesis by simp
    next
      case False
      then show ?thesis
        using body push R
        by (subst row_loop.simps) (auto simp: step Let_def split: sum.splits step_result.splits if_splits)
    qed
  qed
  with assms(2,3) show ?thesis by blast
qed

section \<open>Chunks of a streamed query\<close>

definition full_chunks :: "column_header list \<Rightarrow> nat \<Rightarrow> chunk_state \<Rightarrow> row list \<Rightarrow> bool" where
  "full_chunks columns k cs rows \<longleftrightarrow>
     concat (map ck_rows (cs_chunks cs)) @ cs_rows cs = rows \<and>
     (\<forall>c \<in> set (cs_chunks cs). length (ck_rows c) = k \<and> \<not> ck_last c) \<and>
     length (cs_rows cs) < k \<and> (cs_first cs \<longleftrightarrow> cs_chunks cs = []) \<and>
     (cs_chunks cs \<noteq> [] \<longrightarrow> ck_columns (hd (cs_chunks cs)) = columns) \<and>
     (\<forall>c \<in> set (tl (cs_chunks cs)). ck_columns c = [])"

lemma push_full:
  assumes "full_chunks columns (unat k) cs rows"
  shows "full_chunks columns (unat k) (push_chunk columns k cs r n) (rows @ [r])"
proof (cases "cs_chunks cs")
  case Nil
  with assms show ?thesis by (auto simp: full_chunks_def push_chunk_def Let_def)
next
  case (Cons c cks)
  with assms show ?thesis by (auto simp: full_chunks_def push_chunk_def Let_def)
qed

text \<open>The chunks of a stream against the response of the unary query.\<close>

definition chunks_match :: "nat \<Rightarrow> query_chunk list \<Rightarrow> query_response \<Rightarrow> bool" where
  "chunks_match k chunks resp \<longleftrightarrow>
     chunks \<noteq> [] \<and> concat (map ck_rows chunks) = qr_rows resp \<and>
     (\<forall>c \<in> set (butlast chunks). length (ck_rows c) = k \<and> \<not> ck_last c) \<and>
     ck_last (last chunks) \<and> length (ck_rows (last chunks)) < k \<and>
     ck_total (last chunks) = qr_total resp \<and>
     ck_columns (hd chunks) = qr_columns resp \<and> (\<forall>c \<in> set (tl chunks). ck_columns c = [])"

lemma finish_match:
  assumes "full_chunks columns k cs rows" and "qr_rows resp = rows" and "qr_total resp = n"
    and "qr_columns resp = columns"
  shows "chunks_match k (finish_chunks columns cs n) resp"
proof (cases "cs_chunks cs")
  case Nil
  with assms show ?thesis by (auto simp: chunks_match_def full_chunks_def finish_chunks_def)
next
  case (Cons c cks)
  with assms show ?thesis by (auto simp: chunks_match_def full_chunks_def finish_chunks_def)
qed

lemma stream_query_match:
  assumes "stream_query_chunks E eng db stmt max_rows k w = Some (w', Inr chunks)" and "k > 0"
  shows "\<exists>resp. query E eng db stmt max_rows g rep w = Some (w', Inr resp) \<and>
    chunks_match (unat k) chunks resp"
proof -
  from assms(1) obtain w1 st where p: "prepared E eng db stmt True w = (w1, Inr st)"
    by (auto simp: stream_query_chunks_def split: prod.splits sum.splits)
  with assms(1) obtain r where "row_loop (sqlite_of E) (column_indices (sqlite_of E) st) max_rows
      (push_chunk (column_headers (sqlite_of E) st) k)
      \<lparr>cs_chunks = [], cs_rows = [], cs_first = True\<rparr> 0 st w1 = Some (w', r)"
    "(case r of Inl e \<Rightarrow> Inl e
      | Inr (cs, n) \<Rightarrow> Inr (finish_chunks (column_headers (sqlite_of E) st) cs n)) = Inr chunks"
    by (auto simp: stream_query_chunks_def Let_def)
  then obtain cs n where
    loop: "row_loop (sqlite_of E) (column_indices (sqlite_of E) st) max_rows
      (push_chunk (column_headers (sqlite_of E) st) k)
      \<lparr>cs_chunks = [], cs_rows = [], cs_first = True\<rparr> 0 st w1 = Some (w', Inr (cs, n))" and
    chunks: "chunks = finish_chunks (column_headers (sqlite_of E) st) cs n"
    by (cases r) auto
  let ?R = "full_chunks (column_headers (sqlite_of E) st) (unat k)"
  have "?R \<lparr>cs_chunks = [], cs_rows = [], cs_first = True\<rparr> []"
    using assms(2) by (simp add: full_chunks_def word_less_nat_alt)
  from row_loop_related [OF loop, of ?R "[]" "\<lambda>rows r _. rows @ [r]", OF this push_full]
  obtain rows where "row_loop (sqlite_of E) (column_indices (sqlite_of E) st) max_rows
      (\<lambda>rows r _. rows @ [r]) [] 0 st w1 = Some (w', Inr (rows, n))" and "?R cs rows"
    by (auto simp: rel_sum.simps elim!: rel_prod.cases)
  with p show ?thesis by (auto simp: query_def chunks intro!: finish_match)
qed

section \<open>Batches in a transaction\<close>

text \<open>
  What the engine relies on of SQLite's transactions. \<open>committed\<close> is what other connections see,
  \<open>in_tx\<close> that a transaction is open; \<open>plain\<close> are statements other than transaction control,
  \<open>handle\<close> their prepared handles. Opening, the pragmas of the engine, \<open>BEGIN\<close> and \<open>ROLLBACK\<close>
  commit nothing; inside a transaction a plain statement commits nothing and keeps the
  transaction open unless it fails.
\<close>

definition ok_code :: "int \<Rightarrow> bool" where
  "ok_code rc \<longleftrightarrow> rc = SQLITE_OK \<or> rc = SQLITE_DONE \<or> rc = SQLITE_ROW"

definition engine_sql :: "string set" where
  "engine_sql =
     {''PRAGMA journal_mode=WAL;'', ''PRAGMA synchronous=NORMAL;'', ''PRAGMA busy_timeout=5000;'',
      ''ROLLBACK''} \<union> range begin_sql"

definition transactional ::
  "('w, 's) engine_env \<Rightarrow> ('w \<Rightarrow> 'd) \<Rightarrow> ('w \<Rightarrow> bool) \<Rightarrow> (string \<Rightarrow> bool) \<Rightarrow> ('s \<Rightarrow> bool) \<Rightarrow> bool" where
  "transactional E committed in_tx plain handle \<longleftrightarrow>
     (\<forall>path flags w. committed (fst (open_at E path flags w)) = committed w) \<and>
     (\<forall>sql \<in> engine_sql. \<forall>w. committed (fst (sq_exec (sqlite_of E) sql w)) = committed w) \<and>
     (\<forall>m w. ok_code (snd (sq_exec (sqlite_of E) (begin_sql m) w)) \<longrightarrow>
        in_tx (fst (sq_exec (sqlite_of E) (begin_sql m) w))) \<and>
     (\<forall>sql w w' rc st. plain sql \<longrightarrow> in_tx w \<longrightarrow> sq_prepare (sqlite_of E) sql w = (w', rc, st) \<longrightarrow>
        committed w' = committed w \<and> in_tx w' \<and> handle st) \<and>
     (\<forall>st idx a w w' st' rc. handle st \<longrightarrow> in_tx w \<longrightarrow> sq_bind (sqlite_of E) st idx a w = (w', st', rc) \<longrightarrow>
        committed w' = committed w \<and> in_tx w' \<and> handle st') \<and>
     (\<forall>st w w' st' rc. handle st \<longrightarrow> in_tx w \<longrightarrow> sq_step (sqlite_of E) st w = (w', st', rc) \<longrightarrow>
        committed w' = committed w \<and> handle st' \<and> (ok_code rc \<longrightarrow> in_tx w'))"

lemma check_ok: "check m rc = Inr u \<longleftrightarrow> ok_code rc"
  by (simp add: check_def ok_code_def)

lemma transactional_laws:
  assumes "transactional E committed in_tx plain handle"
  shows "committed (fst (open_at E path flags w)) = committed w"
    and "sql \<in> engine_sql \<Longrightarrow> committed (fst (sq_exec (sqlite_of E) sql w)) = committed w"
    and "ok_code (snd (sq_exec (sqlite_of E) (begin_sql m) w)) \<Longrightarrow>
      in_tx (fst (sq_exec (sqlite_of E) (begin_sql m) w))"
    and "plain sql \<Longrightarrow> in_tx w \<Longrightarrow> sq_prepare (sqlite_of E) sql w = (w', rc, st) \<Longrightarrow>
      committed w' = committed w \<and> in_tx w' \<and> handle st"
    and "handle st \<Longrightarrow> in_tx w \<Longrightarrow> sq_bind (sqlite_of E) st idx a w = (w', st', rc) \<Longrightarrow>
      committed w' = committed w \<and> in_tx w' \<and> handle st'"
    and "handle st \<Longrightarrow> in_tx w \<Longrightarrow> sq_step (sqlite_of E) st w = (w', st', rc) \<Longrightarrow>
      committed w' = committed w \<and> handle st' \<and> (ok_code rc \<longrightarrow> in_tx w')"
  using assms unfolding transactional_def by (elim conjE; metis)+

lemma tx_exec:
  assumes "transactional E committed in_tx plain handle" and "sql \<in> engine_sql"
    and "exec_sql (sqlite_of E) sql w = (w', r)"
  shows "committed w' = committed w"
proof (cases "nul_error sql")
  case None
  with assms(3) have "w' = fst (sq_exec (sqlite_of E) sql w)"
    by (simp add: exec_sql_def case_prod_beta Let_def)
  with transactional_laws(2) [OF assms(1,2)] show ?thesis by simp
qed (use assms(3) in \<open>simp add: exec_sql_def\<close>)

lemma tx_begin:
  assumes "transactional E committed in_tx plain handle"
    and "exec_sql (sqlite_of E) (begin_sql m) w = (w', Inr u)"
  shows "committed w' = committed w \<and> in_tx w'"
proof -
  have "committed w' = committed w"
    by (rule tx_exec [OF assms(1) _ assms(2)]) (simp add: engine_sql_def)
  moreover obtain rc where "sq_exec (sqlite_of E) (begin_sql m) w = (w', rc)" "ok_code rc"
    using assms(2) by (simp add: exec_sql_def check_ok case_prod_beta Let_def split: option.splits)
      (metis prod.collapse)
  ultimately show ?thesis using transactional_laws(3) [OF assms(1), of m w] by simp
qed

lemma tx_bind:
  assumes "transactional E committed in_tx plain handle" and "handle st" and "in_tx w"
    and "bind_proto_value (sqlite_of E) st idx v w = (w', st', r)"
  shows "committed w' = committed w \<and> in_tx w' \<and> handle st'"
proof -
  from assms(4) obtain a rc where "sq_bind (sqlite_of E) st idx a w = (w', st', rc)"
    by (cases "(sqlite_of E, st, idx, v)" rule: bind_proto_value.cases)
       (auto simp: checked_def bind_null_def bind_int64_def bind_double_def bind_text_def bind_blob_def
          split: prod.splits)
  then show ?thesis by (rule transactional_laws(5) [OF assms(1-3)])
qed

lemma tx_positional:
  assumes "transactional E committed in_tx plain handle"
  shows "handle st \<Longrightarrow> in_tx w \<Longrightarrow> bind_positional (sqlite_of E) k vs st w = (w', st', r) \<Longrightarrow>
    committed w' = committed w \<and> in_tx w' \<and> handle st'"
proof (induction vs arbitrary: k st w)
  case (Cons v vs)
  obtain w1 st1 r1 where b: "bind_proto_value (sqlite_of E) st (sint (of_nat (k + 1) :: 32 word)) v w =
      (w1, st1, r1)" by (cases "bind_proto_value (sqlite_of E) st (sint (of_nat (k + 1) :: 32 word)) v w")
  note one = tx_bind [OF assms Cons.prems(1,2) b]
  show ?case
  proof (cases r1)
    case (Inl e)
    with one b Cons.prems(3) show ?thesis by simp
  next
    case (Inr u)
    with b Cons.prems(3) have "bind_positional (sqlite_of E) (Suc k) vs st1 w1 = (w', st', r)" by simp
    with one Cons.IH show ?thesis by auto
  qed
qed simp

lemma tx_named:
  assumes "transactional E committed in_tx plain handle"
  shows "handle st \<Longrightarrow> in_tx w \<Longrightarrow> bind_named (sqlite_of E) ps st w = (w', st', r) \<Longrightarrow>
    committed w' = committed w \<and> in_tx w' \<and> handle st'"
proof (induction "sqlite_of E" ps st w rule: bind_named.induct)
  case (3 name v ps st w)
  show ?case
  proof (cases "bind_parameter_index (sqlite_of E) st name")
    case None
    with 3 show ?thesis by simp
  next
    case (Some idx)
    obtain w1 st1 r1 where b: "bind_proto_value (sqlite_of E) st idx v w = (w1, st1, r1)"
      by (cases "bind_proto_value (sqlite_of E) st idx v w")
    note one = tx_bind [OF assms 3(2,3) b]
    show ?thesis
    proof (cases r1)
      case (Inl e)
      with one b Some 3(4) show ?thesis by simp
    next
      case (Inr u)
      with b Some 3(4) have "bind_named (sqlite_of E) ps st1 w1 = (w', st', r)" by simp
      with 3(1) [OF Some b [symmetric] refl Inr] one show ?thesis by auto
    qed
  qed
qed auto

lemma tx_parameters:
  assumes "transactional E committed in_tx plain handle" and "handle st" and "in_tx w"
    and "bind_parameters (sqlite_of E) params st w = (w', st', r)"
  shows "committed w' = committed w \<and> in_tx w' \<and> handle st'"
proof (cases params)
  case None
  with assms show ?thesis by (simp add: bind_parameters_def)
next
  case (Some p)
  obtain w1 st1 r1 where b: "bind_positional (sqlite_of E) 0 (positional p) st w = (w1, st1, r1)"
    by (cases "bind_positional (sqlite_of E) 0 (positional p) st w")
  note one = tx_positional [OF assms(1-3) b]
  show ?thesis
  proof (cases r1)
    case (Inl e)
    with one b Some assms(4) show ?thesis by (simp add: bind_parameters_def)
  next
    case (Inr u)
    with b Some assms(4) have "bind_named (sqlite_of E) (named p) st1 w1 = (w', st', r)"
      by (simp add: bind_parameters_def)
    from tx_named [OF assms(1) _ _ this] one show ?thesis by simp
  qed
qed

lemma tx_step:
  assumes "transactional E committed in_tx plain handle" and "handle st" and "in_tx w"
    and "step_stmt (sqlite_of E) st w = (w', st', r)"
  shows "committed w' = committed w \<and> handle st' \<and> (\<forall>v. r = Inr v \<longrightarrow> in_tx w')"
proof -
  from assms(4) obtain rc where s: "sq_step (sqlite_of E) st w = (w', st', rc)"
    and "\<forall>v. r = Inr v \<longrightarrow> ok_code rc"
    by (auto simp: step_stmt_def check_def ok_code_def split: prod.splits if_splits)
  with transactional_laws(6) [OF assms(1-3) s] show ?thesis by blast
qed

lemma row_loop_invariant:
  assumes "row_loop S cols max_rows push acc n st w = Some y" and "I st w"
    and "\<And>st w w' st' r. I st w \<Longrightarrow> step_stmt S st w = (w', st', r) \<Longrightarrow>
      (case r of Inl _ \<Rightarrow> F w' | Inr _ \<Rightarrow> I st' w')"
  shows "case snd y of Inl _ \<Rightarrow> F (fst y) | Inr _ \<Rightarrow> \<exists>st'. I st' (fst y)"
proof -
  let ?K = "\<lambda>S. \<forall>st w w' st' r. I st w \<longrightarrow> step_stmt S st w = (w', st', r) \<longrightarrow>
      (case r of Inl _ \<Rightarrow> F w' | Inr _ \<Rightarrow> I st' w')"
  let ?C = "\<lambda>y. case snd y of Inl _ \<Rightarrow> F (fst y) | Inr _ \<Rightarrow> \<exists>st'. I st' (fst y)"
  let ?P = "\<lambda>S cols max_rows push acc n st w y. ?K S \<longrightarrow> I st w \<longrightarrow> ?C y"
  have "?P S cols max_rows push acc n st w y"
  proof (rule row_loop.raw_induct [where P = ?P, OF _ assms(1)], intro impI)
    fix loop S cols max_rows push acc n st w y
    assume IH: "\<And>S cols max_rows push acc n st w y. loop S cols max_rows push acc n st w = Some y \<Longrightarrow>
        ?P S cols max_rows push acc n st w y"
      and body: "(case step_stmt S st w of (w', st', Inl e) \<Rightarrow> Some (w', Inl e)
        | (w', st', Inr Step_Row) \<Rightarrow>
            let total' = n + 1; acc' = push acc (row_of S cols st') total'
            in if 0 < max_rows \<and> ucast max_rows \<le> total' then Some (w', Inr (acc', total'))
               else loop S cols max_rows push acc' total' st' w'
        | (w', st', Inr Step_Done) \<Rightarrow> Some (w', Inr (acc, n))) = Some y"
      and K: "?K S" and I: "I st w"
    obtain w' st' res where step: "step_stmt S st w = (w', st', res)" by (cases "step_stmt S st w")
    with K I have next': "case res of Inl _ \<Rightarrow> F w' | Inr _ \<Rightarrow> I st' w'" by blast
    show "?C y"
    proof (cases "res = Inr Step_Row \<and> \<not> (0 < max_rows \<and> ucast max_rows \<le> n + 1)")
      case True
      then have "loop S cols max_rows push (push acc (row_of S cols st') (n + 1)) (n + 1) st' w' = Some y"
        using body by (simp add: step Let_def split: if_splits)
      from IH [OF this] K next' True show ?thesis by simp
    next
      case False
      with body next' show ?thesis
        by (auto simp: step Let_def split: sum.splits step_result.splits if_splits)
    qed
  qed
  with assms(2,3) show ?thesis by blast
qed

lemma tx_rows:
  assumes "transactional E committed in_tx plain handle" and "handle st" and "in_tx w"
    and "row_loop (sqlite_of E) cols max_rows push acc n st w = Some y"
  shows "committed (fst y) = committed w \<and> (\<forall>v. snd y = Inr v \<longrightarrow> in_tx (fst y))"
proof -
  let ?I = "\<lambda>st v. handle st \<and> in_tx v \<and> committed v = committed w"
  have "case snd y of Inl _ \<Rightarrow> committed (fst y) = committed w | Inr _ \<Rightarrow> \<exists>st'. ?I st' (fst y)"
  proof (rule row_loop_invariant [OF assms(4), where I = ?I and F = "\<lambda>v. committed v = committed w"])
    fix st v w' st' and r :: "step_result res"
    assume "?I st v" and "step_stmt (sqlite_of E) st v = (w', st', r)"
    with tx_step [OF assms(1), of st v w' st' r]
    show "case r of Inl _ \<Rightarrow> committed w' = committed w | Inr _ \<Rightarrow> ?I st' w'"
      by (simp split: sum.split)
  qed (use assms(2,3) in simp)
  then show ?thesis by (simp split: sum.splits)
qed

lemma tx_statement:
  assumes tx: "transactional E committed in_tx plain handle" and "plain (st_sql stmt)" and "in_tx w"
    and run: "batch_statement (sqlite_of E) g stmt w = Some (w', r)"
  shows "committed w' = committed w \<and> (\<not> is_error r \<longrightarrow> in_tx w')"
proof -
  obtain w1 p where p: "prepare (sqlite_of E) (st_sql stmt) w = (w1, p)"
    by (cases "prepare (sqlite_of E) (st_sql stmt) w")
  have one: "committed w1 = committed w \<and> in_tx w1 \<and> (\<forall>st. p = Inr st \<longrightarrow> handle st)"
  proof (cases "nul_error (st_sql stmt)")
    case None
    obtain rc st where "sq_prepare (sqlite_of E) (st_sql stmt) w = (w1, rc, st)"
      using p None by (auto simp: prepare_def split: prod.splits)
    with p None transactional_laws(4) [OF assms(1-3) this] show ?thesis
      by (auto simp: prepare_def split: sum.splits)
  qed (use p assms(3) in \<open>auto simp: prepare_def\<close>)
  show ?thesis
  proof (cases p)
    case (Inl e)
    with run p one show ?thesis by (auto simp: batch_statement_def)
  next
    case (Inr st)
    obtain w2 st' b where b: "bind_parameters (sqlite_of E) (st_parameters stmt) st w1 = (w2, st', b)"
      by (cases "bind_parameters (sqlite_of E) (st_parameters stmt) st w1")
    have two: "committed w2 = committed w1 \<and> in_tx w2 \<and> handle st'"
      by (rule tx_parameters [OF tx _ _ b]) (use one Inr in simp_all)
    obtain w3 st3 s where s: "step_stmt (sqlite_of E) st' w2 = (w3, st3, s)"
      by (cases "step_stmt (sqlite_of E) st' w2")
    have three: "committed w3 = committed w2 \<and> (\<forall>v. s = Inr v \<longrightarrow> in_tx w3)"
      using tx_step [OF tx _ _ s] two by blast
    show ?thesis
    proof (cases "is_readonly (sqlite_of E) st \<and> b = Inr ()")
      case True
      then obtain y where y: "row_loop (sqlite_of E) (column_indices (sqlite_of E) st') 0
          (\<lambda>rows r _. rows @ [r]) [] 0 st' w2 = Some y"
        using run p b Inr by (auto simp: batch_statement_def)
      have "committed (fst y) = committed w2 \<and> (\<forall>v. snd y = Inr v \<longrightarrow> in_tx (fst y))"
        by (rule tx_rows [OF tx _ _ y]) (use two in simp_all)
      with run p b Inr True one two y show ?thesis
        by (cases y; cases "snd y") (auto simp: batch_statement_def)
    next
      case False
      with run p b Inr one two three s show ?thesis
        by (auto simp: batch_statement_def Let_def split: if_splits sum.splits)
    qed
  qed
qed

lemma tx_loop:
  assumes "transactional E committed in_tx plain handle"
  shows "in_tx w \<Longrightarrow> (\<And>stmt. stmt \<in> set stmts \<Longrightarrow> plain (st_sql stmt)) \<Longrightarrow>
    batch_loop (sqlite_of E) g True stmts results False w = Some (w', results', has_error) \<Longrightarrow>
    committed w' = committed w"
proof (induction stmts arbitrary: results w)
  case (Cons stmt stmts)
  obtain w1 r where r: "batch_statement (sqlite_of E) g stmt w = Some (w1, r)"
    using Cons.prems(3) by (auto split: option.splits)
  have one: "committed w1 = committed w \<and> (\<not> is_error r \<longrightarrow> in_tx w1)"
    by (rule tx_statement [OF assms _ Cons.prems(1) r]) (use Cons.prems(2) in simp)
  show ?case
  proof (cases "is_error r")
    case True
    with r one Cons.prems(3) show ?thesis by simp
  next
    case False
    with r Cons.prems(3) have "batch_loop (sqlite_of E) g True stmts (results @ [r]) False w1 =
        Some (w', results', has_error)" by simp
    from Cons.IH [OF _ _ this] one False Cons.prems(2) show ?thesis by simp
  qed
qed simp

lemma batch_loop_errors:
  "batch_loop S g stop stmts results has_error w = Some (w', results', has_error') \<Longrightarrow>
    has_error = (\<exists>r \<in> set results. is_error r) \<Longrightarrow>
    has_error' = (\<exists>r \<in> set results'. is_error r)"
proof (induction stmts arbitrary: results has_error w)
  case (Cons stmt stmts)
  obtain w1 r where r: "batch_statement S g stmt w = Some (w1, r)"
    using Cons.prems(1) by (auto split: option.splits)
  show ?case
  proof (cases "is_error r \<and> stop")
    case True
    with r Cons.prems show ?thesis by auto
  next
    case False
    with r Cons.prems(1) have "batch_loop S g stop stmts (results @ [r]) (has_error \<or> is_error r) w1 =
        Some (w', results', has_error')" by (simp split: if_splits)
    from Cons.IH [OF this] Cons.prems(2) show ?thesis by auto
  qed
qed simp

lemma tx_exec_all:
  assumes "transactional E committed in_tx plain handle"
  shows "set sqls \<subseteq> engine_sql \<Longrightarrow> exec_all (sqlite_of E) sqls w = (w', r) \<Longrightarrow>
    committed w' = committed w"
proof (induction sqls arbitrary: w)
  case (Cons sql sqls)
  obtain w1 r1 where x: "exec_sql (sqlite_of E) sql w = (w1, r1)" by (cases "exec_sql (sqlite_of E) sql w")
  then have "committed w1 = committed w" using tx_exec [OF assms _ x] Cons.prems(1) by simp
  with x Cons.prems Cons.IH [of w1] show ?case by (cases r1) auto
qed simp

lemma tx_open:
  assumes "transactional E committed in_tx plain handle"
    and "engine_open E eng db read_only w = (w', r)"
  shows "committed w' = committed w"
proof (cases "resolve_db_path E eng db")
  case (Inr path)
  let ?flags = "if read_only then SQLITE_OPEN_READONLY else SQLITE_OPEN_READWRITE + SQLITE_OPEN_CREATE"
  obtain w1 env where o: "open_at E path ?flags w = (w1, env)" by (cases "open_at E path ?flags w")
  have "committed w1 = committed w" using transactional_laws(1) [OF assms(1), of path ?flags w] o by simp
  moreover have "{''PRAGMA journal_mode=WAL;'', ''PRAGMA synchronous=NORMAL;'',
      ''PRAGMA busy_timeout=5000;''} \<subseteq> engine_sql" by (simp add: engine_sql_def)
  ultimately show ?thesis
    using assms(2) Inr o
    by (auto simp: engine_open_def Let_def simp del: exec_all.simps dest!: tx_exec_all [OF assms(1), rotated]
        split: sum.splits if_splits)
qed (use assms(2) in \<open>simp add: engine_open_def\<close>)

lemma failed_batch:
  assumes tx: "transactional E committed in_tx plain handle"
    and plain: "\<And>stmt. stmt \<in> set stmts \<Longrightarrow> plain (st_sql stmt)" and "tx_mode \<noteq> Tx_None"
    and run: "batch E eng db stmts tx_mode True g w = Some (eng', w', Inr resp)"
    and failed: "\<exists>r \<in> set (br_results resp). is_error r"
  shows "committed w' = committed w \<and> \<not> br_committed resp"
proof -
  obtain w1 p where o: "engine_open E eng db False w = (w1, p)" by (cases "engine_open E eng db False w")
  obtain w2 q where b: "exec_sql (sqlite_of E) (begin_sql tx_mode) w1 = (w2, q)"
    by (cases "exec_sql (sqlite_of E) (begin_sql tx_mode) w1")
  have ok: "p = Inr ()" "q = Inr ()"
    using run assms(3) o b by (auto simp: batch_def Let_def case_prod_beta split: sum.splits)
  obtain w3 results has_error where
    l: "batch_loop (sqlite_of E) g True stmts [] False w2 = Some (w3, results, has_error)"
    using run assms(3) o b ok by (auto simp: batch_def Let_def case_prod_beta split: option.splits)
  note o = o [unfolded ok] and b = b [unfolded ok]
  have "results = br_results resp"
    using run assms(3) o b l by (simp add: batch_def Let_def case_prod_beta) auto
  with batch_loop_errors [OF l] failed have "has_error" by simp
  with run assms(3) o b l have w': "w' = fst (exec_sql (sqlite_of E) ''ROLLBACK'' w3)" and
    "\<not> br_committed resp"
    by (auto simp: batch_def Let_def case_prod_beta batch_end_def)
  moreover have "committed w' = committed w3"
    by (rule tx_exec [OF tx, of "''ROLLBACK''"]) (auto simp: engine_sql_def w' prod_eq_iff)
  moreover have "committed w3 = committed w2" by (rule tx_loop [OF tx _ plain l]) (use tx_begin [OF tx b] in simp)
  ultimately show ?thesis using tx_begin [OF tx b] tx_open [OF tx o] by simp
qed

end
