(* ===== verification/Engine_Locks.thy ===== *)
theory Engine_Locks
  imports Engine
begin

text \<open>
  The write locks of the engine under concurrent calls. Every writing operation of
  \<open>src/src/gateway/engine.rs\<close> fetches the lock of its database from the registry
  (\<open>get_db_lock\<close>), blocks on it (\<open>blocking_lock\<close>), works, and releases it when the guard goes out
  of scope; \<open>drop_database\<close> also removes the registry entry before it returns. The registry
  operations are those of \<open>Engine\<close>; here the calls interleave between these points.

  Shown: the registry stays well formed under every operation; without drops two calls never
  hold the lock of the same name at once; a drop can let them.
\<close>

section \<open>The registry\<close>

definition registry_ok :: "engine \<Rightarrow> bool" where
  "registry_ok eng \<longleftrightarrow>
     (\<forall>k l. db_mutexes eng k = Some l \<longrightarrow> l < next_mutex eng \<and> trim k = k) \<and>
     (\<forall>k k' l. db_mutexes eng k = Some l \<longrightarrow> db_mutexes eng k' = Some l \<longrightarrow> k = k')"

definition forget_lock :: "engine \<Rightarrow> string \<Rightarrow> engine" where
  "forget_lock eng name = eng\<lparr>db_mutexes := (db_mutexes eng)(trim name := None)\<rparr>"

lemma trim_twice [simp]: "trim (trim s) = trim s"
  using trimmed_trim trim_fixed_iff by blast

lemma get_db_lock_registered:
  "get_db_lock eng name = (eng', l) \<Longrightarrow> db_mutexes eng' (trim name) = Some l"
  by (auto simp: get_db_lock_def Let_def split: option.splits)

lemma get_db_lock_keeps:
  "get_db_lock eng name = (eng', l) \<Longrightarrow> db_mutexes eng k = Some m \<Longrightarrow> db_mutexes eng' k = Some m"
  by (auto simp: get_db_lock_def Let_def split: option.splits)

lemma registry_ok_get:
  "registry_ok eng \<Longrightarrow> registry_ok (fst (get_db_lock eng name))"
  by (fastforce simp: registry_ok_def get_db_lock_def Let_def split: option.splits)

lemma registry_ok_forget: "registry_ok eng \<Longrightarrow> registry_ok (forget_lock eng name)"
  by (auto simp: registry_ok_def forget_lock_def)

lemma registry_ok_new: "engine_new e dir = Inr eng \<Longrightarrow> registry_ok eng"
  by (auto simp: engine_new_def registry_ok_def split: option.splits)

lemma execute_engine: "fst (execute E eng db stmt g w) = fst (get_db_lock eng db)"
  by (simp add: execute_def case_prod_beta split: sum.split)

lemma batch_engine:
  "batch E eng db stmts m stop g w = Some (eng', r) \<Longrightarrow> eng' = fst (get_db_lock eng db)"
  by (auto simp: batch_def Let_def case_prod_beta split: sum.splits option.splits if_splits)

lemma drop_engine:
  "fst (drop_database E eng db w) \<in>
     {fst (get_db_lock eng db), forget_lock (fst (get_db_lock eng db)) db}"
  by (simp add: drop_database_def forget_lock_def Let_def case_prod_beta split: sum.split)

section \<open>Interleaved calls\<close>

text \<open>A call: not started, with its lock fetched, or holding it.\<close>

datatype call = Idle | Waiting string nat | Holding string nat

record calls =
  registry :: engine
  call_of :: "nat \<Rightarrow> call"

definition fetch_lock :: "nat \<Rightarrow> string \<Rightarrow> calls \<Rightarrow> calls" where
  "fetch_lock c name s =
     (let (eng', l) = get_db_lock (registry s) name
      in s\<lparr>registry := eng', call_of := (call_of s)(c := Waiting name l)\<rparr>)"

definition free_lock :: "nat \<Rightarrow> calls \<Rightarrow> bool" where
  "free_lock l s \<longleftrightarrow> (\<forall>c name. call_of s c \<noteq> Holding name l)"

inductive call_step :: "bool \<Rightarrow> calls \<Rightarrow> calls \<Rightarrow> bool" for drops :: bool where
  fetch: "call_of s c = Idle \<Longrightarrow> call_step drops s (fetch_lock c name s)"
| acquire: "call_of s c = Waiting name l \<Longrightarrow> free_lock l s \<Longrightarrow>
    call_step drops s (s\<lparr>call_of := (call_of s)(c := Holding name l)\<rparr>)"
| release: "call_of s c = Holding name l \<Longrightarrow>
    call_step drops s (s\<lparr>call_of := (call_of s)(c := Idle)\<rparr>)"
| forget: "drops \<Longrightarrow> call_of s c = Holding name l \<Longrightarrow>
    call_step drops s (s\<lparr>registry := forget_lock (registry s) name\<rparr>)"

definition calls_start :: "string \<Rightarrow> calls" where
  "calls_start dir =
     \<lparr>registry = \<lparr>data_dir = dir, db_mutexes = Map.empty, next_mutex = 0\<rparr>, call_of = (\<lambda>_. Idle)\<rparr>"

definition calls_ok :: "calls \<Rightarrow> bool" where
  "calls_ok s \<longleftrightarrow>
     registry_ok (registry s) \<and>
     (\<forall>c name l. call_of s c \<in> {Waiting name l, Holding name l} \<longrightarrow>
        db_mutexes (registry s) (trim name) = Some l) \<and>
     (\<forall>c c' n n' l. call_of s c = Holding n l \<longrightarrow> call_of s c' = Holding n' l \<longrightarrow> c = c')"

lemma calls_ok_start: "calls_ok (calls_start dir)"
  by (simp add: calls_ok_def calls_start_def registry_ok_def)

lemma calls_ok_step:
  assumes "call_step False s t" and "calls_ok s"
  shows "calls_ok t"
  using assms
proof (cases rule: call_step.cases)
  case (fetch c name)
  obtain eng' l where l: "get_db_lock (registry s) name = (eng', l)" by (cases "get_db_lock (registry s) name")
  have "registry_ok eng'"
    using registry_ok_get [of "registry s" name] assms(2) l by (simp add: calls_ok_def)
  with fetch assms(2) get_db_lock_registered [OF l] get_db_lock_keeps [OF l] show ?thesis
    by (auto simp: calls_ok_def fetch_lock_def l)
next
  case (acquire c name l)
  with assms(2) show ?thesis unfolding calls_ok_def free_lock_def by auto
next
  case (release c name l)
  with assms(2) show ?thesis by (auto simp: calls_ok_def)
qed simp

lemma calls_ok_reached: "(call_step False)\<^sup>*\<^sup>* (calls_start dir) s \<Longrightarrow> calls_ok s"
  by (induction rule: rtranclp_induct) (auto intro: calls_ok_start calls_ok_step)

lemma holder_registered:
  "calls_ok s \<Longrightarrow> call_of s c = Holding n l \<Longrightarrow> db_mutexes (registry s) (trim n) = Some l"
  unfolding calls_ok_def by blast

lemma one_holder:
  assumes "calls_ok s" and "call_of s c = Holding n l" and "call_of s c' = Holding n' l'"
    and "trim n = trim n'"
  shows "c = c'"
proof -
  have "l = l'" 
    using holder_registered [OF assms(1,2)] holder_registered [OF assms(1,3)] assms(4) by simp
  with assms show ?thesis unfolding calls_ok_def by blast
qed

section \<open>A drop between two calls\<close>

definition two_calls :: "engine \<Rightarrow> call \<Rightarrow> call \<Rightarrow> calls" where
  "two_calls eng a b = \<lparr>registry = eng, call_of = (\<lambda>_. Idle)(0 := a, 1 := b)\<rparr>"

lemma two_calls_simps [simp]:
  "registry (two_calls eng a b) = eng" "call_of (two_calls eng a b) 0 = a"
  "call_of (two_calls eng a b) (Suc 0) = b"
  "two_calls eng a b\<lparr>call_of := (call_of (two_calls eng a b))(0 := a')\<rparr> = two_calls eng a' b"
  "two_calls eng a b\<lparr>call_of := (call_of (two_calls eng a b))(Suc 0 := b')\<rparr> = two_calls eng a b'"
  "two_calls eng a b\<lparr>registry := eng'\<rparr> = two_calls eng' a b"
  "free_lock l (two_calls eng a b) \<longleftrightarrow> (\<forall>n. a \<noteq> Holding n l \<and> b \<noteq> Holding n l)"
  by (auto simp: two_calls_def free_lock_def fun_eq_iff)

lemma two_calls_fetch:
  assumes "get_db_lock eng name = (eng', l)"
  shows "call_step drops (two_calls eng Idle b) (two_calls eng' (Waiting name l) b)"
    and "call_step drops (two_calls eng a Idle) (two_calls eng' a (Waiting name l))"
  using call_step.fetch [of "two_calls eng Idle b" 0 drops name]
    call_step.fetch [of "two_calls eng a Idle" 1 drops name]
  by (simp_all add: fetch_lock_def assms two_calls_def fun_upd_twist)

lemma two_calls_steps:
  "\<forall>n. b \<noteq> Holding n l \<Longrightarrow>
     call_step drops (two_calls eng (Waiting name l) b) (two_calls eng (Holding name l) b)"
  "\<forall>n. a \<noteq> Holding n l \<Longrightarrow>
     call_step drops (two_calls eng a (Waiting name l)) (two_calls eng a (Holding name l))"
  "call_step drops (two_calls eng (Holding name l) b) (two_calls eng Idle b)"
  "call_step True (two_calls eng (Holding name l) b) (two_calls (forget_lock eng name) (Holding name l) b)"
  using call_step.acquire [of "two_calls eng (Waiting name l) b" 0 name l drops]
    call_step.acquire [of "two_calls eng a (Waiting name l)" 1 name l drops]
    call_step.release [of "two_calls eng (Holding name l) b" 0 name l drops]
    call_step.forget [of True "two_calls eng (Holding name l) b" 0 name l]
  by simp_all

lemma two_calls_start: "calls_start dir = two_calls (registry (calls_start dir)) Idle Idle"
  by (simp add: two_calls_def calls_start_def fun_eq_iff)

lemma drop_run:
  "\<exists>eng. (call_step True)\<^sup>*\<^sup>* (calls_start dir) (two_calls eng (Holding name 1) (Holding name 0))"
proof -
  define e where "e k l = \<lparr>data_dir = dir, db_mutexes = [trim name \<mapsto> l], next_mutex = k\<rparr>" for k l
  let ?e0 = "registry (calls_start dir)" and ?e2 = "forget_lock (e 1 0) name"
  have g: "get_db_lock ?e0 name = (e 1 0, 0)" "get_db_lock (e 1 0) name = (e 1 0, 0)"
    "get_db_lock ?e2 name = (e 2 1, 1)"
    by (simp_all add: get_db_lock_def calls_start_def e_def forget_lock_def)
  let ?S = "call_step True"
  have "?S\<^sup>*\<^sup>* (calls_start dir) (two_calls ?e0 Idle Idle)" using two_calls_start [of dir] by simp
  moreover have "?S (two_calls ?e0 Idle Idle) (two_calls (e 1 0) (Waiting name 0) Idle)"
    by (rule two_calls_fetch(1) [OF g(1)])
  moreover have "?S (two_calls (e 1 0) (Waiting name 0) Idle) (two_calls (e 1 0) (Holding name 0) Idle)"
    by (rule two_calls_steps(1)) simp
  moreover have "?S (two_calls (e 1 0) (Holding name 0) Idle)
      (two_calls (e 1 0) (Holding name 0) (Waiting name 0))"
    by (rule two_calls_fetch(2) [OF g(2)])
  moreover have "?S (two_calls (e 1 0) (Holding name 0) (Waiting name 0))
      (two_calls ?e2 (Holding name 0) (Waiting name 0))" by (rule two_calls_steps(4))
  moreover have "?S (two_calls ?e2 (Holding name 0) (Waiting name 0))
      (two_calls ?e2 Idle (Waiting name 0))" by (rule two_calls_steps(3))
  moreover have "?S (two_calls ?e2 Idle (Waiting name 0)) (two_calls ?e2 Idle (Holding name 0))"
    by (rule two_calls_steps(2)) simp
  moreover have "?S (two_calls ?e2 Idle (Holding name 0)) (two_calls (e 2 1) (Waiting name 1) (Holding name 0))"
    by (rule two_calls_fetch(1) [OF g(3)])
  moreover have "?S (two_calls (e 2 1) (Waiting name 1) (Holding name 0))
      (two_calls (e 2 1) (Holding name 1) (Holding name 0))" by (rule two_calls_steps(1)) simp
  ultimately show ?thesis by (meson rtranclp.rtrancl_into_rtrancl)
qed

end
