(* ===== verification/Engine_Properties.thy ===== *)
theory Engine_Properties
  imports Engine_Facts Engine_Locks
begin

text \<open>
  The properties of the gateway's database engine, with an example of SQLite for the witnesses:
  a table as the list of the statements it executed, a transaction as a second copy of it, and
  one statement that reads a given number of rows.
\<close>

section \<open>An example database\<close>

record ex_table =
  stored :: "string list"
  pending :: "string list"
  tx_open :: bool

definition ex_row :: connection where
  "ex_row =
     \<lparr>conn_page_size = 1, db_file = [], has_write_fd = True, errmsg_of = [],
      pragma = (\<lambda>_ _. \<lparr>prepare_rc = 0, step_rc = 100, column_int = 1\<rparr>),
      serialize_reply = None, exec_rc = (\<lambda>_. 0), write_io = (\<lambda>_ _. None),
      read_io = (\<lambda>_. Inr 0)\<rparr>"

definition ex_exec :: "string \<Rightarrow> ex_table \<Rightarrow> ex_table \<times> int" where
  "ex_exec sql w =
     (if sql = ''COMMIT'' then (w\<lparr>stored := pending w, tx_open := False\<rparr>, 0)
      else if sql = ''ROLLBACK'' then (w\<lparr>pending := stored w, tx_open := False\<rparr>, 0)
      else if sql \<in> {''BEGIN DEFERRED'', ''BEGIN IMMEDIATE'', ''BEGIN EXCLUSIVE''} then
        (w\<lparr>pending := stored w, tx_open := True\<rparr>, 0)
      else (w, 0))"

definition ex_step :: "string \<times> nat \<Rightarrow> ex_table \<Rightarrow> ex_table \<times> (string \<times> nat) \<times> int" where
  "ex_step st w =
     (case st of (sql, n) \<Rightarrow>
        if sql = ''READ'' then
          if n > 0 then (w, (sql, n - 1), 100) else (w, (sql, n), 101)
        else if tx_open w then (w\<lparr>pending := pending w @ [sql]\<rparr>, st, 101)
        else (w\<lparr>stored := stored w @ [sql]\<rparr>, st, 101))"

definition ex_sqlite :: "(ex_table, string \<times> nat) sqlite" where
  "ex_sqlite =
     \<lparr>sq_errmsg = (\<lambda>_. ''error''), sq_exec = ex_exec, sq_changes = (\<lambda>_. 1),
      sq_last_insert_rowid = (\<lambda>_. 0),
      sq_prepare = (\<lambda>sql w. (w, if sql = ''BAD'' then 1 else 0, (sql, 3))),
      sq_readonly = (\<lambda>(sql, _). if sql = ''READ'' then 1 else 0), sq_step = ex_step,
      sq_reset = (\<lambda>st w. (w, st, 0)), sq_clear_bindings = (\<lambda>st w. (w, st, 0)),
      sq_param_index = (\<lambda>_ _. 0), sq_bind = (\<lambda>st _ _ w. (w, st, 0)),
      sq_column_count = (\<lambda>_. 1), sq_column_name = (\<lambda>_ _. Some ''n''),
      sq_column_decltype = (\<lambda>_ _. None), sq_column_type = (\<lambda>_ _. 1),
      sq_column_int64 = (\<lambda>(_, n) _. of_nat n), sq_column_double = (\<lambda>_ _. 0),
      sq_column_text = (\<lambda>_ _. None), sq_column_blob = (\<lambda>_ _. None)\<rparr>"

definition ex_env :: "(ex_table, string \<times> nat) engine_env" where
  "ex_env =
     \<lparr>sqlite_of = ex_sqlite,
      open_at = (\<lambda>_ _ w. (w, \<lparr>path_nul = None, open_rc = 0, null_handle = False,
        busy_timeout_rc = 0, open_read_io = None, open_write_io = None, found = ex_row\<rparr>)),
      create_parent_error = (\<lambda>_. None), path_exists = (\<lambda>_ _. True),
      remove_file = (\<lambda>_ w. (w, Removed))\<rparr>"

definition ex_engine :: engine where
  "ex_engine = \<lparr>data_dir = ''/data'', db_mutexes = Map.empty, next_mutex = 0\<rparr>"

definition ex_world :: ex_table where
  "ex_world = \<lparr>stored = [''a''], pending = [], tx_open = False\<rparr>"

abbreviation ex_stmt :: "string \<Rightarrow> statement" where
  "ex_stmt sql \<equiv> \<lparr>st_sql = sql, st_parameters = None\<rparr>"


lemma ex_open_ok: "open_connection (snd (open_at ex_env p flags w)) flags \<noteq> Inl e"
  by (simp add: ex_env_def open_connection_def ex_row_def check_def sqlite_codes query_pragma_u32_def
      query_pragma_from.simps MAX_RETRIES_def)

section \<open>Paths\<close>

text \<open>
  C22. A database name that resolves names a file strictly below the data directory: the path
  is the data directory followed by at least one ordinary component, and by no root, current or
  parent directory component.
\<close>

theorem resolved_path_confined:
  assumes "resolve_db_path E eng db_name = Inr path"
  shows "\<exists>rest. rest \<noteq> [] \<and> list_all is_normal rest \<and> components path = components (data_dir eng) @ rest"
  using resolved_components [OF assms] assms components_not_Nil [of "trim db_name"]
  by (auto simp: resolve_db_path_def Let_def split: if_splits)

theorem resolved_path_confined_witness:
  "resolve_db_path ex_env ex_engine '' a/b.db '' = Inr ''/data/a/b.db'' \<and>
   (\<exists>rest. rest \<noteq> [] \<and> list_all is_normal rest \<and> components ''/data/a/b.db'' = components ''/data'' @ rest) \<and>
   (\<exists>e. resolve_db_path ex_env ex_engine ''a/../../b'' = Inl e)"
proof -
  have r: "resolve_db_path ex_env ex_engine '' a/b.db '' = Inr ''/data/a/b.db''" by code_simp
  moreover have "\<exists>e. resolve_db_path ex_env ex_engine ''a/../../b'' = Inl e"
    by (rule exI [of _ "Protocol (''invalid database name '' @ [CHR 0x27] @ ''a/../../b'' @ [CHR 0x27] @
          '': path traversal not permitted'')"]) code_simp
  ultimately show ?thesis
    using resolved_path_confined [OF r] by (simp add: ex_engine_def)
qed

section \<open>Queries\<close>

text \<open>
  C23. A streamed query that ends yields exactly the rows of the unary query on the same
  database: every chunk but the last has the requested number of rows, the last one is marked
  and carries the total, and only the first carries the column headers.
\<close>

theorem streamed_query_is_the_query:
  assumes "stream_query_chunks E eng db_name stmt max_rows k w = Some (w', Inr chunks)" and "k > 0"
  shows "\<exists>resp. query E eng db_name stmt max_rows generation is_replica w = Some (w', Inr resp) \<and>
    chunks_match (unat k) chunks resp"
  by (rule stream_query_match [OF assms])

lemma ex_opened: "engine_open ex_env ex_engine ''t'' read_only w = (w, Inr ())"
proof -
  have "resolve_db_path ex_env ex_engine ''t'' = Inr ''/data/t''" by code_simp
  then show ?thesis
    by (simp add: engine_open_def ex_env_def open_connection_def ex_row_def check_def sqlite_codes
        query_pragma_u32_def query_pragma_from.simps MAX_RETRIES_def ex_sqlite_def exec_sql_def
        ex_exec_def nul_error_def)
qed

lemma ex_sqlite_simps:
  "sqlite_of ex_env = ex_sqlite" "sq_exec ex_sqlite = ex_exec" "sq_step ex_sqlite = ex_step"
  "sq_prepare ex_sqlite sql w = (w, if sql = ''BAD'' then 1 else 0, (sql, 3))"
  "sq_readonly ex_sqlite (sql, n) = (if sql = ''READ'' then 1 else 0)" "sq_column_count ex_sqlite st = 1"
  by (simp_all add: ex_env_def ex_sqlite_def)

lemma ex_read:
  "step_stmt ex_sqlite (''READ'', Suc k) w = (w, (''READ'', k), Inr Step_Row)"
  "step_stmt ex_sqlite (''READ'', 0) w = (w, (''READ'', 0), Inr Step_Done)"
  by (simp_all add: step_stmt_def ex_sqlite_simps ex_step_def sqlite_codes)

lemma ex_rows:
  "row_loop ex_sqlite cols 0 push acc n (''READ'', Suc k) w =
     row_loop ex_sqlite cols 0 push (push acc (row_of ex_sqlite cols (''READ'', k)) (n + 1)) (n + 1)
       (''READ'', k) w"
  "row_loop ex_sqlite cols 0 push acc n (''READ'', 0) w = Some (w, Inr (acc, n))"
  by (simp_all add: row_loop.simps [of ex_sqlite cols 0 push acc n] ex_read Let_def)

lemmas ex_engine_defs = ex_opened ex_sqlite_simps ex_rows prepared_def prepare_def nul_error_def
  bind_parameters_def check_def sqlite_codes numeral_3_eq_3

theorem streamed_query_is_the_query_witness:
  "\<exists>w' chunks resp.
     stream_query_chunks ex_env ex_engine ''t'' (ex_stmt ''READ'') 0 2 ex_world = Some (w', Inr chunks) \<and>
     map (\<lambda>c. length (ck_rows c)) chunks = [2, 1] \<and>
     query ex_env ex_engine ''t'' (ex_stmt ''READ'') 0 7 False ex_world = Some (w', Inr resp) \<and>
     chunks_match 2 chunks resp"
proof -
  obtain w' chunks where s: "stream_query_chunks ex_env ex_engine ''t'' (ex_stmt ''READ'') 0 2 ex_world =
      Some (w', Inr chunks)" and l: "map (\<lambda>c. length (ck_rows c)) chunks = [2, 1]"
    by (simp add: stream_query_chunks_def ex_engine_defs push_chunk_def finish_chunks_def)
  from streamed_query_is_the_query [OF s, of 7 False] s l show ?thesis by auto
qed

section \<open>Batches\<close>



section \<open>Locks\<close>



text \<open>
  C26. As long as no database is dropped, two concurrent calls never hold the write lock of the
  same database name, up to surrounding white space.
\<close>

theorem one_writer_per_name:
  assumes "(call_step False)\<^sup>*\<^sup>* (calls_start dir) s"
    and "call_of s c = Holding n l" and "call_of s c' = Holding n' l'" and "trim n = trim n'"
  shows "c = c'"
  by (rule one_holder [OF calls_ok_reached [OF assms(1)] assms(2-4)])

theorem one_writer_per_name_witness:
  "\<exists>s c. (call_step False)\<^sup>*\<^sup>* (calls_start []) s \<and> call_of s 0 = Holding ''a'' 0 \<and>
     call_of s c = Holding ''a'' 0 \<and> c = 0"
proof -
  let ?e = "\<lparr>data_dir = [], db_mutexes = [''a'' \<mapsto> 0], next_mutex = 1\<rparr>"
  let ?s = "two_calls ?e (Holding ''a'' 0) Idle"
  have t: "trim ''a'' = ''a''" by code_simp
  have "get_db_lock (registry (calls_start [])) ''a'' = (?e, 0)"
    by (simp add: get_db_lock_def calls_start_def t)
  from two_calls_fetch(1) [OF this, of False Idle]
  have "call_step False (calls_start []) (two_calls ?e (Waiting ''a'' 0) Idle)"
    using two_calls_start [of "[]"] by simp
  moreover have "call_step False (two_calls ?e (Waiting ''a'' 0) Idle) ?s"
    by (rule two_calls_steps(1)) simp
  ultimately have "(call_step False)\<^sup>*\<^sup>* (calls_start []) ?s" by simp
  moreover from this have "c = 0" if "call_of ?s c = Holding ''a'' 0" for c
    using one_writer_per_name [of "[]" ?s c "''a''" 0 0 "''a''" 0] that by simp
  ultimately show ?thesis by (intro exI [of _ ?s] exI [of _ 0]) simp
qed

text \<open>
  C27. Dropping a database breaks this: the drop removes the registry entry while another call
  may already wait on the old lock, so that call and a later one, which gets a fresh lock, can
  both hold the lock of the name.
\<close>

theorem drop_admits_two_writers:
  "\<exists>s l l'. (call_step True)\<^sup>*\<^sup>* (calls_start dir) s \<and>
     call_of s 0 = Holding name l \<and> call_of s 1 = Holding name l'"
  using drop_run [of dir name] by fastforce

end
