(* ===== verification/Gateway_Properties.thy ===== *)
theory Gateway_Properties
  imports Ha_Properties Engine_Properties Replication Sync_Examples
begin

text \<open>
  The properties of the gateway: who may write and read, who gets a replication session, and
  what a session over gRPC does. They join the gateway handlers with the cluster of
  \<open>Ha_Cluster\<close>, the engine, and the protocol handlers.
\<close>

section \<open>Writes and reads\<close>

definition ex_gateway :: gateway_env where
  "ex_gateway = \<lparr>header_value = (\<lambda>_. True), join_error = None, server_version = ''1'', uptime = 0\<rparr>"



text \<open>
  C29. A query that answers carries the generation the node publishes and is marked as a replica
  read exactly when the node is not the writer; that happens only for an eventually consistent
  query, on a node that allows replica reads.
\<close>

theorem replica_reads_are_marked:
  assumes "gw_query G E now state req eng w = Some (w', Inr resp)"
  shows "qr_generation resp = sh_generation state \<and>
    qr_replica_read resp = (\<not> is_writer now state) \<and>
    (qr_replica_read resp \<longrightarrow>
       consistency_of (rq_consistency req) = Eventual \<and> allow_replica_reads state)"
  by (rule gw_query_flag [OF assms])

theorem replica_reads_are_marked_witness:
  "\<exists>w' resp. gw_query ex_gateway ex_env 0 (shared_new ''a'' True)
     \<lparr>rq_database = ''t'', rq_statement = Some (ex_stmt ''READ''), rq_consistency = 1, rq_max_rows = 0,
      rq_chunk_size = 0\<rparr> ex_engine ex_world = Some (w', Inr resp) \<and> qr_replica_read resp"
proof -
  let ?st = "shared_new ''a'' True"
  let ?run = "gw_query ex_gateway ex_env 0 ?st
     \<lparr>rq_database = ''t'', rq_statement = Some (ex_stmt ''READ''), rq_consistency = 1, rq_max_rows = 0,
      rq_chunk_size = 0\<rparr> ex_engine ex_world"
  have n: "\<not> is_writer 0 ?st" by (simp add: is_writer_def shared_new_def)
  have "\<exists>w' resp. ?run = Some (w', Inr resp)"
    using n by (simp add: gw_query_def check_read_access_def consistency_of_def query_def ex_engine_defs
        joined_def ex_gateway_def) (simp add: shared_new_def)
  with replica_reads_are_marked [of ex_gateway ex_env 0 ?st] n show ?thesis by blast
qed

section \<open>Replication sessions\<close>

text \<open>
  A replication stream gets a session exactly when its first message is an initialisation
  with the right credentials, a database name that resolves and one of the two roles, and the
  client does not want to push to a node that is the active writer.
\<close>

theorem replication_admitted_iff:
  "(\<exists>session. replication_sync X files timer E R now header first = Inr session) \<longleftrightarrow>
     (\<exists>init path. first = Inr (Some (P_Init init)) \<and>
        check_request_or_token (rs_auth R) header (Some (init_auth_token init)) = Inr () \<and>
        resolve_db_path E (rs_engine R) (init_database init) = Inr path \<and>
        client_role init \<in> {1, 2} \<and>
        \<not> (client_role init = 2 \<and> (\<exists>state. rs_state R = Some state \<and> is_writer now state)))"
proof -
  have "(\<exists>session. replication_sync X files timer E R now header first = Inr session) \<longleftrightarrow>
      (\<exists>db path r. sync_admission E R now header first = Inr (db, path, r))"
    by (auto simp: replication_sync_def split: sum.splits)
  also have "\<dots> \<longleftrightarrow> (\<exists>init path r. first = Inr (Some (P_Init init)) \<and>
        check_request_or_token (rs_auth R) header (Some (init_auth_token init)) = Inr () \<and>
        resolve_db_path E (rs_engine R) (init_database init) = Inr path \<and>
        client_role_of (client_role init) = Some r \<and>
        \<not> (r = Role_Origin \<and> (\<exists>state. rs_state R = Some state \<and> is_writer now state)))"
    unfolding admission_iff by blast
  also have "\<dots> \<longleftrightarrow> (\<exists>init path. first = Inr (Some (P_Init init)) \<and>
        check_request_or_token (rs_auth R) header (Some (init_auth_token init)) = Inr () \<and>
        resolve_db_path E (rs_engine R) (init_database init) = Inr path \<and>
        client_role init \<in> {1, 2} \<and>
        \<not> (client_role init = 2 \<and> (\<exists>state. rs_state R = Some state \<and> is_writer now state)))"
    by (intro ex_cong1 conj_cong refl) (auto simp: client_role_of_def)
  finally show ?thesis .
qed







end
