(* ===== verification/Batch_Properties.thy ===== *)
theory Batch_Properties
  imports Modes Sync_Examples
begin

text \<open>
  The properties of batch mode and of endpoints, with a local entry that always succeeds and one
  whose endpoints are both gRPC endpoints as concrete inputs.
\<close>

section \<open>Concrete entries\<close>

definition ex_spec :: "string \<Rightarrow> string \<Rightarrow> batch_sync_spec" where
  "ex_spec origin replica =
     \<lparr>spec_name = None, spec_origin = origin, spec_replica = replica, spec_dry_run = None,
      spec_retries = Some 1, spec_timeout_secs = Some 5, spec_backoff_ms = Some 100,
      spec_backoff_max_ms = None, spec_jitter_pct = None, spec_auth_token = None\<rparr>"

definition ex_options :: batch_options where
  "ex_options =
     \<lparr>jobs = 1, default_dry_run = True, default_retries = 0, default_timeout_secs = None,
      backoff_base_ms = None, backoff_max_ms = None, jitter_pct = 0, options_tuning = default_tuning,
      options_auth_token = None\<rparr>"

definition ex_attempt :: attempt_env where
  "ex_attempt =
     \<lparr>ae_extern = ex_extern, ae_open = (\<lambda>_. ex_open [1, 2]), ae_exists = (\<lambda>_. True),
      ae_ssh = (\<lambda>_ _. \<lparr>connect_reply = Inr (), send_replies = [], recv_replies = [], close_reply = Inr ()\<rparr>),
      ae_dialer = \<lparr>url_error = (\<lambda>_. None), tls_error = None, connect_error = (\<lambda>_. None),
        header_error = (\<lambda>_. None), status_text = (\<lambda>_. [])\<rparr>,
      ae_serve = (\<lambda>_ _. Inr ()), ae_sent = [], ae_arrives = [], ae_slow = False, ae_entropy = 0\<rparr>"

lemma ex_dry_run:
  "run_one_inner ex_attempt (ex_spec ''a'' ''b'') True ex_options = Some (Returned ())"
proof -
  have "parse_endpoint ''a'' = Local ''a''" "parse_endpoint ''b'' = Local ''b''" by code_simp+
  then show ?thesis
    by (simp add: run_one_inner_def ex_spec_def ex_attempt_def dry_run_local_def ex_opened_origin
        to_outcome_def)
qed


section \<open>A batch\<close>

text \<open>
  C32. When every entry ends, the batch ends, whatever the order in which entries finish; its
  report lists the result of every entry exactly once, in the order of the manifest, and counts
  as failed exactly when some entry failed. On the way, never more entries are in flight than
  there are jobs.
\<close>

theorem batch_runs_every_entry_once:
  assumes "\<forall>i < length specs. \<exists>ds. run_one (env i) i (specs ! i) opts = Some (Returned (run i), ds)"
  shows "(\<exists>report. run_batch_sync env pick specs opts = Some (Returned report) \<and>
      report_results report = map run [0 ..< length specs] \<and> report_total report = length specs \<and>
      (any_failed report \<longleftrightarrow> (\<exists>i < length specs. \<not> item_success (run i)))) \<and>
    (\<forall>s. (batch_step run)\<^sup>*\<^sup>* (batch_start (jobs opts) (length specs)) s \<longrightarrow>
      length (in_flight s) \<le> max (unat (jobs opts)) 1)"
proof -
  let ?m = "unat (max (jobs opts) 1)" and ?n = "length specs"
  let ?run = "\<lambda>i. map_option fst (run_one (env i) i (specs ! i) opts)"
  let ?s = "batch_start (jobs opts) ?n"
  have m: "?m = max (unat (jobs opts)) 1" by (simp add: max_def word_le_nat_alt)
  have index: "item_index (run i) = i" if "i < ?n" for i using assms that run_one_index by blast
  have sets: "set (in_flight ?s) \<union> set (waiting ?s) = {0 ..< ?n}"
    unfolding batch_start_def Let_def batch_state.simps set_append [symmetric] append_take_drop_id set_upt ..
  have "\<exists>t. entries_loop ?run pick ?n ?s = Some (Returned t) \<and> (batch_step run)\<^sup>*\<^sup>* ?s t \<and> in_flight t = []"
  proof (rule entries_loop_steps)
    show "\<forall>i \<in> set (in_flight ?s) \<union> set (waiting ?s). ?run i = Some (Returned (run i))"
      unfolding sets using assms by force
    show "length (in_flight ?s) + length (waiting ?s) \<le> ?n" "waiting ?s \<noteq> [] \<longrightarrow> in_flight ?s \<noteq> []"
      using one_job [of "jobs opts"] by (auto simp: batch_start_def Let_def)
  qed
  then obtain t where t: "entries_loop ?run pick ?n ?s = Some (Returned t)" "(batch_step run)\<^sup>*\<^sup>* ?s t"
    "in_flight t = []" by blast
  have sorted: "sort_key item_index (arrived t) = map run [0 ..< ?n]"
    by (rule batch_ended [OF batch_ok_reached [OF t(2)] one_job t(3) index])
  then have "set (arrived t) = run ` {0 ..< ?n}" by (metis set_sort set_map set_upt)
  moreover have "report_results (batch_report (arrived t)) = map run [0 ..< ?n]"
    "report_total (batch_report (arrived t)) = ?n"
    by (simp_all add: batch_report_def Let_def sorted)
  moreover have "run_batch_sync env pick specs opts = Some (Returned (batch_report (arrived t)))"
    using t(1) by (simp add: run_batch_sync_def)
  moreover have "length (in_flight s) \<le> max (unat (jobs opts)) 1" if "(batch_step run)\<^sup>*\<^sup>* ?s s" for s
    using batch_ok_reached [OF that] unfolding batch_ok_def m by blast
  ultimately show ?thesis by (auto simp: report_failed_iff)
qed

theorem batch_runs_every_entry_once_witness:
  "\<exists>report. run_batch_sync (\<lambda>_ _. ex_attempt) id (replicate 2 (ex_spec ''a'' ''b'')) ex_options =
     Some (Returned report) \<and> report_total report = 2 \<and> \<not> any_failed report"
proof -
  let ?run = "\<lambda>i. \<lparr>item_index = i, item_id = ''a -> b'', item_error = None\<rparr>"
  have r: "run_one (\<lambda>_. ex_attempt) i (ex_spec ''a'' ''b'') ex_options = Some (Returned (?run i), [])" for i
  proof -
    have "attempt_count (ex_spec ''a'' ''b'') ex_options = 2"
      by (simp add: attempt_count_def ex_spec_def saturating_add_def)
    then have "unat (attempt_count (ex_spec ''a'' ''b'') ex_options) = Suc 1" by simp
    moreover have "spec_dry_run (ex_spec ''a'' ''b'') = None" "default_dry_run ex_options"
      "spec_timeout_secs (ex_spec ''a'' ''b'') = Some 5" "spec_identifier (ex_spec ''a'' ''b'') = ''a -> b''"
      by (simp_all add: ex_spec_def ex_options_def spec_identifier_def)
    moreover have "\<not> ae_slow ex_attempt" by (simp add: ex_attempt_def)
    ultimately show ?thesis by (simp add: run_one_def ex_dry_run limited_def)
  qed
  then show ?thesis
    using batch_runs_every_entry_once [of "replicate 2 (ex_spec ''a'' ''b'')" "\<lambda>_ _. ex_attempt" ex_options ?run id]
    by (auto simp: item_success_def)
qed

section \<open>An entry\<close>



section \<open>Back-off\<close>

text \<open>
  C34. The delay before a retry is the base doubled once per earlier attempt (31 times at most),
  capped by the maximum if there is one, and moved by at most the jitter percentage of that
  value, up to the largest 64-bit number; there is none exactly when that value is 0.
\<close>

theorem retry_delay_bounds:
  fixes mx attempt pct ent
  assumes "unat base < 2 ^ 74"
  defines "d \<equiv> backoff_ms base mx attempt"
  defines "span \<equiv> d * unat pct div 100"
  shows "(retry_delay_for_attempt_core base mx pct attempt ent = None \<longleftrightarrow> d = 0) \<and>
    (\<forall>ms. retry_delay_for_attempt_core base mx pct attempt ent = Some ms \<longrightarrow>
       min (d - span) (2 ^ 64 - 1) \<le> unat ms \<and> unat ms \<le> d + span)"
proof -
  define q where "q = unat ent mod (2 * span + 1)"
  define a where "a = (if span > 0 then d + q - span else d)"
  define ms where "ms = (if a < 2 ^ 64 then of_nat a else - 1 :: u64)"
  have core: "retry_delay_for_attempt_core base mx pct attempt ent = (if d = 0 then None else Some ms)"
    using delay_core [OF assms(1), of mx pct attempt ent] by (simp add: d_def span_def a_def q_def ms_def Let_def)
  have "q \<le> 2 * span" unfolding q_def by (simp flip: less_Suc_eq_le)
  then have "d - span \<le> a \<and> a \<le> d + span" by (auto simp: a_def)
  moreover have "unat ms = min a (2 ^ 64 - 1)"
    by (auto simp: ms_def unat_of_nat unsigned_minus_1_eq_mask mask_eq_exp_minus_1)
  ultimately show ?thesis by (auto simp: core)
qed

theorem retry_delay_bounds_witness:
  "retry_delay_for_attempt_core 100 (Some 250) 10 3 7 \<noteq> None \<and>
   backoff_ms 100 (Some 250) 3 = 250"
proof -
  have "backoff_ms 100 (Some 250) 3 = 250" by (simp add: backoff_ms_def)
  then show ?thesis using retry_delay_bounds [of 100 "Some 250" 10 3 7] by simp
qed

end
