(* ===== verification/Client_Gateway.thy ===== *)
theory Client_Gateway
  imports Client
begin

text \<open>
  The client of \<open>Client\<close> against gateways of \<open>Gateway_Server\<close>. The contract a write needs is the
  locale \<open>retried_write\<close>: everything but the call itself, and the call itself when its answer says
  that the node is not the leader, leaves a condition of the network alone. Then a call that is
  not idempotent ends in a network in which the condition still holds, or one call away from it.

  The network \<open>net\<close> has a gateway per endpoint, each with its shared state, token, engine and
  databases, and records which requests a gateway has let through to its engine. Its interpretation
  of the contract is that the record is still empty. While a client waits, clocks and nodes change
  as they like.
\<close>

section \<open>The contract of a retried write\<close>

definition resolver_keeps :: "('w \<Rightarrow> bool) \<Rightarrow> 'w discovery_mode \<Rightarrow> bool" where
  "resolver_keeps P mode \<longleftrightarrow> (\<forall>f w. mode = Custom f \<longrightarrow> P w \<longrightarrow> P (fst (f w)))"

locale retried_write =
  fixes E :: "'w client_env" and rpc :: "('w, 'a) rpc" and untouched :: "'w \<Rightarrow> bool"
  assumes dial_keeps: "untouched w \<Longrightarrow> untouched (fst (dial E ep w))"
    and status_keeps: "untouched w \<Longrightarrow> untouched (fst (status_call E ep a w))"
    and pause_keeps: "untouched w \<Longrightarrow> untouched (pause E ms w)"
    and refusal_keeps: "untouched w \<Longrightarrow> rpc ep a w = (w', Inl st) \<Longrightarrow> is_not_leader_status st \<Longrightarrow>
      untouched w'"
begin

lemma probe_keeps: "untouched w \<Longrightarrow> untouched (fst (probe_candidates E tok cs w))"
proof (induction cs arbitrary: w)
  case (Cons c cs)
  let ?n = "normalize_endpoint c"
  obtain w1 d where d: "dial E ?n w = (w1, d)" by fastforce
  obtain w2 r where r: "status_call E ?n (authorized_request E tok) w1 = (w2, r)" by fastforce
  have w1: "untouched w1" using dial_keeps [OF Cons.prems, of ?n] by (simp add: d)
  have "untouched w2" using status_keeps [OF w1, of ?n "authorized_request E tok"] by (simp add: r)
  with w1 show ?case
    using Cons.IH Cons.prems by (simp add: Let_def d r split: option.split sum.split)
qed simp

lemma discover_keeps:
  assumes "resolver_keeps untouched mode" and "untouched w"
  shows "untouched (fst (discover_leader E mode tok w))"
proof (cases mode)
  case (Candidates cs)
  obtain w1 found where "probe_candidates E tok cs w = (w1, found)" by fastforce
  with probe_keeps [OF assms(2), of tok cs] show ?thesis
    by (simp add: discover_leader_def Candidates split: option.split)
next
  case (Custom f)
  then show ?thesis
    using assms by (simp add: discover_leader_def resolver_keeps_def split: prod.split sum.split)
      (metis fst_conv)
qed (use assms(2) in \<open>simp add: discover_leader_def\<close>)

lemma connect_keeps:
  assumes "resolver_keeps untouched (discovery (config c))" and "untouched w"
    and "get_or_connect E c w = (w1, c1, r)"
  shows "untouched w1"
proof (cases "tonic_client c")
  case None
  let ?d = "case current_endpoint c of Some ep \<Rightarrow> (w, Inr ep)
    | None \<Rightarrow> discover_leader E (discovery (config c)) (auth_token (config c)) w"
  obtain v d where v: "?d = (v, d)" by fastforce
  have "untouched (fst ?d)" using assms(2) discover_keeps [OF assms(1)] by (simp split: option.split)
  then have u: "untouched v" by (simp add: v)
  show ?thesis
  proof (cases d)
    case (Inr ep)
    obtain v1 x where x: "dial E ep v = (v1, x)" by fastforce
    have "untouched v1" using dial_keeps [OF u, of ep] by (simp add: x)
    then show ?thesis
      using assms(3) u None v Inr x by (auto simp: get_or_connect_def split: option.splits)
  qed (use assms(3) None v u in \<open>simp add: get_or_connect_def\<close>)
qed (use assms in \<open>simp add: get_or_connect_def\<close>)

text \<open>A write ends with the network untouched, or with the result of one call on an untouched network.\<close>

lemma at_most_one_call:
  assumes "retry_from E False rpc made ms c w = (w', c', r)"
    and "resolver_keeps untouched (discovery (config c))" and "untouched w"
  shows "untouched w' \<and> (\<exists>e. r = Inl e) \<or>
    (\<exists>ep a w0 r0. untouched w0 \<and> rpc ep a w0 = (w', r0) \<and> (\<forall>x. r = Inr x \<longleftrightarrow> r0 = Inr x))"
  using assms
proof (induction "unat (max_retries (config c)) - made" arbitrary: made ms c w rule: less_induct)
  case less
  let ?limit = "unat (max_retries (config c))" and ?a = "authorized_request E (auth_token (config c))"
  let ?ms = "next_backoff ms (max_backoff_ms (config c))"
  obtain w1 c1 x where x: "get_or_connect E c w = (w1, c1, x)" by (metis prod_cases3)
  have c1: "config c1 = config c" by (rule get_or_connect_config [OF x])
  have w1: "untouched w1" by (rule connect_keeps [OF less.prems(2,3) x])
  show ?case
  proof (cases x)
    case (Inl e)
    consider (stop) "\<exists>e. r = Inl e" "w' = w1"
      | (again) "Suc made < ?limit"
        "retry_from E False rpc (Suc made) ?ms (reset_connection c1) (pause E ms w1) = (w', c', r)"
      using less.prems(1) x Inl
      by (subst (asm) retry_from.simps) (auto simp: Let_def split: client_error.splits if_splits)
    then show ?thesis
    proof cases
      case again
      from less.hyps [OF _ again(2)] again(1) show ?thesis
        using less.prems(2) pause_keeps [OF w1] by (simp add: c1)
    qed (use w1 in blast)
  next
    case (Inr ch)
    obtain w2 y where y: "rpc ch ?a w1 = (w2, y)" by fastforce
    consider (one) "w' = w2" "\<forall>z. r = Inr z \<longleftrightarrow> y = Inr z"
      | (again) st where "Suc made < ?limit" "y = Inl st" "is_not_leader_status st"
        "retry_from E False rpc (Suc made) ?ms (process_leader_header E st c1) (pause E ms w2) = (w', c', r)"
      using less.prems(1) x Inr y
      by (subst (asm) retry_from.simps) (auto simp: Let_def split: sum.splits if_splits)
    then show ?thesis
    proof cases
      case one
      then show ?thesis using w1 y by blast
    next
      case again
      have "untouched w2" using refusal_keeps [OF w1 _ again(3)] y again(2) by simp
      from less.hyps [OF _ again(4)] again(1) show ?thesis
        using less.prems(2) pause_keeps [OF \<open>untouched w2\<close>] by (simp add: c1)
    qed
  qed
qed

end

section \<open>A network of gateways\<close>

record 'v site =
  site_auth :: auth_config
  site_state :: ha_shared_state
  site_engine :: engine
  site_db :: 'v

record 'v net =
  net_now :: u64
  sites :: "string \<rightharpoonup> 'v site"
  let_through :: "(string \<times> execute_request) list"

text \<open>
  An endpoint without a gateway refuses connections, and a channel to it answers \<open>Unavailable\<close>.
  A gateway checks the token before its handler runs.
\<close>

definition unreachable :: status where
  "unreachable = status_new Unavailable ''tcp connect error''"

definition net_execute ::
  "gateway_env \<Rightarrow> ('v, 's) engine_env \<Rightarrow> execute_request \<Rightarrow> ('v net, execute_response) rpc" where
  "net_execute G L req ep a N =
     (case sites N ep of
        None \<Rightarrow> (N, Inl unreachable)
      | Some s \<Rightarrow>
          (case auth_check (site_auth s) (map_option Some a) of
             Inl e \<Rightarrow> (N, Inl e)
           | Inr _ \<Rightarrow>
               (let (eng, v, r) = gw_execute G L (net_now N) (site_state s) req (site_engine s) (site_db s)
                in (N\<lparr>sites := (sites N)(ep \<mapsto> s\<lparr>site_engine := eng, site_db := v\<rparr>),
                      let_through := let_through N @
                        (if is_writer (net_now N) (site_state s) then [(ep, req)] else [])\<rparr>, r))))"

definition net_status ::
  "gateway_env \<Rightarrow> ('v \<Rightarrow> fs_node option) \<Rightarrow> ('v net, cluster_status) rpc" where
  "net_status G root ep a N =
     (N, case sites N ep of
           None \<Rightarrow> Inl unreachable
         | Some s \<Rightarrow>
             (case auth_check (site_auth s) (map_option Some a) of
                Inl e \<Rightarrow> Inl e
              | Inr _ \<Rightarrow> get_cluster_status G (net_now N) (site_state s) (root (site_db s))))"

text \<open>\<open>evolve\<close> is what the clocks, the controllers and other clients do while this client sleeps.\<close>

definition net_env ::
  "gateway_env \<Rightarrow> ('v \<Rightarrow> fs_node option) \<Rightarrow> (string \<Rightarrow> string option) \<Rightarrow>
     (u64 \<Rightarrow> u64 \<times> (string \<rightharpoonup> 'v site) \<Rightarrow> u64 \<times> (string \<rightharpoonup> 'v site)) \<Rightarrow> 'v net client_env" where
  "net_env G root uri evolve =
     \<lparr>uri_error = uri,
      dial = (\<lambda>ep N. (N, if sites N ep = None then Some ''tcp connect error'' else None)),
      status_call = net_status G root, metadata_value = header_value G, readable = header_value G,
      pause = (\<lambda>ms N. let (t, f) = evolve ms (net_now N, sites N) in N\<lparr>net_now := t, sites := f\<rparr>)\<rparr>"

definition net_stub ::
  "gateway_env \<Rightarrow> ('v, 's) engine_env \<Rightarrow> 'v net gateway_stub \<Rightarrow> 'v net gateway_stub" where
  "net_stub G L other = other\<lparr>execute_rpc := net_execute G L\<rparr>"

lemma let_through_refusal:
  assumes "net_execute G L req ep a N = (N', Inl st)" and "is_not_leader_status st"
  shows "let_through N' = let_through N"
proof (rule ccontr)
  assume "let_through N' \<noteq> let_through N"
  then obtain s where s: "sites N ep = Some s" "is_writer (net_now N) (site_state s)"
    "auth_check (site_auth s) (map_option Some a) = Inr ()"
    using assms(1) by (auto simp: net_execute_def split: option.splits sum.splits prod.splits if_splits)
  from s assms(1)
  have "snd (snd (gw_execute G L (net_now N) (site_state s) req (site_engine s) (site_db s))) = Inl st"
    by (auto simp: net_execute_def split: prod.splits)
  then have "st_metadata st = Map.empty"
    using s(2) by (auto simp: gw_execute_def check_write_access_def joined_def status_new_def
        split: option.splits prod.splits sum.splits)
  with assms(2) show False by (simp add: is_not_leader_status_def)
qed

lemma let_through_success:
  assumes "net_execute G L req ep a N = (N', Inr x)"
  shows "let_through N' = let_through N @ [(ep, req)]"
proof -
  from assms obtain s where s: "sites N ep = Some s"
    "auth_check (site_auth s) (map_option Some a) = Inr ()"
    by (auto simp: net_execute_def split: option.splits sum.splits)
  have "is_writer (net_now N) (site_state s)"
  proof (rule ccontr)
    assume "\<not> ?thesis"
    with assms s show False by (simp add: net_execute_def refused_write(1))
  qed
  with assms s show ?thesis by (auto simp: net_execute_def split: prod.splits)
qed

lemma let_through_bound:
  "net_execute G L req ep a N = (N', r) \<Longrightarrow> length (let_through N') \<le> Suc (length (let_through N))"
  by (auto simp: net_execute_def split: option.splits sum.splits prod.splits)

interpretation net_write: retried_write "net_env G root uri evolve" "net_execute G L req"
    "\<lambda>N. let_through N = []"
  for G root uri evolve L req
  by unfold_locales
    (simp_all add: net_env_def net_status_def let_through_refusal split: prod.split)

end
