(* ===== verification/Client_Properties.thy ===== *)
theory Client_Properties
  imports Client_Gateway Unified_Client Gateway_Properties
begin

text \<open>
  The properties of the client together with the gateways it talks to, with a network of two
  gateways as the concrete input: a replica that names the leader, and the leader.
\<close>

section \<open>A network of two gateways\<close>

definition ex_leader :: ha_shared_state where
  "ex_leader =
     \<lparr>sh_node_id = ''b'', sh_role = Writer, sh_generation = 1, active_leader_id = Some ''b'',
      active_leader_endpoint = Some ''b:1'',
      lease_of = Some \<lparr>holder_node_id = ''b'', lease_generation = 1, renewed_at_secs = 0, ttl_secs = 10\<rparr>,
      allow_replica_reads = False\<rparr>"

definition ex_follower :: ha_shared_state where
  "ex_follower = ex_leader\<lparr>sh_node_id := ''a'', sh_role := Replica\<rparr>"

definition ex_site :: "ha_shared_state \<Rightarrow> ex_table site" where
  "ex_site st =
     \<lparr>site_auth = auth_required ''k'', site_state = st, site_engine = ex_engine, site_db = ex_world\<rparr>"

definition ex_net :: "ex_table net" where
  "ex_net =
     \<lparr>net_now = 5, sites = [''http://a:1'' \<mapsto> ex_site ex_follower, ''http://b:1'' \<mapsto> ex_site ex_leader],
      let_through = []\<rparr>"

definition ex_net_env :: "ex_table net client_env" where
  "ex_net_env = net_env ex_gateway (\<lambda>_. None) (\<lambda>_. None) (\<lambda>_ s. s)"

definition ex_client :: "string option \<Rightarrow> ex_table net gateway_client" where
  "ex_client ep =
     \<lparr>config = (config_new (Direct ''a:1''))\<lparr>auth_token := Some ''k''\<rparr>, current_endpoint = ep,
      tonic_client = ep\<rparr>"

definition ex_stub :: "ex_table net gateway_stub" where
  "ex_stub =
     \<lparr>execute_rpc = net_execute ex_gateway ex_env, query_rpc = (\<lambda>_ _ _ N. (N, Inl unreachable)),
      stream_query_rpc = (\<lambda>_ _ _ N. (N, Inl unreachable)), batch_rpc = (\<lambda>_ _ _ N. (N, Inl unreachable)),
      drop_database_rpc = (\<lambda>_ _ _ N. (N, Inl unreachable))\<rparr>"

lemma ex_selectors:
  "header_value ex_gateway h" "site_state (ex_site st) = st" "site_engine (ex_site st) = ex_engine"
  "site_db (ex_site st) = ex_world" "net_now ex_net = 5" "tonic_client (ex_client ep) = ep"
  "max_retries (config (ex_client ep)) = 5"
  by (simp_all add: ex_gateway_def ex_site_def ex_net_def ex_client_def config_new_def default_config_def)

lemma ex_is_writer: "is_writer 5 ex_leader" "\<not> is_writer 5 ex_follower"
  by (simp_all add: is_writer_def enforce_write_fence_def is_expired_def saturating_add_def ex_leader_def
      ex_follower_def)

lemma ex_executes:
  "\<exists>eng v resp. gw_execute ex_gateway ex_env 5 ex_leader
     \<lparr>er_database = ''t'', er_statement = Some (ex_stmt ''x'')\<rparr> ex_engine ex_world = (eng, v, Inr resp)"
  using ex_is_writer(1)
  by (simp add: gw_execute_def check_write_access_def execute_def ex_engine_defs step_stmt_def
      ex_step_def ex_world_def case_prod_beta joined_def ex_gateway_def)

lemma ex_authorised:
  "auth_check (site_auth (ex_site st))
     (map_option Some (authorized_request ex_net_env (auth_token (config (ex_client ep))))) = Inr ()"
  by (simp add: auth_check_iff ex_site_def auth_required_def authorized_request_def ex_client_def
      ex_net_env_def net_env_def ex_gateway_def config_new_def default_config_def)

section \<open>Writes\<close>



section \<open>Failover\<close>

text \<open>
  C36. A client that sends a write to a gateway that is not the writer, and is told the leader's
  endpoint, sends it there next; if the gateway there executes it, the client returns that
  answer and stays with the leader.
\<close>

theorem redirect_is_followed:
  fixes G root uri evolve
  defines "E \<equiv> net_env G root uri evolve"
  assumes "tonic_client c = Some near" and "1 < max_retries (config c)"
    and "sites N near = Some f" and "\<not> is_writer (net_now N) (site_state f)"
    and "auth_check (site_auth f) (map_option Some (authorized_request E (auth_token (config c)))) = Inr ()"
    and "active_leader_endpoint (site_state f) = Some ep" and "ep \<noteq> []" and "header_value G ep"
    and "header_value G CODE_NOT_LEADER" and "uri (normalize_endpoint ep) = None"
    and "Nw = pause E (initial_backoff_ms (config c)) N"
    and "sites Nw (normalize_endpoint ep) = Some l"
    and "auth_check (site_auth l) (map_option Some (authorized_request E (auth_token (config c)))) = Inr ()"
    and "gw_execute G L (net_now Nw) (site_state l)
      \<lparr>er_database = db, er_statement = Some \<lparr>st_sql = sql, st_parameters = ps\<rparr>\<rparr>
      (site_engine l) (site_db l) = (eng, v, Inr resp)"
  shows "\<exists>N' c'. client_execute E (net_stub G L other) db sql ps c N = (N', c', Inr resp) \<and>
    current_endpoint c' = Some (normalize_endpoint ep) \<and> tonic_client c' = Some (normalize_endpoint ep)"
proof -
  let ?req = "\<lparr>er_database = db, er_statement = Some \<lparr>st_sql = sql, st_parameters = ps\<rparr>\<rparr>"
  let ?a = "authorized_request E (auth_token (config c))" and ?ep = "normalize_endpoint ep"
  let ?rpc = "net_execute G L ?req" and ?ms = "initial_backoff_ms (config c)"
  let ?st = "not_leader_status G (site_state f)" and ?c = "process_leader_header E
    (not_leader_status G (site_state f)) c"
  have first: "?rpc near ?a N = (N, Inl ?st)"
    using assms(4-6) by (simp add: net_execute_def refused_write(1) fun_upd_idem)
  have c: "?c = c\<lparr>current_endpoint := Some ?ep, tonic_client := None\<rparr>"
    using not_leader_endpoint [OF assms(7,9)] assms(8,9)
    by (simp add: process_leader_header_def E_def net_env_def)
  have "get_or_connect E ?c Nw = (Nw, ?c\<lparr>tonic_client := Some ?ep\<rparr>, Inr ?ep)"
    using assms(11,13) unfolding c by (intro dialled) (simp_all add: E_def net_env_def)
  moreover obtain N' where "?rpc ?ep ?a Nw = (N', Inr resp)"
    using assms(13-15) by (simp add: net_execute_def)
  ultimately have second: "retry_from E False ?rpc 1 ms ?c Nw = (N', ?c\<lparr>tonic_client := Some ?ep\<rparr>, Inr resp)"
    for ms by (subst retry_from.simps) (simp add: Let_def)
  have "unat (max_retries (config c)) > 1" using assms(3) by (simp add: word_less_nat_alt)
  then have "retry_from E False ?rpc 0 ?ms c N =
      retry_from E False ?rpc 1 (next_backoff ?ms (max_backoff_ms (config c))) ?c Nw"
    using first not_leader_recognised [OF assms(10)] assms(12)
    by (subst retry_from.simps) (simp add: Let_def connected [OF assms(2)])
  with second show ?thesis
    by (simp add: client_execute_def retry_loop_def net_stub_def c)
qed

theorem redirect_is_followed_witness:
  "\<exists>N' c' resp. client_execute ex_net_env (net_stub ex_gateway ex_env ex_stub) ''t'' ''x'' None
     (ex_client (Some ''http://a:1'')) ex_net = (N', c', Inr resp) \<and>
     current_endpoint c' = Some ''http://b:1''"
proof -
  have ep: "normalize_endpoint ''b:1'' = ''http://b:1''" by code_simp
  have s: "sites ex_net ''http://a:1'' = Some (ex_site ex_follower)"
    "sites ex_net ''http://b:1'' = Some (ex_site ex_leader)"
    by (simp_all add: ex_net_def)
  have f: "active_leader_endpoint ex_follower = Some ''b:1''" by (simp add: ex_follower_def ex_leader_def)
  have p: "pause ex_net_env ms ex_net = ex_net" for ms by (simp add: ex_net_env_def net_env_def ex_net_def)
  obtain eng v resp where x: "gw_execute ex_gateway ex_env 5 ex_leader
      \<lparr>er_database = ''t'', er_statement = Some (ex_stmt ''x'')\<rparr> ex_engine ex_world = (eng, v, Inr resp)"
    using ex_executes by blast
  have "\<exists>N' c'. client_execute ex_net_env (net_stub ex_gateway ex_env ex_stub) ''t'' ''x'' None
      (ex_client (Some ''http://a:1'')) ex_net = (N', c', Inr resp) \<and>
      current_endpoint c' = Some (normalize_endpoint ''b:1'') \<and> tonic_client c' = Some (normalize_endpoint ''b:1'')"
    unfolding ex_net_env_def
    by (rule redirect_is_followed [where near = "''http://a:1''" and ep = "''b:1''" and Nw = ex_net
          and f = "ex_site ex_follower" and l = "ex_site ex_leader" and eng = eng and v = v])
       (use s f p x ex_is_writer ex_authorised in \<open>simp_all add: ep ex_selectors flip: ex_net_env_def\<close>)
  then show ?thesis unfolding ep by blast
qed

section \<open>A writer that has gone away\<close>

text \<open>
  C37. A client whose gateway has gone away reports the failure of a write and keeps the channel:
  the same write fails in the same way each time, whichever other gateway has become the writer.
\<close>

theorem lost_writer_is_kept:
  assumes "tonic_client c = Some ep" and "sites N ep = None"
  shows "client_execute (net_env G root uri evolve) (net_stub G L other) db sql ps c N =
    (N, c, Inl (Rpc unreachable))"
proof -
  let ?rpc = "net_execute G L \<lparr>er_database = db, er_statement = Some \<lparr>st_sql = sql, st_parameters = ps\<rparr>\<rparr>"
  have "?rpc ep a N = (N, Inl unreachable)" for a using assms(2) by (simp add: net_execute_def)
  moreover have "\<not> is_not_leader_status unreachable"
    by (simp add: is_not_leader_status_def unreachable_def status_new_def)
  ultimately show ?thesis
    unfolding client_execute_def retry_loop_def
    by (subst retry_from.simps) (simp add: Let_def connected [OF assms(1)] net_stub_def)
qed

theorem lost_writer_is_kept_witness:
  "client_execute ex_net_env (net_stub ex_gateway ex_env ex_stub) ''t'' ''x'' None
     (ex_client (Some ''http://gone:1'')) ex_net =
   (ex_net, ex_client (Some ''http://gone:1''), Inl (Rpc unreachable))"
proof -
  have "sites ex_net ''http://gone:1'' = None" by code_simp
  then show ?thesis
    unfolding ex_net_env_def by (intro lost_writer_is_kept) (simp_all add: ex_client_def)
qed

end
