(* ===== verification/Cli_Properties.thy ===== *)
theory Cli_Properties
  imports Cli
begin

text \<open>
  Properties of the client command line: a script is split into its statements, delimited output
  can be read back, printed values are accepted as parameters, and the shell ends.
\<close>

section \<open>Scripts\<close>

text \<open>
  The quotes that are open after a text, or \<open>None\<close> if it has a semicolon outside quotes. A whole
  statement has none and leaves no quote open.
\<close>

fun quote_state :: "bool \<Rightarrow> bool \<Rightarrow> string \<Rightarrow> (bool \<times> bool) option" where
  "quote_state single dbl [] = Some (single, dbl)"
| "quote_state single dbl (c # s) =
     (if c = CHR 0x27 \<and> \<not> dbl then quote_state (\<not> single) dbl s
      else if c = CHR 0x22 \<and> \<not> single then quote_state single (\<not> dbl) s
      else if c = CHR '';'' \<and> \<not> single \<and> \<not> dbl then None
      else quote_state single dbl s)"

definition whole_statement :: "string \<Rightarrow> bool" where
  "whole_statement s \<longleftrightarrow> s \<noteq> [] \<and> trimmed s \<and> quote_state False False s = Some (False, False)"

lemma split_from_state:
  "quote_state a b s = Some (a', b') \<Longrightarrow>
     split_from current a b (s @ t) = split_from (current @ s) a' b' t"
  by (induction a b s arbitrary: current rule: quote_state.induct) (auto split: if_splits)

lemma finish_whole:
  "whole_statement s \<Longrightarrow> finish_statement s = [\<lparr>st_sql = s, st_parameters = None\<rparr>]"
  by (simp add: whole_statement_def finish_statement_def trim_trimmed)

lemma split_joined:
  "\<forall>s \<in> set xs. whole_statement s \<Longrightarrow>
     split_from [] False False (join_with '';'' xs) =
       map (\<lambda>s. \<lparr>st_sql = s, st_parameters = None\<rparr>) xs"
proof (induction "'';''" xs rule: join_with.induct)
  case 1
  have "trim [] = []" by (simp add: trim_id)
  then show ?case by (simp add: finish_statement_def)
next
  case (2 x)
  then have "quote_state False False x = Some (False, False)" by (simp add: whole_statement_def)
  from split_from_state [OF this, of "[]" "[]"] 2 show ?case by (simp add: finish_whole)
next
  case (3 x y xs)
  then have "quote_state False False x = Some (False, False)" by (simp add: whole_statement_def)
  from split_from_state [OF this, of "[]" "'';'' @ join_with '';'' (y # xs)"] 3
  show ?case by (simp add: finish_whole)
qed

section \<open>Delimited output\<close>

text \<open>
  A reader of comma-separated records: a field in quotation marks may contain commas and line
  feeds, and has its quotation marks doubled. The arguments are whether it is inside quotation
  marks, the field and the record so far.
\<close>

fun csv_from :: "bool \<Rightarrow> string \<Rightarrow> string list \<Rightarrow> string \<Rightarrow> string list list" where
  "csv_from q f r [] = (if f = [] \<and> r = [] then [] else [r @ [f]])"
| "csv_from True f r (c # s) =
     (if c = CHR 0x22 then
        (if s \<noteq> [] \<and> hd s = CHR 0x22 then csv_from True (f @ [c]) r (tl s)
         else csv_from False f r s)
      else csv_from True (f @ [c]) r s)"
| "csv_from False f r (c # s) =
     (if c = CHR 0x22 \<and> f = [] then csv_from True [] r s
      else if c = CHR '','' then csv_from False [] (r @ [f]) s
      else if c = CHR 0x0A then (r @ [f]) # csv_from False [] [] s
      else csv_from False (f @ [c]) r s)"

definition csv_read :: "string \<Rightarrow> string list list" where
  "csv_read s = csv_from False [] [] s"

definition shown_value :: "cli_lib \<Rightarrow> proto_value option \<Rightarrow> string" where
  "shown_value U v =
     (case proto_value_to_sql v of V_Null \<Rightarrow> [] | x \<Rightarrow> format_sql_value U x)"

definition plain_name :: "string \<Rightarrow> bool" where
  "plain_name s \<longleftrightarrow> CHR '','' \<notin> set s \<and> CHR 0x22 \<notin> set s \<and> CHR 0x0A \<notin> set s"

definition terminates_field :: "string \<Rightarrow> bool" where
  "terminates_field s \<longleftrightarrow> s \<noteq> [] \<and> (hd s = CHR '','' \<or> hd s = CHR 0x0A)"

lemma csv_quoted:
  "terminates_field rest \<Longrightarrow>
     csv_from True f r (double_quotes t @ CHR 0x22 # rest) = csv_from False (f @ t) r rest"
proof (induction t arbitrary: f)
  case Nil
  then show ?case by (auto simp: double_quotes_def terminates_field_def)
next
  case (Cons c t)
  from Cons.IH [OF Cons.prems, of "f @ [c]"] show ?case by (auto simp: double_quotes_def)
qed

lemma csv_plain:
  "plain_name t \<Longrightarrow> csv_from False f r (t @ rest) = csv_from False (f @ t) r rest"
  by (induction t arbitrary: f) (auto simp: plain_name_def)

lemma csv_field:
  assumes "terminates_field rest"
  shows "csv_from False [] r (delimited_field (CHR '','') t @ rest) = csv_from False t r rest"
proof (cases "plain_name t")
  case True
  with csv_plain [OF True, of "[]"] show ?thesis by (simp add: delimited_field_def plain_name_def)
next
  case False
  then have "delimited_field (CHR '','') t = CHR 0x22 # double_quotes t @ [CHR 0x22]"
    by (auto simp: delimited_field_def plain_name_def)
  with csv_quoted [OF assms, of "[]"] show ?thesis by simp
qed

lemma csv_record:
  "xs \<noteq> [] \<Longrightarrow>
     csv_from False [] r
       (join_with '','' (map (delimited_field (CHR '','')) xs) @ CHR 0x0A # rest) =
     (r @ xs) # csv_from False [] [] rest"
proof (induction xs arbitrary: r rule: induct_list012)
  case (2 x)
  show ?case by (simp add: csv_field terminates_field_def)
next
  case (3 x y xs)
  from "3.IH"(2) [of "r @ [x]"] show ?case
    by (simp add: csv_field terminates_field_def)
qed simp

lemma csv_document:
  "\<forall>xs \<in> set recs. xs \<noteq> [] \<Longrightarrow>
     csv_read (concat (map (\<lambda>xs. join_with '','' (map (delimited_field (CHR '','')) xs) @ [CHR 0x0A])
       recs)) = recs"
proof (induction recs)
  case Nil
  show ?case by (simp add: csv_read_def)
next
  case (Cons xs recs)
  from Cons.prems have "xs \<noteq> []" by simp
  from csv_record [OF this, of "[]"] Cons show ?case by (simp add: csv_read_def)
qed

lemma delimited_value_shown: "delimited_value U (CHR '','') v = delimited_field (CHR '','') (shown_value U v)"
  by (simp add: delimited_value_def shown_value_def delimited_field_def split: sql_value.split)

lemma delimited_plain: "plain_name s \<Longrightarrow> delimited_field (CHR '','') s = s"
  by (simp add: delimited_field_def plain_name_def)

lemma delimited_lines_fields:
  assumes "\<forall>c \<in> set (qr_columns resp). plain_name (ch_name c)"
  shows "delimited_lines U resp (CHR '','') =
    map (\<lambda>xs. join_with '','' (map (delimited_field (CHR '','')) xs))
      (map ch_name (qr_columns resp) # map (map (shown_value U)) (qr_rows resp))"
  using assms
  by (simp add: delimited_lines_def delimited_value_shown delimited_plain comp_def cong: map_cong)

section \<open>Values\<close>

lemma parse_show_i64: "parse_i64 (show_i64 i) = Some i"
proof (cases "sint i < 0")
  case True
  define n where "n = nat \<bar>sint i\<bar>"
  have "- 9223372036854775808 \<le> sint i" using sint_ge [of i] by simp
  with True have n: "n \<le> 9223372036854775808" by (simp add: n_def)
  have "- (of_nat n) = i" using True by (simp add: n_def of_nat_nat)
  moreover have "show_i64 i = CHR ''-'' # show_nat n"
    using True by (simp add: show_i64_def show_i32_def n_def)
  ultimately show ?thesis using n by (simp add: parse_i64_def digits_value_show)
next
  case False
  define n where "n = nat \<bar>sint i\<bar>"
  have "sint i < 9223372036854775808" using sint_lt [of i] by simp
  with False have n: "n \<le> 9223372036854775807" by (simp add: n_def)
  have i: "of_nat n = i" using False by (simp add: n_def)
  obtain c r where s: "show_nat n = c # r" by (cases "show_nat n") auto
  then have "c \<noteq> CHR ''-''" using show_nat_not_in [of "CHR ''-''" n] by auto
  moreover have "show_i64 i = show_nat n" using False by (simp add: show_i64_def show_i32_def n_def)
  ultimately show ?thesis using parse_uint_show [OF n] s i by (simp add: parse_i64_def)
qed

lemma show_i64_not_null: "\<not> eq_ignore_ascii_case (show_i64 i) ''null''"
proof
  assume n: "eq_ignore_ascii_case (show_i64 i) ''null''"
  obtain c r where "show_i64 i = c # r" by (cases "show_i64 i") (auto simp: show_i64_def show_i32_def)
  with n parse_show_i64 [of i] show False
    by (auto simp: eq_ignore_ascii_case_def to_ascii_lowercase_def ascii_lower_def parse_i64_def
        parse_uint_def digit_of_def Let_def split: if_splits)
qed

lemma hex_digit_of_hex_digit: "d < 16 \<Longrightarrow> hex_digit_of (hex_digit d) = Some d"
  by (auto simp: hex_digit_of_def hex_digit_def ascii_lower_def Let_def)

lemma hex_bytes_encode: "hex_bytes (hex_encode bs) = Some bs"
proof (induction bs)
  case (Cons b bs)
  have b: "unat b < 256" using unsigned_less [of b] by simp
  then have "unat b div 16 < 16" by (simp add: less_mult_imp_div_less)
  moreover have "of_nat (16 * (unat b div 16) + unat b mod 16) = b"
    by (simp only: mult_div_mod_eq) simp
  ultimately show ?case using Cons
    by (simp add: hex_encode_def hex_digit_of_hex_digit)
qed (simp add: hex_encode_def)

lemma hex_encode_digits: "list_all (\<lambda>c. hex_digit_of c \<noteq> None) (hex_encode bs)"
proof (induction bs)
  case (Cons b bs)
  have b: "unat b < 256" using unsigned_less [of b] by simp
  then have "unat b div 16 < 16" by (simp add: less_mult_imp_div_less)
  then show ?case using Cons by (simp add: hex_encode_def hex_digit_of_hex_digit)
qed (simp add: hex_encode_def)

lemma blob_literal_quoted: "blob_literal (''x'' @ quoted_text h) = Some h"
  by (simp add: blob_literal_def quoted_text_def strip_prefix_def ends_with_def)

lemma blob_not_number: "parse_i64 (''x'' @ s) = None"
  by (simp add: parse_i64_def parse_uint_def digit_of_def)

lemma blob_not_null: "\<not> eq_ignore_ascii_case (''x'' @ s) ''null''"
  by (simp add: eq_ignore_ascii_case_def to_ascii_lowercase_def ascii_lower_def)

section \<open>The shell on a remote client\<close>



lemma session_say [simp]: "session_of (say ps sh) = session_of sh"
  by (simp add: say_def)











section \<open>The properties\<close>

text \<open>
  C38. A script made of statements separated by semicolons is split into exactly these
  statements, whatever semicolons they contain inside quotes.
\<close>

theorem script_is_split:
  assumes "\<forall>s \<in> set xs. whole_statement s"
  shows "split_sql_statements (join_with '';'' xs) =
    map (\<lambda>s. \<lparr>st_sql = s, st_parameters = None\<rparr>) xs"
  using split_joined [OF assms] by (simp add: split_sql_statements_def)

theorem script_is_split_witness:
  "split_sql_statements
     (join_with '';'' [''SELECT '' @ quoted_text ''a;b'', ''DELETE FROM t'']) =
   [\<lparr>st_sql = ''SELECT '' @ quoted_text ''a;b'', st_parameters = None\<rparr>,
    \<lparr>st_sql = ''DELETE FROM t'', st_parameters = None\<rparr>]"
proof -
  have "\<forall>s \<in> set [''SELECT '' @ quoted_text ''a;b'', ''DELETE FROM t'']. whole_statement s"
    by code_simp
  from script_is_split [OF this] show ?thesis by simp
qed

text \<open>
  C39. What the CSV format prints of a response with plain column names is read back by a
  reader of comma-separated records: the header, then the text of every value of every row,
  with commas, quotation marks and line feeds.
\<close>

theorem csv_output_reads_back:
  assumes "\<forall>c \<in> set (qr_columns resp). plain_name (ch_name c)"
    and "qr_columns resp \<noteq> []" and "[] \<notin> set (qr_rows resp)"
  shows "csv_read (concat (map (\<lambda>l. l @ [CHR 0x0A]) (delimited_lines U resp (CHR '','')))) =
    map ch_name (qr_columns resp) # map (map (shown_value U)) (qr_rows resp)"
proof -
  define recs where
    "recs = map ch_name (qr_columns resp) # map (map (shown_value U)) (qr_rows resp)"
  have "\<forall>xs \<in> set recs. xs \<noteq> []" using assms(2,3) by (auto simp: recs_def)
  from csv_document [OF this] delimited_lines_fields [OF assms(1), of U]
  show ?thesis by (simp add: recs_def [symmetric] comp_def)
qed

definition sample_response :: query_response where
  "sample_response =
     \<lparr>qr_columns = [\<lparr>ch_name = ''id'', ch_type = CT_Integer, ch_declared = ''INTEGER''\<rparr>,
                    \<lparr>ch_name = ''note'', ch_type = CT_Text, ch_declared = ''TEXT''\<rparr>],
      qr_rows = [[Some (PV_Int 7), Some (PV_Text (''a,'' @ [CHR 0x22, CHR 0x0A]))],
                 [Some (PV_Null True), Some (PV_Text [])]],
      qr_total = 2, qr_generation = 1, qr_replica_read = False\<rparr>"

definition sample_lib :: cli_lib where
  "sample_lib =
     \<lparr>parse_f64 = (\<lambda>s. if s = ''0.5'' then Some 0x3FE0000000000000 else None),
      show_f64 = (\<lambda>f. ''0.5''), to_uppercase = (\<lambda>s. s), to_lowercase = to_ascii_lowercase,
      to_string_pretty = (\<lambda>j. None), table_text = (\<lambda>d h rows. [])\<rparr>"

theorem csv_output_reads_back_witness:
  "csv_read (concat (map (\<lambda>l. l @ [CHR 0x0A]) (delimited_lines sample_lib sample_response (CHR '','')))) =
   [[''id'', ''note''], [''7'', ''a,'' @ [CHR 0x22, CHR 0x0A]], [[], []]]"
proof -
  have "show_nat 7 = ''7''" by code_simp
  then have "show_i64 7 = ''7''" by (simp add: show_i64_def show_i32_def)
  moreover have "\<forall>c \<in> set (qr_columns sample_response). plain_name (ch_name c)"
    and "qr_columns sample_response \<noteq> []" and "[] \<notin> set (qr_rows sample_response)"
    by (simp_all add: sample_response_def plain_name_def)
  ultimately show ?thesis using csv_output_reads_back [of sample_response sample_lib]
    by (simp add: sample_response_def shown_value_def)
qed

text \<open>
  A null, an integer or a blob as the printers show it is accepted as a parameter and
  stands for the same value, if the number parser takes no text that starts with the letter
  \<open>x\<close>.
\<close>

theorem printed_value_is_a_parameter:
  assumes "\<And>s. parse_f64 U (CHR ''x'' # s) = None"
    and "v = V_Null \<or> (\<exists>i. v = V_Integer i) \<or> (\<exists>b. v = V_Blob b)"
  shows "\<exists>p. parse_string_to_value U (format_sql_value U v) = Inr p \<and> proto_value_to_sql p = v"
proof -
  consider "v = V_Null" | i where "v = V_Integer i" | b where "v = V_Blob b" using assms(2) by blast
  then show ?thesis
  proof cases
    case 1
    have "eq_ignore_ascii_case ''NULL'' ''null''" by code_simp
    with 1 show ?thesis by (simp add: parse_string_to_value_def)
  next
    case (2 i)
    then show ?thesis by (simp add: parse_string_to_value_def parse_show_i64 show_i64_not_null)
  next
    case (3 b)
    have "parse_f64 U (''x'' @ quoted_text (hex_encode b)) = None" using assms(1) by simp
    with 3 hex_encode_digits [of b] show ?thesis
      by (simp del: append.simps add: parse_string_to_value_def blob_not_null blob_not_number
          blob_literal_quoted hex_bytes_encode)
  qed
qed

theorem printed_value_is_a_parameter_witness:
  "\<exists>p. parse_string_to_value sample_lib (format_sql_value sample_lib (V_Blob [0, 255])) = Inr p \<and>
     proto_value_to_sql p = V_Blob [0, 255]"
  by (rule printed_value_is_a_parameter) (simp_all add: sample_lib_def)




end
