(* ===== verification/Spec2Isabelle.thy ===== *)
theory Spec2Isabelle
  imports Program Sync_Examples Gateway_Properties Batch_Properties Client_Properties Cli_Properties
begin

text \<open>
  Verification of \<open>rsqlite-rsync\<close>, a tool that brings a replica of a SQLite database up to date
  with its origin by exchanging page hashes and the pages that differ, of the high-availability
  SQL gateway it can run as, and of the gateway's clients.

  \<^bold>\<open>Parts and theories.\<close> Strings are UTF-8 byte lists, machine integers words, errors values of a
  sum type, a panic a value of its own.

  \<^item> Shared: \<open>Prelude\<close> (integers, errors of \<open>error.rs\<close>, slices), \<open>Rust_Text\<close> (operations of \<open>str\<close>),
    \<open>Kv_Text\<close> (\<open>kv_text.rs\<close>).
  \<^item> The protocol: \<open>Hash\<close> (\<open>hash.rs\<close>), \<open>Messages\<close> (\<open>protocol/messages.rs\<close>), \<open>Tuning\<close> (\<open>SyncTuning\<close> of
    \<open>lib.rs\<close>), \<open>Db\<close> (\<open>db.rs\<close>, \<open>snapshot.rs\<close>; the locale \<open>page_store\<close>), \<open>Origin\<close> and \<open>Replica\<close>
    (\<open>protocol/origin.rs\<close>, \<open>protocol/replica.rs\<close>), \<open>Sync\<close> (the entry points of \<open>lib.rs\<close>). A handler is
    a tree of sends and receives (\<open>Process\<close>); two of them joined by queues are a step relation, in
    which all schedules end alike (the locale \<open>random_descent\<close>).
  \<^item> Transports: \<open>Transport\<close> (\<open>transport/mod.rs\<close>, \<open>local.rs\<close>, \<open>stdio.rs\<close>, and the messages of \<open>ssh.rs\<close>),
    \<open>Ssh\<close> (launching and closing of \<open>ssh.rs\<close>), \<open>Grpc_Transport\<close> (\<open>transport/grpc.rs\<close>).
  \<^item> High availability: \<open>Ha_Lease\<close> and \<open>Ha\<close> (\<open>ha.rs\<close>; the locale \<open>role_executor\<close>), \<open>Ha_Loop\<close>
    (\<open>run_ha_mode\<close> of \<open>main.rs\<close>), \<open>Ha_Cluster\<close> (several such loops and one lease, as a step relation).
  \<^item> The gateway: \<open>Auth\<close>, \<open>Statements\<close> (prepared statements of \<open>db.rs\<close>), \<open>Engine\<close> with \<open>Engine_Facts\<close>
    and \<open>Engine_Locks\<close>, \<open>Gateway_Server\<close>, \<open>Replication\<close> (the files of \<open>gateway/\<close>, and the gRPC entry
    points of \<open>lib.rs\<close>).
  \<^item> The clients: \<open>Client\<close> (the crate \<open>rsqlite-rsync-client\<close>), \<open>Unified_Client\<close> (its blocking form, the
    pool managers, \<open>gateway/client.rs\<close>), \<open>Client_Gateway\<close> (a client against a network of gateways; the
    locale \<open>retried_write\<close>), \<open>Cli_Text\<close> and \<open>Cli\<close> (\<open>cli/client.rs\<close>).
  \<^item> The command line: \<open>Endpoint\<close> (\<open>endpoint.rs\<close>), \<open>Batch\<close> (\<open>batch.rs\<close>), \<open>Modes\<close> and \<open>Program\<close>
    (\<open>main.rs\<close>).

  The properties are here, and in \<open>Ha_Properties\<close>, \<open>Engine_Properties\<close>, \<open>Gateway_Properties\<close>,
  \<open>Batch_Properties\<close>, \<open>Client_Properties\<close> and \<open>Cli_Properties\<close>; \<open>Sync_Examples\<close> has concrete databases.

  \<^bold>\<open>What is shown, and under which assumptions.\<close>

  \<^item> Two handlers joined by queues, or by gRPC streams, end with the replica's file equal to the
    origin's snapshot under every schedule. Assumed: the replica is not larger than the origin, no
    other writer is active on it, SQLite answers, and the digests separate the finitely many pages
    and groups compared. A larger replica makes the origin panic. For the byte-stream transports it
    is shown that framed messages arrive complete and in order; the handlers are not run on bytes.
  \<^item> In a cluster at most one node passes the gateway's writer check, under I/O errors, failed reads
    and delays of the nodes. Assumed of the lease authority, which is outside the program: it renews
    a lease without shortening it, gives it away or removes it only once it has expired, and reads
    the same clock as the nodes. With clocks that differ nothing is claimed.
  \<^item> The engine confines database names to its directory, streams the rows of the plain query, and
    commits nothing of a failed batch, given the behaviour of SQLite's transactions stated in
    \<open>transactional\<close>. Its write locks exclude each other as long as no database is dropped.
  \<^item> Batch mode runs every entry once if every entry ends. A client's write is let through to an
    engine at most once. The client command line splits scripts, writes CSV that can be read back,
    and its shell on a cluster ends with its input.

  \<^bold>\<open>Bounds and fuel.\<close> Only the loop over the entries of a batch (\<open>entries_loop\<close>) has fuel, the number
  of entries: each round finishes one, so it is enough (\<open>entries_loop_steps\<close>). A synchronisation takes exactly \<open>10 + 6 * k\<close> steps for \<open>k\<close>
  groups that differ (\<open>sync_terminates\<close>). The retries of a batch entry and of a client are recursions
  on the attempts that are left. The row loops of the engine may not end: they are partial
  functions with the value \<open>None\<close>, as is a scripted handler that still waits, an attempt of a batch
  entry without a time limit that never ends, and the shell when its input stops without an end of
  file. Whether an attempt outlives its time limit is a parameter. The clusters, the lock registry
  and the batch scheduler are step relations without a bound; their properties are invariants.

  \<^bold>\<open>Parameters.\<close> SQLite, the digests, the thread pool, bincode, serde and the date parser, tonic, the
  file system, \<open>kubectl\<close>, \<open>ssh\<close>, clocks, and for the client command line also floating-point text,
  Unicode case, comfy-table and the line editor, are arguments of the definitions.

  \<^bold>\<open>Not modelled.\<close> Parsing of arguments (clap), set-up of logging, log lines, and most messages of
  \<open>main.rs\<close> on the terminal. Measured times in responses. Closing of SQLite handles and the raw
  pointers of \<open>db.rs\<close>. The serving of gRPC by tonic, generated protocol code and its build script.
  \<open>examples/client_demo.rs\<close> and \<open>benches/sync_bench.rs\<close>, which only call the library.
\<close>

section \<open>Synchronisation\<close>

text \<open>
  C1. Whatever the order in which the two handlers take their steps, a run that cannot go on
  has ended with both handlers returning success and the replica's file equal, byte for byte,
  to the origin's snapshot, provided the replica is not larger than the origin.
\<close>

theorem sync_makes_replica_equal:
  assumes "sync_setting X Blake3V2 snap c rpc" and "rpc \<le> snap_page_count snap"
    and "sys_step\<^sup>*\<^sup>* (sync_system X t snap c) s" and "\<And>u. \<not> sys_step s u"
  shows "left s = Ret (Returned ()) \<and>
    (\<exists>c'. right s = Ret (c', Returned ()) \<and> db_file c' = snap_bytes snap)"
  using sync_completes [OF assms(1,2), of t] every_schedule [OF assms(3,4)] by auto

theorem sync_makes_replica_equal_witness:
  "left (run_sys (sync_system ex_extern default_tuning (ex_snap [1, 2]) (ex_conn [7]))) =
     Ret (Returned ()) \<and>
   (\<exists>c'. right (run_sys (sync_system ex_extern default_tuning (ex_snap [1, 2]) (ex_conn [7]))) =
     Ret (c', Returned ()) \<and> db_file c' = [1, 2])"
  using sync_makes_replica_equal [OF ex_setting [of "[1, 2]" "[7]"] _ run_sys_reached run_sys_stops,
      of default_tuning]
  by simp





text \<open>
  C6. A synchronisation always comes to an end, and its length is known in advance: with \<open>k\<close>
  groups of 64 pages that differ, no run takes more than \<open>10 + 6 * k\<close> steps, and a run that
  cannot go on has taken exactly so many: a send and a receive for each of five messages and of
  three more per differing group.
\<close>

theorem sync_terminates:
  fixes c rpc
  assumes "sync_setting X Blake3V2 snap c rpc" and "rpc \<le> snap_page_count snap"
    and "(sys_step ^^ n) (sync_system X t snap c) s"
  defines "w \<equiv> unat (snap_page_size snap)" and "pc \<equiv> unat (snap_page_count snap)"
  defines "k \<equiv> card {g. g < max ((pc + 63) div 64) 1 \<and>
    (pc \<le> 64 * g \<or> group_pages w (snap_bytes snap) pc g \<noteq> group_pages w (db_file c) (unat rpc) g)}"
  shows "n \<le> 10 + 6 * k \<and> ((\<forall>u. \<not> sys_step s u) \<longleftrightarrow> n = 10 + 6 * k)"
proof -
  have "no_collision (digests_of X) Blake3V2 w (snap_bytes snap) pc (db_file c) (unat rpc)"
    "unat rpc \<le> pc"
    using assms(1,2) by (simp_all add: sync_setting_def w_def pc_def word_le_nat_alt)
  then have "steps_left (sync_system X t snap c) = 10 + 6 * k"
    using sync_counted [OF assms(1,2), of t, folded w_def pc_def] groups_needed_count
    unfolding counted_def k_def by fastforce
  then have sum: "n + steps_left s = 10 + 6 * k" using steps_left_after [OF assms(3)] by simp
  then show ?thesis by (auto simp: steps_left_zero [symmetric])
qed

theorem sync_terminates_witness:
  "steps_left (sync_system ex_extern default_tuning (ex_snap [1, 2]) (ex_conn [7])) = 16"
proof -
  let ?s = "sync_system ex_extern default_tuning (ex_snap [1, 2]) (ex_conn [7])"
  have "group_pages 1 [1, 2] 2 0 \<noteq> group_pages 1 [7] 1 0" by (simp add: group_pages_def page_at_def upt_rec)
  then have "{g. g < Suc 0 \<and> (2 \<le> 64 * g \<or> group_pages 1 [1, 2] 2 g \<noteq> group_pages 1 [7] 1 g)} = {0}"
    by auto
  moreover have "db_file (ex_conn [7]) = [7]" by (simp add: ex_conn_def)
  moreover have "sync_setting ex_extern Blake3V2 (ex_snap [1, 2]) (ex_conn [7]) 1"
    using ex_setting [of "[1, 2]" "[7]"] by simp
  ultimately show ?thesis
    using sync_terminates [of ex_extern "ex_snap [1, 2]" "ex_conn [7]" 1 "steps_left ?s" default_tuning "run_sys ?s"]
      steps_left_reach [of ?s] by (simp add: run_sys_stops)
qed

text \<open>
  C7. When the replica has more pages than the origin, the origin's handler panics: it slices
  its snapshot with the replica's page numbers. Every schedule ends so, and the local
  synchronisation does not return.
\<close>

theorem larger_replica_panics:
  assumes "sync_setting X Blake3V2 snap c rpc" and "snap_page_count snap < rpc"
    and "sys_step\<^sup>*\<^sup>* (sync_system X t snap c) s" and "\<And>u. \<not> sys_step s u"
  shows "left s = Ret Panicked \<and> join_result snap s = Panicked"
  using sync_panics [OF assms(1,2), of t] every_schedule [OF assms(3,4)]
  by (simp add: join_result_def)

theorem larger_replica_panics_witness:
  "join_result (ex_snap [1])
     (run_sys (sync_system ex_extern default_tuning (ex_snap [1]) (ex_conn [1, 2]))) = Panicked"
  using larger_replica_panics [OF ex_setting [of "[1]" "[1, 2]"] _ run_sys_reached run_sys_stops,
      of default_tuning]
  by simp

text \<open>
  C8. Databases of different page sizes are refused: the origin reports the mismatch, the
  replica reports the origin's explanation, and the replica's connection is untouched.
\<close>

theorem page_size_mismatch_refused:
  assumes "page_count c = Inr rpc" and "conn_page_size c \<noteq> 0"
    and "conn_page_size c \<noteq> snap_page_size snap"
    and "sys_step\<^sup>*\<^sup>* (sync_system X t snap c) s" and "\<And>u. \<not> sys_step s u"
  shows "left s = Ret (Failed (PageSizeMismatch (snap_page_size snap) (conn_page_size c))) \<and>
    right s = Ret (c, Failed (Protocol (''page size mismatch: origin='' @
      show_word (snap_page_size snap) @ '', replica='' @ show_word (conn_page_size c))))"
proof -
  have "run_sys (sync_system X t snap c) =
      pair_of (Ret (Failed (PageSizeMismatch (snap_page_size snap) (conn_page_size c))))
        (Ret (c, Failed (Protocol (''page size mismatch: origin='' @
          show_word (snap_page_size snap) @ '', replica='' @ show_word (conn_page_size c)))))"
    using assms(1-3)
    by (auto simp: sync_system_def origin_run_with_tuning_def replica_run_with_tuning_def exchange
        both_returned PROTOCOL_VERSION_def from_protocol_version_def)
  with every_schedule [OF assms(4,5)] show ?thesis by simp
qed

theorem page_size_mismatch_refused_witness:
  "left (run_sys (sync_system ex_extern default_tuning ((ex_snap [1, 2])\<lparr>snap_page_size := 2\<rparr>)
     (ex_conn [7]))) = Ret (Failed (PageSizeMismatch 2 1))"
  using page_size_mismatch_refused [OF ex_page_count(1) _ _ run_sys_reached run_sys_stops,
      of "[7]" "(ex_snap [1, 2])\<lparr>snap_page_size := 2\<rparr>" ex_extern default_tuning]
  by (simp add: ex_conn_def)

text \<open>
  C13. Whatever an origin sends and however the transport behaves, the replica's handler does
  not panic: it returns success or an error.
\<close>

theorem replica_survives_any_origin:
  assumes "rayon_ordered (rayon_of X)" and "quiescent c rpc" and "unat rpc \<le> 4294967232"
    and "drive_io (replica_run_with_tuning X t c) outs ins = (sent, Some (c', r))"
  shows "r \<noteq> Panicked"
  using drive_io_result [OF assms(4)] replica_no_panic [OF assms(1-3)] by blast

theorem replica_survives_any_origin_witness:
  "\<exists>r. drive_io (replica_run_with_tuning ex_extern default_tuning (ex_conn [7])) [None, None]
      [Inr Done] = ([Hello 2 1 1, Error (''expected HelloAck, got Done'')], Some (ex_conn [7], r)) \<and>
    r \<noteq> Panicked"
proof -
  have d: "drive_io (replica_run_with_tuning ex_extern default_tuning (ex_conn [7])) [None, None]
      [Inr Done] = ([Hello 2 1 1, Error (''expected HelloAck, got Done'')],
      Some (ex_conn [7], Failed (Protocol ''expected HelloAck, got Done'')))"
    by (simp add: replica_run_with_tuning_def ex_page_count send_or_def recv_or_def
        replica_protocol_violation_def PROTOCOL_VERSION_def) (simp add: ex_conn_def)
  have "sync_setting ex_extern Blake3V2 (ex_snap []) (ex_conn [7]) 1"
    using ex_setting [of "[]" "[7]" Blake3V2] by simp
  then have "rayon_ordered (rayon_of ex_extern)" "quiescent (ex_conn [7]) 1"
    by (simp_all add: sync_setting_def)
  from replica_survives_any_origin [OF this _ d] d show ?thesis by simp
qed

text \<open>
  C14. Thread count, parallel threshold and chunk size have no influence: the two handlers are
  the same processes under every tuning.
\<close>

theorem tuning_is_irrelevant:
  assumes "rayon_ordered (rayon_of X)"
  shows "sync_system X t snap c = sync_system X t' snap c"
  using origin_tuning [OF assms, of t snap t'] replica_tuning [OF assms, of t c t']
  by (simp add: sync_system_def)

theorem tuning_is_irrelevant_witness:
  "sync_system ex_extern default_tuning (ex_snap [1]) (ex_conn [2]) =
   sync_system ex_extern \<lparr>max_hash_threads = Some 8, parallel_min_pages = 1, hash_chunk_groups = 1\<rparr>
     (ex_snap [1]) (ex_conn [2])"
  by (rule tuning_is_irrelevant) (simp add: rayon_ordered_def ex_extern_def)

text \<open>
  C15. Synchronising a replica that already equals a non-empty origin transfers no page: the
  origin answers the handshake, asks for no group and is done.
\<close>

theorem equal_replica_receives_nothing:
  assumes "sync_setting X Blake3V2 snap c (snap_page_count snap)"
    and "db_file c = snap_bytes snap" and "snap_page_count snap \<noteq> 0"
    and "replica_group_hashes X t Blake3V2
      (page_hashes_of X Blake3V2 (unat (snap_page_size snap)) (db_file c) (unat (snap_page_count snap)))
      (snap_page_count snap) = Some hs"
  shows "drive_io (origin_run_with_tuning X t snap) [None, None, None]
      [Inr (Hello PROTOCOL_VERSION (conn_page_size c) (snap_page_count snap)), Inr (GroupHashes 0 hs)] =
    ([HelloAck PROTOCOL_VERSION (snap_page_size snap) (snap_page_count snap), GroupsNeedFine [], Done],
     Some (Returned ()))"
proof -
  let ?n = "unat (snap_page_count snap)" and ?ps = "unat (snap_page_size snap)"
  note S = assms(1) [unfolded sync_setting_def whole_pages_def]
  have "hs = map (group_digest (digests_of X) Blake3V2 ?ps (snap_bytes snap) ?n)
      [0 ..< max ((?n + 63) div 64) 1]"
    using replica_group_hashes_spec [of X "snap_page_count snap" t Blake3V2 ?ps "db_file c"] S assms(2,4)
    by simp
  moreover have "0 < ?n" using assms(3) by (simp add: unat_gt_0)
  moreover have "(?n + 63) div 64 \<le> 4294967295 div 64" by (rule div_le_mono) (use S in simp)
  ultimately have "coarse_need_fine X t (snap_bytes snap) (ucast (snap_page_size snap))
      (snap_page_count snap) Blake3V2 0 hs = Some []"
    using S coarse_need_fine_spec [of X hs "snap_bytes snap" "snap_page_count snap" "snap_page_size snap"]
      equal_images_need_nothing [of ?n] by simp
  then show ?thesis
    using S by (simp add: origin_run_with_tuning_def origin_coarse_def send_or_def recv_or_def
        PROTOCOL_VERSION_def from_protocol_version_def)
qed

theorem equal_replica_receives_nothing_witness:
  "\<exists>hs. drive_io (origin_run_with_tuning ex_extern default_tuning (ex_snap [1, 2])) [None, None, None]
      [Inr (Hello 2 1 2), Inr (GroupHashes 0 hs)] =
    ([HelloAck 2 1 2, GroupsNeedFine [], Done], Some (Returned ()))"
proof -
  have S: "sync_setting ex_extern Blake3V2 (ex_snap [1, 2]) (ex_conn [1, 2]) (snap_page_count (ex_snap [1, 2]))"
    using ex_setting [of "[1, 2]" "[1, 2]" Blake3V2] by simp
  then have "rayon_ordered (rayon_of ex_extern)" by (simp add: sync_setting_def)
  note hs = replica_group_hashes_spec [OF this, of "snap_page_count (ex_snap [1, 2])" default_tuning
      Blake3V2 1 "[1, 2]"]
  have "conn_page_size (ex_conn [1, 2]) = 1" "db_file (ex_conn [1, 2]) = [1, 2]"
    by (simp_all add: ex_conn_def)
  then show ?thesis
    using equal_replica_receives_nothing [OF S _ _] hs by (force simp: PROTOCOL_VERSION_def)
qed



section \<open>Checks on what a peer sends\<close>

text \<open>
  The origin accepts the page numbers offered for a group exactly when there are as many
  hashes as numbers, at most 64, and the numbers are the group's first page and its successors.
\<close>

theorem page_hashes_accepted_iff:
  assumes "unat g < 67108863"
  shows "validate_page_hashes_for_group nos hs g = Inr () \<longleftrightarrow>
    length nos = length hs \<and> length nos \<le> 64 \<and>
    nos = map (\<lambda>j. g * GROUP_SIZE + 1 + of_nat j) [0 ..< length nos]"
  unfolding validate_page_hashes_iff [OF assms] consecutive_from_def ..

theorem page_hashes_accepted_iff_witness:
  "validate_page_hashes_for_group [65, 66] [[], []] 1 = Inr () \<and>
   validate_page_hashes_for_group [66] [[]] 1 \<noteq> Inr ()"
  using page_hashes_accepted_iff [of 1 "[65, 66]" "[[], []]"] page_hashes_accepted_iff [of 1 "[66]" "[[]]"]
  by (simp add: GROUP_SIZE_def)

text \<open>
  An acknowledgement is accepted exactly when it names the pages sent, each once, in any
  order.
\<close>

theorem pages_ack_accepted_iff:
  "validate_pages_ack dbg expected ack = Inr () \<longleftrightarrow> distinct ack \<and> set ack = set expected"
  by (rule validate_pages_ack_iff)

section \<open>Transports and the page store\<close>

definition ex_codec :: "bytes \<Rightarrow> bincode" where
  "ex_codec payload =
     \<lparr>encode_to_vec = (\<lambda>m. if m = Done then Inr payload else Inl ''unsupported''),
      decode_from_slice = (\<lambda>b. if b = payload then Inr (Done, length b) else Inl ''malformed'')\<rparr>"

text \<open>
  C17. Messages sent one after the other arrive complete and in order, however the stream cuts
  their bytes into chunks, and nothing is left in the receiver's buffer.
\<close>

theorem messages_arrive_in_order:
  assumes "bincode_roundtrip B" and "send_n B [] msgs = Inr bs"
    and "\<forall>m \<in> set msgs. within_bound B m" and "concat chunks = bs" and "[] \<notin> set chunks"
  shows "recv_n B closed (length msgs) [] (map Inr chunks) = Some (msgs, [], [])"
  using send_n_frames [OF assms(2,3)] recv_n_frames [OF assms(1), of msgs bs "[]" chunks closed] assms(4,5)
  by simp

theorem messages_arrive_in_order_witness:
  "recv_n (ex_codec [9]) [] 2 [] (map Inr [[1, 0], [0, 0, 9, 1], [0, 0, 0, 9]]) = Some ([Done, Done], [], [])"
proof -
  have "bincode_roundtrip (ex_codec [9])" by (simp add: bincode_roundtrip_def ex_codec_def)
  moreover have "send_n (ex_codec [9]) [] [Done, Done] = Inr [1, 0, 0, 0, 9, 1, 0, 0, 0, 9]"
    by (simp add: local_send_def encode_def ex_codec_def to_le_bytes_def)
  moreover have "\<forall>m \<in> set [Done, Done]. within_bound (ex_codec [9]) m"
    by (simp add: within_bound_def ex_codec_def MAX_MESSAGE_SIZE_def)
  ultimately show ?thesis
    using messages_arrive_in_order [of "ex_codec [9]" "[Done, Done]" _
        "[[1, 0], [0, 0, 9, 1], [0, 0, 0, 9]]" "[]"]
    by (simp add: numeral_2_eq_2)
qed



text \<open>
  C19. Writing a page of a writable database succeeds, reading it back gives the bytes written,
  and every other complete page reads as before.
\<close>

theorem page_written_is_page_read:
  assumes "conn_ready c" and "no \<noteq> 0" and "length d = unat (conn_page_size c)"
    and "\<And>off. read_io c off = Inr most" and "unat (conn_page_size c) \<le> most"
  shows "\<exists>c'. write_page c no d = (c', Inr ()) \<and> read_page c' no = Inr d \<and>
    (\<forall>no'. no' \<noteq> 0 \<and> no' \<noteq> no \<and> unat no' * unat (conn_page_size c) \<le> length (db_file c) \<longrightarrow>
      read_page c' no' = read_page c no')"
proof -
  let ?ps = "unat (conn_page_size c)" and ?c' = "fst (write_page c no d)"
  have w: "write_page c no d = (?c', Inr ())" and s: "conn_page_size ?c' = conn_page_size c"
    "read_io ?c' = read_io c"
    by (simp_all add: write_page_ok [OF assms(1-3)])
  have len: "length (db_file ?c') = max (length (db_file c)) (unat no * ?ps)"
    by (rule conn.put_length [OF assms(1) w])
  have "read_page ?c' no = Inr d"
    using read_page_page_at [of no ?c' most] conn.put_hit [OF assms(1) w] assms s len by simp
  moreover have "read_page ?c' no' = read_page c no'"
    if n: "no' \<noteq> 0" "no' \<noteq> no" "unat no' * ?ps \<le> length (db_file c)" for no'
  proof -
    have "unat no' - 1 \<noteq> unat no - 1" using n(1,2) assms(2)
      by (metis One_nat_def Suc_pred unat_gt_0 word_unat_eq_iff)
    then show ?thesis
      using read_page_page_at [of no' ?c' most] read_page_page_at [of no' c most] n assms s len
        conn.put_miss [OF assms(1) w, of "unat no' - 1"] page_end [OF n(1), of ?ps] by simp
  qed
  ultimately show ?thesis using w by blast
qed

theorem page_written_is_page_read_witness:
  "\<exists>c'. write_page (ex_conn [5, 6]) 2 [9] = (c', Inr ()) \<and> read_page c' 2 = Inr [9] \<and>
     read_page c' 1 = read_page (ex_conn [5, 6]) 1"
proof -
  have "conn_ready (ex_conn [5, 6])" "length [9 :: u8] = unat (conn_page_size (ex_conn [5, 6]))"
    "\<And>off. read_io (ex_conn [5, 6]) off = Inr 65536" "unat (conn_page_size (ex_conn [5, 6])) \<le> 65536"
    "length (db_file (ex_conn [5, 6])) = 2"
    by (simp_all add: ex_conn_def conn_ready_def)
  from page_written_is_page_read [OF this(1) _ this(2-4), of 2] this(5) show ?thesis
    by (auto simp: ex_conn_def)
qed

text \<open>
  C20. A replica opened read-only is never modified, whatever the origin sends and however the
  transport behaves.
\<close>

theorem read_only_replica_is_untouched:
  assumes "\<not> has_write_fd c"
    and "drive_io (replica_run_with_tuning X t c) outs ins = (sent, Some (c', r))"
  shows "c' = c"
  using drive_io_result [OF assms(2)] replica_read_only [OF assms(1)] by blast

theorem read_only_replica_is_untouched_witness:
  "\<exists>sent r. drive_io (replica_run_with_tuning ex_extern default_tuning ((ex_conn [7])\<lparr>has_write_fd := False\<rparr>))
      [None, None] [Inr Done] = (sent, Some ((ex_conn [7])\<lparr>has_write_fd := False\<rparr>, r))"
proof -
  let ?c = "(ex_conn [7])\<lparr>has_write_fd := False\<rparr>"
  have "page_count ?c = Inr 1"
    by (simp add: page_count_def query_pragma_u32_def query_pragma_from.simps ex_conn_def check_def
      sqlite_codes MAX_RETRIES_def)
  then obtain sent c' r where d: "drive_io (replica_run_with_tuning ex_extern default_tuning ?c)
      [None, None] [Inr Done] = (sent, Some (c', r))"
    by (simp add: replica_run_with_tuning_def send_or_def recv_or_def replica_protocol_violation_def)
  moreover have "c' = ?c" by (rule read_only_replica_is_untouched [OF _ d]) simp
  ultimately show ?thesis by blast
qed

text \<open>
  The pragma query ends: whatever SQLite answers, at most 13 attempts are made.
\<close>

theorem pragma_within_retry_budget:
  "fst (query_pragma_from errmsg replies name 0) \<le> 13"
  using query_pragma_attempts [of errmsg replies name 0] by (simp add: MAX_RETRIES_def)

end
